(* ===== verification/Talk_Prelude.thy ===== *)
theory Talk_Prelude
  imports Main "HOL-Library.Word"
begin

text \<open>
  The prelude of the development: the types every component shares, the
  collections of simplification rules, and generic lemmas on lists, options
  and sums that the component theories use.

  Conventions. A Rust \<^verbatim>\<open>u8\<close> is an Isabelle \<^typ>\<open>char\<close> (exactly eight bits), so
  \<^verbatim>\<open>Vec<u8>\<close>, \<^verbatim>\<open>&[u8]\<close> and the UTF-8 bytes of a \<^verbatim>\<open>String\<close> are all \<^typ>\<open>char list\<close>
  and \<^verbatim>\<open>as_bytes\<close> / \<^verbatim>\<open>into_bytes\<close> are the identity. A Rust \<^verbatim>\<open>Result<T, E>\<close> is
  \<open>'e + 't\<close> with \<open>Inl\<close> the error.
\<close>

type_synonym bytes = "char list"
type_synonym rstr = "char list"
type_synonym ('e, 'a) result = "'e + 'a"

named_theorems rstr_simps \<open>facts on the Rust string operations\<close>
named_theorems framing_simps \<open>facts on line and blob framing\<close>
named_theorems store_defs \<open>definitions of the store's SQL statements\<close>
named_theorems inv_intros \<open>introduction rules for the invariants\<close>

subsection \<open>Sums as results\<close>

definition bind_r :: "('e, 'a) result \<Rightarrow> ('a \<Rightarrow> ('e, 'b) result) \<Rightarrow> ('e, 'b) result" where
  "bind_r r f = (case r of Inl e \<Rightarrow> Inl e | Inr a \<Rightarrow> f a)"

definition ok_or :: "'e \<Rightarrow> 'a option \<Rightarrow> ('e, 'a) result" where
  "ok_or e x = (case x of None \<Rightarrow> Inl e | Some a \<Rightarrow> Inr a)"

definition result_ok :: "('e, 'a) result \<Rightarrow> 'a option" where
  "result_ok r = (case r of Inl _ \<Rightarrow> None | Inr a \<Rightarrow> Some a)"

definition is_ok :: "('e, 'a) result \<Rightarrow> bool" where
  "is_ok r = (case r of Inl _ \<Rightarrow> False | Inr _ \<Rightarrow> True)"

lemma is_ok_pair: "is_ok (fst p) \<Longrightarrow> \<exists>a. p = (Inr a, snd p)"
  by (cases p; cases "fst p") (auto simp: is_ok_def)

lemma bind_r_simps [simp]:
  "bind_r (Inl e) f = Inl e"
  "bind_r (Inr a) f = f a"
  by (simp_all add: bind_r_def)

lemma ok_or_simps [simp]:
  "ok_or e None = Inl e"
  "ok_or e (Some a) = Inr a"
  by (simp_all add: ok_or_def)

lemma result_ok_simps [simp]:
  "result_ok (Inl e) = None"
  "result_ok (Inr a) = Some a"
  by (simp_all add: result_ok_def)

lemma bind_r_Inr_iff: "bind_r r f = Inr b \<longleftrightarrow> (\<exists>a. r = Inr a \<and> f a = Inr b)"
  by (cases r) auto

lemma ok_or_Inr_iff [simp]: "ok_or e x = Inr a \<longleftrightarrow> x = Some a"
  by (cases x) auto

text \<open>Sequencing of fallible steps on a state: the state reached so far is kept on an error.\<close>

definition bind_s :: "('s \<Rightarrow> ('e, 'a) result \<times> 's) \<Rightarrow> ('a \<Rightarrow> 's \<Rightarrow> ('e, 'b) result \<times> 's) \<Rightarrow> 's \<Rightarrow> ('e, 'b) result \<times> 's" where
  "bind_s f g s = (case f s of (Inl e, s') \<Rightarrow> (Inl e, s') | (Inr a, s') \<Rightarrow> g a s')"

definition lift_r :: "('e, 'a) result \<Rightarrow> 's \<Rightarrow> ('e, 'a) result \<times> 's" where
  "lift_r r s = (r, s)"

lemma bind_s_ok: "f s = (Inr a, s') \<Longrightarrow> bind_s f g s = g a s'"
  by (simp add: bind_s_def)

lemma bind_s_err: "f s = (Inl e, s') \<Longrightarrow> bind_s f g s = (Inl e, s')"
  by (simp add: bind_s_def)

lemma bind_s_lift [simp]: "bind_s (lift_r (Inr a)) g s = g a s" "bind_s (lift_r (Inl e)) g s = (Inl e, s)"
  by (simp_all add: bind_s_def lift_r_def)

lemma bind_s_cases:
  assumes "bind_s f g s = (r, t)"
  obtains e where "f s = (Inl e, t)" "r = Inl e" | a s' where "f s = (Inr a, s')" "g a s' = (r, t)"
  using assms by (auto simp: bind_s_def split: prod.splits sum.splits)

subsection \<open>Lists\<close>

text \<open>The words of a list: maximal runs of elements that do not satisfy \<open>p\<close>.\<close>

function words_by :: "('a \<Rightarrow> bool) \<Rightarrow> 'a list \<Rightarrow> 'a list list" where
  "words_by p [] = []"
| "words_by p (x # xs) =
     (if p x then words_by p xs
      else (x # takeWhile (\<lambda>y. \<not> p y) xs) # words_by p (dropWhile (\<lambda>y. \<not> p y) xs))"
  by pat_completeness auto
termination
  by (relation "measure (\<lambda>(p, xs). length xs)") (auto simp: le_imp_less_Suc length_dropWhile_le)

lemma words_by_none: "(\<And>x. x \<in> set xs \<Longrightarrow> \<not> p x) \<Longrightarrow> xs \<noteq> [] \<Longrightarrow> words_by p xs = [xs]"
proof (cases xs)
  case (Cons y ys)
  moreover assume "\<And>x. x \<in> set xs \<Longrightarrow> \<not> p x"
  ultimately have "\<not> p y" and t: "takeWhile (\<lambda>z. \<not> p z) ys = ys" and d: "dropWhile (\<lambda>z. \<not> p z) ys = []"
    by (auto simp: takeWhile_eq_all_conv)
  with Cons show ?thesis by (simp only: words_by.simps t d if_False)
qed simp

lemma words_by_append:
  assumes "\<And>x. x \<in> set xs \<Longrightarrow> \<not> p x" and "xs \<noteq> []" and "p s"
  shows "words_by p (xs @ s # ys) = xs # words_by p ys"
proof (cases xs)
  case (Cons z zs)
  have nz: "\<not> p z" and nzs: "\<And>x. x \<in> set zs \<Longrightarrow> \<not> p x"
    using assms(1) Cons by auto
  have "takeWhile (\<lambda>y. \<not> p y) (zs @ s # ys) = zs"
    using nzs assms(3) by (induction zs) auto
  moreover have "dropWhile (\<lambda>y. \<not> p y) (zs @ s # ys) = s # ys"
    using nzs assms(3) by (induction zs) auto
  ultimately show ?thesis using Cons nz assms(3) by simp
qed (use assms in simp)

lemma words_by_nonempty: "w \<in> set (words_by p xs) \<Longrightarrow> w \<noteq> []"
  by (induction p xs rule: words_by.induct) (auto split: if_splits)

lemma words_by_sub: "w \<in> set (words_by p xs) \<Longrightarrow> x \<in> set w \<Longrightarrow> x \<in> set xs \<and> \<not> p x"
proof (induction p xs rule: words_by.induct)
  case (2 p y ys)
  then show ?case
    by (auto split: if_splits dest: set_takeWhileD set_dropWhileD)
qed simp

lemma concat_map_single [simp]: "concat (map (\<lambda>c. [c]) s) = s"
  by (induction s) auto

lemma takeWhile_append_sep:
  "(\<And>x. x \<in> set xs \<Longrightarrow> P x) \<Longrightarrow> \<not> P s \<Longrightarrow> takeWhile P (xs @ s # ys) = xs"
  by (induction xs) auto

lemma dropWhile_append_sep:
  "(\<And>x. x \<in> set xs \<Longrightarrow> P x) \<Longrightarrow> \<not> P s \<Longrightarrow> dropWhile P (xs @ s # ys) = s # ys"
  by (induction xs) auto

lemma append_sep_eq_iff:
  "c \<notin> set a \<Longrightarrow> c \<notin> set b \<Longrightarrow> a @ c # r = b @ c # s \<longleftrightarrow> a = b \<and> r = s"
proof (induction a arbitrary: b)
  case Nil then show ?case by (cases b) auto
next
  case (Cons x a) then show ?case by (cases b) auto
qed

lemma find_None_filter: "find P xs = None \<longleftrightarrow> filter P xs = []"
  by (induction xs) auto

lemma find_Some_in: "find P xs = Some x \<Longrightarrow> x \<in> set xs \<and> P x"
  by (induction xs) (auto split: if_splits)

lemma find_unique:
  assumes "x \<in> set xs" and "P x" and "\<And>y. y \<in> set xs \<Longrightarrow> P y \<Longrightarrow> y = x"
  shows "find P xs = Some x"
proof (cases "find P xs")
  case None
  with assms(1,2) show ?thesis by (auto simp: find_None_iff)
next
  case (Some y)
  with assms(3) show ?thesis by (metis find_Some_in)
qed

lemma filter_key_neq:
  "filter (\<lambda>s. f s = j) (filter (\<lambda>s. f s \<noteq> i) xs) = (if j = i then [] else filter (\<lambda>s. f s = j) xs)"
  by (induction xs) auto

lemma distinct_map_filterI: "distinct (map f xs) \<Longrightarrow> distinct (map f (filter P xs))"
  by (simp add: distinct_map_filter)

lemma distinct_map_eqD:
  "distinct (map f xs) \<Longrightarrow> x \<in> set xs \<Longrightarrow> y \<in> set xs \<Longrightarrow> f x = f y \<Longrightarrow> x = y"
  by (auto simp: distinct_map inj_on_def)

lemma map_update_same:
  "(\<And>x. f (g x) = f x) \<Longrightarrow> map f (map (\<lambda>x. if P x then g x else x) xs) = map f xs"
  unfolding map_map by (rule map_cong) auto

end
