(* ===== verification/Rust_Str.thy ===== *)
theory Rust_Str
  imports Talk_Prelude
begin

text \<open>
  What the program uses of Rust's standard library on strings: UTF-8 validation
  and lossy decoding, iteration over characters, Unicode white space, splitting,
  ASCII case mapping, decimal formatting and parsing, and hexadecimal digits.

  A \<^verbatim>\<open>String\<close> is the list of its UTF-8 bytes. A \<^verbatim>\<open>char\<close> of Rust is the non-empty
  byte list that encodes it, so \<^verbatim>\<open>s.chars()\<close> is a list of such byte lists.
\<close>

subsection \<open>UTF-8\<close>

definition byte :: "char \<Rightarrow> nat" where
  "byte c = of_char c"

definition is_cont :: "nat \<Rightarrow> bool" where
  "is_cont b \<longleftrightarrow> 128 \<le> b \<and> b < 192"

text \<open>\<open>get0 s i\<close> is the byte at \<open>i\<close>, or 0 past the end (\<^verbatim>\<open>safe_get\<close> of the validator).\<close>

definition get0 :: "bytes \<Rightarrow> nat \<Rightarrow> nat" where
  "get0 s i = (if i < length s then byte (s ! i) else 0)"

definition second_ok :: "nat \<Rightarrow> nat \<Rightarrow> bool" where
  "second_ok b n \<longleftrightarrow>
     (b = 224 \<and> 160 \<le> n \<and> n < 192) \<or> (225 \<le> b \<and> b \<le> 236 \<and> is_cont n) \<or>
     (b = 237 \<and> 128 \<le> n \<and> n < 160) \<or> (238 \<le> b \<and> b \<le> 239 \<and> is_cont n) \<or>
     (b = 240 \<and> 144 \<le> n \<and> n < 192) \<or> (241 \<le> b \<and> b \<le> 243 \<and> is_cont n) \<or>
     (b = 244 \<and> 128 \<le> n \<and> n < 144)"

text \<open>
  One step of the decoder at the front of a non-empty byte list: whether a
  well-formed character starts there, and how many bytes after the first belong
  to it or to the maximal ill-formed prefix.
\<close>

definition utf8_step :: "char \<Rightarrow> bytes \<Rightarrow> bool \<times> nat" where
  "utf8_step c cs =
     (let b = byte c in
      if b < 128 then (True, 0)
      else if 194 \<le> b \<and> b < 224 then
        (if is_cont (get0 cs 0) then (True, 1) else (False, 0))
      else if 224 \<le> b \<and> b < 240 then
        (if second_ok b (get0 cs 0)
         then (if is_cont (get0 cs 1) then (True, 2) else (False, 1)) else (False, 0))
      else if 240 \<le> b \<and> b < 245 then
        (if second_ok b (get0 cs 0)
         then (if is_cont (get0 cs 1)
               then (if is_cont (get0 cs 2) then (True, 3) else (False, 2)) else (False, 1))
         else (False, 0))
      else (False, 0))"

fun utf8_valid :: "bytes \<Rightarrow> bool" where
  "utf8_valid [] = True"
| "utf8_valid (c # cs) =
     (fst (utf8_step c cs) \<and> utf8_valid (drop (snd (utf8_step c cs)) cs))"

fun chars :: "bytes \<Rightarrow> bytes list" where
  "chars [] = []"
| "chars (c # cs) =
     (let n = snd (utf8_step c cs) in (c # take n cs) # chars (drop n cs))"

definition replacement_char :: bytes where
  "replacement_char = [CHR 0xEF, CHR 0xBF, CHR 0xBD]"

fun from_utf8_lossy :: "bytes \<Rightarrow> rstr" where
  "from_utf8_lossy [] = []"
| "from_utf8_lossy (c # cs) =
     (let n = snd (utf8_step c cs) in
      (if fst (utf8_step c cs) then c # take n cs else replacement_char)
      @ from_utf8_lossy (drop n cs))"

definition from_utf8 :: "bytes \<Rightarrow> rstr option" where
  "from_utf8 s = (if utf8_valid s then Some s else None)"

definition ascii :: "bytes \<Rightarrow> bool" where
  "ascii s \<longleftrightarrow> (\<forall>c \<in> set s. byte c < 128)"

subsection \<open>White space, trimming and splitting\<close>

text \<open>The characters with the Unicode property White_Space, as \<^verbatim>\<open>char::is_whitespace\<close>.\<close>

definition is_whitespace :: "bytes \<Rightarrow> bool" where
  "is_whitespace ch \<longleftrightarrow>
     ch \<in> {[CHR 0x09], [CHR 0x0A], [CHR 0x0B], [CHR 0x0C], [CHR 0x0D], [CHR 0x20],
           [CHR 0xC2, CHR 0x85], [CHR 0xC2, CHR 0xA0], [CHR 0xE1, CHR 0x9A, CHR 0x80],
           [CHR 0xE2, CHR 0x80, CHR 0x80], [CHR 0xE2, CHR 0x80, CHR 0x81],
           [CHR 0xE2, CHR 0x80, CHR 0x82], [CHR 0xE2, CHR 0x80, CHR 0x83],
           [CHR 0xE2, CHR 0x80, CHR 0x84], [CHR 0xE2, CHR 0x80, CHR 0x85],
           [CHR 0xE2, CHR 0x80, CHR 0x86], [CHR 0xE2, CHR 0x80, CHR 0x87],
           [CHR 0xE2, CHR 0x80, CHR 0x88], [CHR 0xE2, CHR 0x80, CHR 0x89],
           [CHR 0xE2, CHR 0x80, CHR 0x8A], [CHR 0xE2, CHR 0x80, CHR 0xA8],
           [CHR 0xE2, CHR 0x80, CHR 0xA9], [CHR 0xE2, CHR 0x80, CHR 0xAF],
           [CHR 0xE2, CHR 0x81, CHR 0x9F], [CHR 0xE3, CHR 0x80, CHR 0x80]}"

definition split_whitespace :: "rstr \<Rightarrow> rstr list" where
  "split_whitespace s = map concat (words_by is_whitespace (chars s))"

definition trim :: "rstr \<Rightarrow> rstr" where
  "trim s = concat (rev (dropWhile is_whitespace (rev (dropWhile is_whitespace (chars s)))))"

definition split_once :: "char \<Rightarrow> rstr \<Rightarrow> (rstr \<times> rstr) option" where
  "split_once c s =
     (if c \<in> set s then Some (takeWhile (\<lambda>x. x \<noteq> c) s, tl (dropWhile (\<lambda>x. x \<noteq> c) s)) else None)"

definition rsplit_once :: "char \<Rightarrow> rstr \<Rightarrow> (rstr \<times> rstr) option" where
  "rsplit_once c s =
     (case split_once c (rev s) of None \<Rightarrow> None | Some (b, a) \<Rightarrow> Some (rev a, rev b))"

fun split_on :: "char \<Rightarrow> rstr \<Rightarrow> rstr list" where
  "split_on c [] = [[]]"
| "split_on c (x # xs) =
     (if x = c then [] # split_on c xs
      else (case split_on c xs of [] \<Rightarrow> [[x]] | w # ws \<Rightarrow> (x # w) # ws))"

fun splitn :: "nat \<Rightarrow> char \<Rightarrow> rstr \<Rightarrow> rstr list" where
  "splitn 0 c s = []"
| "splitn (Suc 0) c s = [s]"
| "splitn (Suc (Suc n)) c s =
     (case split_once c s of None \<Rightarrow> [s] | Some (a, b) \<Rightarrow> a # splitn (Suc n) c b)"

fun strip_prefix :: "rstr \<Rightarrow> rstr \<Rightarrow> rstr option" where
  "strip_prefix [] s = Some s"
| "strip_prefix (x # xs) [] = None"
| "strip_prefix (x # xs) (y # ys) = (if x = y then strip_prefix xs ys else None)"

definition strip_suffix :: "rstr \<Rightarrow> rstr \<Rightarrow> rstr option" where
  "strip_suffix p s = map_option rev (strip_prefix (rev p) (rev s))"

definition starts_with :: "rstr \<Rightarrow> rstr \<Rightarrow> bool" where
  "starts_with s p \<longleftrightarrow> strip_prefix p s \<noteq> None"

definition ends_with :: "rstr \<Rightarrow> rstr \<Rightarrow> bool" where
  "ends_with s p \<longleftrightarrow> strip_suffix p s \<noteq> None"

text \<open>\<open>nth_opt xs n\<close> is \<^verbatim>\<open>iter.nth(n)\<close> on the items of an iterator.\<close>

fun nth_opt :: "'a list \<Rightarrow> nat \<Rightarrow> 'a option" where
  "nth_opt [] n = None"
| "nth_opt (x # xs) 0 = Some x"
| "nth_opt (x # xs) (Suc n) = nth_opt xs n"

lemma nth_opt_lits [simp]:
  "nth_opt [a] 1 = None" "nth_opt (a # b # l) 1 = Some b"
  "nth_opt [a, b] 2 = None" "nth_opt [a] 2 = None" "nth_opt (a # b # c # l) 2 = Some c"
  "nth_opt (a # b # c # d # l) 3 = Some d" "nth_opt [a, b, c, d] 4 = None"
  by (simp_all add: numeral_eq_Suc)

subsection \<open>ASCII case\<close>

definition upper_char :: "char \<Rightarrow> char" where
  "upper_char c = (if 97 \<le> byte c \<and> byte c \<le> 122 then char_of (byte c - 32) else c)"

definition lower_char :: "char \<Rightarrow> char" where
  "lower_char c = (if 65 \<le> byte c \<and> byte c \<le> 90 then char_of (byte c + 32) else c)"

definition to_ascii_uppercase :: "rstr \<Rightarrow> rstr" where
  "to_ascii_uppercase = map upper_char"

definition to_ascii_lowercase :: "rstr \<Rightarrow> rstr" where
  "to_ascii_lowercase = map lower_char"

definition eq_ignore_ascii_case :: "rstr \<Rightarrow> rstr \<Rightarrow> bool" where
  "eq_ignore_ascii_case a b \<longleftrightarrow> to_ascii_lowercase a = to_ascii_lowercase b"

subsection \<open>Decimal numbers\<close>

definition digit_char :: "nat \<Rightarrow> char" where
  "digit_char d = char_of (48 + d)"

fun show_nat :: "nat \<Rightarrow> rstr" where
  "show_nat n = (if n < 10 then [digit_char n] else show_nat (n div 10) @ [digit_char (n mod 10)])"

declare show_nat.simps [simp del]

definition show_int :: "int \<Rightarrow> rstr" where
  "show_int i = (if i < 0 then CHR ''-'' # show_nat (nat (- i)) else show_nat (nat i))"

definition to_digit10 :: "char \<Rightarrow> nat option" where
  "to_digit10 c = (if 48 \<le> byte c \<and> byte c \<le> 57 then Some (byte c - 48) else None)"

fun digits_val :: "nat \<Rightarrow> rstr \<Rightarrow> nat option" where
  "digits_val acc [] = Some acc"
| "digits_val acc (c # cs) =
     (case to_digit10 c of None \<Rightarrow> None | Some d \<Rightarrow> digits_val (10 * acc + d) cs)"

text \<open>
  \<open>parse_uint m\<close> is \<^verbatim>\<open>str::parse\<close> for an unsigned type whose largest value is \<open>m\<close>: an
  optional \<open>+\<close>, at least one digit, and no value above \<open>m\<close>. \<open>parse_i64\<close> also takes
  a sign \<open>-\<close>.
\<close>

definition parse_digits :: "nat \<Rightarrow> rstr \<Rightarrow> nat option" where
  "parse_digits m s =
     (if s = [] then None
      else case digits_val 0 s of None \<Rightarrow> None | Some n \<Rightarrow> if n \<le> m then Some n else None)"

definition parse_uint :: "nat \<Rightarrow> rstr \<Rightarrow> nat option" where
  "parse_uint m s =
     (case s of c # cs \<Rightarrow> if c = CHR ''+'' then parse_digits m cs else parse_digits m s
      | [] \<Rightarrow> None)"

abbreviation u16_max :: nat where "u16_max \<equiv> 65535"
abbreviation u32_max :: nat where "u32_max \<equiv> 4294967295"
abbreviation usize_max :: nat where "usize_max \<equiv> 18446744073709551615"
abbreviation i64_max :: nat where "i64_max \<equiv> 9223372036854775807"

definition parse_i64 :: "rstr \<Rightarrow> int option" where
  "parse_i64 s =
     (case s of [] \<Rightarrow> None
      | c # cs \<Rightarrow>
          if c = CHR ''-'' then map_option (\<lambda>n. - int n) (parse_digits (Suc i64_max) cs)
          else if c = CHR ''+'' then map_option int (parse_digits i64_max cs)
          else map_option int (parse_digits i64_max s))"

subsection \<open>Hexadecimal digits\<close>

definition hex_char :: "nat \<Rightarrow> char" where
  "hex_char d = (if d < 10 then char_of (48 + d) else char_of (87 + d))"

text \<open>\<^verbatim>\<open>format!("{b:02x}")\<close> for one byte.\<close>

definition hex_byte :: "char \<Rightarrow> rstr" where
  "hex_byte c = [hex_char (byte c div 16), hex_char (byte c mod 16)]"

definition to_digit16 :: "char \<Rightarrow> nat option" where
  "to_digit16 c =
     (let b = byte c in
      if 48 \<le> b \<and> b \<le> 57 then Some (b - 48)
      else if 97 \<le> b \<and> b \<le> 102 then Some (b - 87)
      else if 65 \<le> b \<and> b \<le> 70 then Some (b - 55) else None)"

subsection \<open>Facts on bytes and UTF-8\<close>

lemma byte_less [simp]: "byte c < 256"
  by (simp add: byte_def)

lemma byte_eq_iff [simp]: "byte c = byte d \<longleftrightarrow> c = d"
  by (simp add: byte_def)

lemma byte_char_of [simp]: "n < 256 \<Longrightarrow> byte (char_of n) = n"
  by (simp add: byte_def)

lemma char_of_byte [simp]: "char_of (byte c) = c"
  by (simp add: byte_def)

lemma byte_Char [simp]:
  "byte (Char b0 b1 b2 b3 b4 b5 b6 b7) = of_char (Char b0 b1 b2 b3 b4 b5 b6 b7)"
  by (simp add: byte_def)

lemma utf8_step_ascii [simp]: "byte c < 128 \<Longrightarrow> utf8_step c cs = (True, 0)"
  by (simp add: utf8_step_def)

lemma cont_get0: "is_cont (get0 cs i) \<Longrightarrow> i < length cs"
  by (auto simp: is_cont_def get0_def split: if_splits)

lemma utf8_step_len: "fst (utf8_step c cs) \<Longrightarrow> snd (utf8_step c cs) \<le> length cs"
  by (auto simp: utf8_step_def Let_def Suc_le_eq dest!: cont_get0 split: if_splits)

lemma get0_append: "i < length xs \<Longrightarrow> get0 (xs @ ys) i = get0 xs i"
  by (simp add: get0_def nth_append)

lemma get0_take: "i < n \<Longrightarrow> get0 (take n xs) i = get0 xs i"
  by (simp add: get0_def)

lemma utf8_step_cong:
  assumes "fst (utf8_step c cs)" and "\<And>i. i < snd (utf8_step c cs) \<Longrightarrow> get0 ds i = get0 cs i"
  shows "utf8_step c ds = utf8_step c cs"
proof -
  obtain n where st: "utf8_step c cs = (True, n)" using assms(1) by (metis prod.collapse)
  then have g: "\<And>i. i < n \<Longrightarrow> get0 ds i = get0 cs i" using assms(2) by simp
  consider "n = 0" | "n = 1" | "n = 2" | "n = 3"
    using st by (auto simp: utf8_step_def Let_def split: if_splits)
  then have "utf8_step c ds = (True, n)"
    by cases (use st g[of 0] g[of 1] g[of 2] in \<open>auto simp: utf8_step_def Let_def split: if_splits\<close>)
  with st show ?thesis by simp
qed

lemma utf8_step_prefix:
  assumes "fst (utf8_step c cs)"
  shows "utf8_step c (take (snd (utf8_step c cs)) cs @ r) = utf8_step c cs"
proof (rule utf8_step_cong[OF assms])
  fix i assume i: "i < snd (utf8_step c cs)"
  then have "i < length (take (snd (utf8_step c cs)) cs)"
    using utf8_step_len[OF assms] by simp
  with i show "get0 (take (snd (utf8_step c cs)) cs @ r) i = get0 cs i"
    by (simp only: get0_append get0_take)
qed

lemma chars_concat [simp]: "concat (chars s) = s"
  by (induction s rule: chars.induct) (simp_all add: Let_def)

lemma utf8_step_append:
  assumes "fst (utf8_step c cs)" shows "utf8_step c (cs @ b) = utf8_step c cs"
  using utf8_step_prefix[OF assms, of "drop (snd (utf8_step c cs)) cs @ b"]
  by (metis append.assoc append_take_drop_id)

lemma utf8_valid_append: "utf8_valid a \<Longrightarrow> utf8_valid (a @ b) = utf8_valid b"
proof (induction a rule: utf8_valid.induct)
  case (2 c cs)
  then have "fst (utf8_step c cs)" and "utf8_valid (drop (snd (utf8_step c cs)) cs)" by auto
  with 2 show ?case by (simp add: utf8_step_append utf8_step_len)
qed simp

lemma from_utf8_lossy_valid [simp]: "utf8_valid s \<Longrightarrow> from_utf8_lossy s = s"
  by (induction s rule: from_utf8_lossy.induct) (auto simp: Let_def)

lemma utf8_valid_replacement: "utf8_valid replacement_char"
  by code_simp

lemma utf8_valid_char: "fst (utf8_step c cs) \<Longrightarrow> utf8_valid (c # take (snd (utf8_step c cs)) cs)"
  using utf8_step_prefix[of c cs "[]"] by simp

lemma from_utf8_lossy_is_valid: "utf8_valid (from_utf8_lossy s)"
proof (induction s rule: from_utf8_lossy.induct)
  case (2 c cs)
  have "utf8_valid (if fst (utf8_step c cs) then c # take (snd (utf8_step c cs)) cs
          else replacement_char)"
    using utf8_valid_char[of c cs] by (simp only: utf8_valid_replacement split: if_split) blast
  with 2 show ?case
    by (simp only: from_utf8_lossy.simps Let_def utf8_valid_append)
qed simp

lemma ascii_simps [simp]:
  "ascii []" "ascii (c # s) \<longleftrightarrow> byte c < 128 \<and> ascii s" "ascii (a @ b) \<longleftrightarrow> ascii a \<and> ascii b"
  by (auto simp: ascii_def)

lemma ascii_utf8_valid [simp]: "ascii s \<Longrightarrow> utf8_valid s"
  by (induction s) auto

lemma ascii_chars: "ascii s \<Longrightarrow> chars s = map (\<lambda>c. [c]) s"
  by (induction s) auto

lemma from_utf8_Some_iff [simp]: "from_utf8 s = Some t \<longleftrightarrow> utf8_valid s \<and> t = s"
  by (auto simp: from_utf8_def)

subsection \<open>Facts on splitting\<close>

lemma split_once_None [simp]: "c \<notin> set s \<Longrightarrow> split_once c s = None"
  by (simp add: split_once_def)

lemma split_once_sep [simp]: "c \<notin> set a \<Longrightarrow> split_once c (a @ c # b) = Some (a, b)"
proof -
  assume "c \<notin> set a"
  then have "\<And>x. x \<in> set a \<Longrightarrow> x \<noteq> c" by auto
  then show ?thesis
    by (simp add: split_once_def takeWhile_append_sep[of a "\<lambda>x. x \<noteq> c"]
        dropWhile_append_sep[of a "\<lambda>x. x \<noteq> c"])
qed

lemma split_once_SomeD: "split_once c s = Some (a, b) \<Longrightarrow> s = a @ c # b \<and> c \<notin> set a"
proof -
  assume "split_once c s = Some (a, b)"
  then have c: "c \<in> set s" and a: "a = takeWhile (\<lambda>x. x \<noteq> c) s"
    and b: "b = tl (dropWhile (\<lambda>x. x \<noteq> c) s)"
    by (auto simp: split_once_def split: if_splits)
  from c have ne: "dropWhile (\<lambda>x. x \<noteq> c) s \<noteq> []" by (auto simp: dropWhile_eq_Nil_conv)
  from hd_dropWhile[OF ne] have "hd (dropWhile (\<lambda>x. x \<noteq> c) s) = c" by simp
  with ne b have "dropWhile (\<lambda>x. x \<noteq> c) s = c # b" by (cases "dropWhile (\<lambda>x. x \<noteq> c) s") auto
  with a show ?thesis using takeWhile_dropWhile_id[of "\<lambda>x. x \<noteq> c" s] set_takeWhileD[of c "\<lambda>x. x \<noteq> c" s]
    by auto
qed

lemma rsplit_once_sep [simp]: "c \<notin> set b \<Longrightarrow> rsplit_once c (a @ c # b) = Some (a, b)"
  by (simp add: rsplit_once_def)

lemma split_on_nonempty [simp]: "split_on c s \<noteq> []"
  by (induction s) (auto split: list.split)

lemma split_on_single [simp]: "c \<notin> set s \<Longrightarrow> split_on c s = [s]"
  by (induction s) auto

lemma split_on_sep [simp]: "c \<notin> set a \<Longrightarrow> split_on c (a @ c # b) = a # split_on c b"
  by (induction a) auto

lemma split_on_parts: "w \<in> set (split_on c s) \<Longrightarrow> c \<notin> set w \<and> set w \<subseteq> set s"
  by (induction s arbitrary: w) (fastforce split: if_splits list.splits)+

lemma hd_split_on: "hd (split_on c s) = takeWhile (\<lambda>x. x \<noteq> c) s"
  by (induction s) (auto split: list.split)

lemma splitn_2:
  "splitn 2 c s = (case split_once c s of None \<Rightarrow> [s] | Some (a, b) \<Rightarrow> [a, b])"
  by (simp add: numeral_2_eq_2 split: option.split)

lemma splitn_3:
  "splitn 3 c s =
     (case split_once c s of None \<Rightarrow> [s]
      | Some (a, b) \<Rightarrow> a # (case split_once c b of None \<Rightarrow> [b] | Some (d, e) \<Rightarrow> [d, e]))"
  by (simp add: numeral_3_eq_3 split: option.split)

lemma strip_prefix_append [simp]: "strip_prefix p (p @ s) = Some s"
  by (induction p) auto

lemma strip_prefix_Some_iff: "strip_prefix p s = Some r \<longleftrightarrow> s = p @ r"
  by (induction p s rule: strip_prefix.induct) auto

lemma starts_with_iff: "starts_with s p \<longleftrightarrow> (\<exists>r. s = p @ r)"
  by (auto simp: starts_with_def strip_prefix_Some_iff)

lemma strip_suffix_Some_iff: "strip_suffix p s = Some r \<longleftrightarrow> s = r @ p"
proof
  assume "strip_suffix p s = Some r"
  then have "rev s = rev p @ rev r" by (auto simp: strip_suffix_def strip_prefix_Some_iff)
  then have "rev (rev s) = rev (rev p @ rev r)" by simp
  then show "s = r @ p" by simp
qed (simp add: strip_suffix_def)

lemma ends_with_iff: "ends_with s p \<longleftrightarrow> (\<exists>r. s = r @ p)"
  by (auto simp: ends_with_def strip_suffix_Some_iff)

lemma ascii_ws_single: "is_whitespace [c] \<longleftrightarrow> byte c \<in> {9, 10, 11, 12, 13, 32}"
proof -
  have e: "c = d \<longleftrightarrow> byte c = byte d" for d by simp
  have "byte (CHR 0x09) = 9" "byte (CHR 0x0A) = 10" "byte (CHR 0x0B) = 11"
    "byte (CHR 0x0C) = 12" "byte (CHR 0x0D) = 13" "byte (CHR 0x20) = 32"
    by (simp_all add: byte_def)
  then show ?thesis by (simp only: is_whitespace_def insert_iff empty_iff list.inject list.distinct e) simp
qed

text \<open>Tokens: non-empty ASCII words without white space, as protocol fields have to be.\<close>

definition token :: "rstr \<Rightarrow> bool" where
  "token s \<longleftrightarrow> s \<noteq> [] \<and> ascii s \<and> (\<forall>c \<in> set s. \<not> is_whitespace [c])"

lemma space_is_whitespace [simp]: "is_whitespace '' ''"
  by (simp add: is_whitespace_def)

lemma token_no_space: "token s \<Longrightarrow> CHR '' '' \<notin> set s"
  using space_is_whitespace by (auto simp: token_def)

lemma token_no_newline: "token s \<Longrightarrow> CHR 0x0A \<notin> set s"
  by (auto simp: token_def is_whitespace_def)

lemma token_ascii: "token s \<Longrightarrow> ascii s"
  by (simp add: token_def)

lemma split_whitespace_token: "token s \<Longrightarrow> split_whitespace s = [s]"
proof -
  assume t: "token s"
  then have "words_by is_whitespace (map (\<lambda>c. [c]) s) = [map (\<lambda>c. [c]) s]"
    by (intro words_by_none) (auto simp: token_def)
  with t show ?thesis by (simp add: token_def split_whitespace_def ascii_chars)
qed

lemma split_whitespace_cons:
  assumes "token s" and "ascii r"
  shows "split_whitespace (s @ CHR '' '' # r) = s # split_whitespace r"
proof -
  have "chars (s @ CHR '' '' # r) = map (\<lambda>c. [c]) s @ '' '' # map (\<lambda>c. [c]) r"
    using assms by (simp add: ascii_chars token_def byte_def)
  moreover have "words_by is_whitespace (map (\<lambda>c. [c]) s @ '' '' # map (\<lambda>c. [c]) r) =
      map (\<lambda>c. [c]) s # words_by is_whitespace (map (\<lambda>c. [c]) r)"
    using assms(1) by (intro words_by_append) (auto simp: token_def)
  ultimately show ?thesis using assms(2)
    by (simp add: split_whitespace_def ascii_chars)
qed

lemma trim_token:
  assumes "token s" shows "trim s = s"
proof -
  have "dropWhile is_whitespace (map (\<lambda>c. [c]) s) = map (\<lambda>c. [c]) s"
    using assms by (cases s) (auto simp: token_def)
  moreover have "dropWhile is_whitespace (rev (map (\<lambda>c. [c]) s)) = rev (map (\<lambda>c. [c]) s)"
    using assms by (cases s rule: rev_cases) (auto simp: token_def)
  ultimately show ?thesis using assms
    by (simp add: trim_def ascii_chars token_def)
qed

subsection \<open>Facts on decimal numbers\<close>

lemma digit_char_props:
  assumes "d < 10"
  shows "byte (digit_char d) = 48 + d" and "to_digit10 (digit_char d) = Some d"
  using assms by (simp_all add: digit_char_def to_digit10_def)

lemma show_nat_digit: "c \<in> set (show_nat n) \<Longrightarrow> \<exists>d < 10. c = digit_char d"
proof (induction n rule: show_nat.induct)
  case (1 n)
  then show ?case
    by (subst (asm) show_nat.simps) (auto split: if_splits intro: exI[of _ "n mod 10"])
qed

lemma show_nat_byte: "c \<in> set (show_nat n) \<Longrightarrow> 48 \<le> byte c \<and> byte c \<le> 57"
  using show_nat_digit digit_char_props by fastforce

lemma show_nat_nonempty [simp]: "show_nat n \<noteq> []"
  by (subst show_nat.simps) simp

lemma printable_token:
  assumes "\<And>c. c \<in> set s \<Longrightarrow> 33 \<le> byte c \<and> byte c < 127" and "s \<noteq> []"
  shows "token s"
  using assms by (fastforce simp: token_def ascii_def ascii_ws_single)

lemma token_nonempty: "token s \<Longrightarrow> s \<noteq> []"
  by (simp add: token_def)

lemma token_show_nat [simp]: "token (show_nat n)"
  using show_nat_byte[of _ n] by (fastforce simp: token_def ascii_def ascii_ws_single)

lemma digits_val_append:
  "digits_val acc (xs @ ys) = (case digits_val acc xs of None \<Rightarrow> None | Some v \<Rightarrow> digits_val v ys)"
  by (induction xs arbitrary: acc) (auto split: option.split)

lemma digits_val_show_nat [simp]: "digits_val 0 (show_nat n) = Some n"
proof (induction n rule: show_nat.induct)
  case (1 n)
  show ?case
  proof (cases "n < 10")
    case True
    then show ?thesis by (subst show_nat.simps) (simp add: digit_char_props)
  next
    case False
    with 1 show ?thesis
      by (subst show_nat.simps) (simp add: digits_val_append digit_char_props)
  qed
qed

lemma parse_digits_show_nat [simp]: "n \<le> m \<Longrightarrow> parse_digits m (show_nat n) = Some n"
  by (simp add: parse_digits_def)

lemma show_nat_Cons:
  obtains c cs where "show_nat n = c # cs" "c \<noteq> CHR ''+''" "c \<noteq> CHR ''-''"
proof (cases "show_nat n")
  case (Cons c cs)
  then have "48 \<le> byte c" using show_nat_byte[of c n] by simp
  then have "c \<noteq> CHR ''+''" "c \<noteq> CHR ''-''" by (auto simp: byte_def)
  with Cons show ?thesis by (rule that)
qed simp

lemma parse_uint_show_nat [simp]: "n \<le> m \<Longrightarrow> parse_uint m (show_nat n) = Some n"
  by (rule show_nat_Cons[of n]) (auto simp: parse_uint_def simp flip: parse_digits_show_nat)

lemma parse_uint_bound: "parse_uint m s = Some n \<Longrightarrow> n \<le> m"
  by (auto simp: parse_uint_def parse_digits_def split: list.splits if_splits option.splits)

lemma parse_i64_show_int:
  assumes "- int (Suc i64_max) \<le> i" and "i \<le> int i64_max"
  shows "parse_i64 (show_int i) = Some i"
proof (cases "i < 0")
  case True
  with assms(1) have "nat (- i) \<le> Suc i64_max" by simp
  with True show ?thesis
    by (simp add: parse_i64_def show_int_def del: One_nat_def)
next
  case False
  with assms(2) have le: "nat i \<le> i64_max" by simp
  show ?thesis
    by (rule show_nat_Cons[of "nat i"])
       (use False le parse_digits_show_nat[OF le] in \<open>simp add: parse_i64_def show_int_def\<close>)
qed

lemma show_int_ascii [simp]: "ascii (show_int i)"
  using token_show_nat by (auto simp: show_int_def token_def byte_def)

subsection \<open>Facts on hexadecimal digits\<close>

lemma to_digit16_hex_char [simp]: "d < 16 \<Longrightarrow> to_digit16 (hex_char d) = Some d"
  by (auto simp: to_digit16_def hex_char_def Let_def)

lemma hex_char_byte: "d < 16 \<Longrightarrow> (48 \<le> byte (hex_char d) \<and> byte (hex_char d) \<le> 57) \<or>
    (97 \<le> byte (hex_char d) \<and> byte (hex_char d) \<le> 102)"
  by (auto simp: hex_char_def)

lemma hex_byte_len [simp]: "length (hex_byte c) = 2"
  by (simp add: hex_byte_def)

lemma hex_nibbles [simp]: "byte c div 16 < 16" "byte c mod 16 < 16"
  using byte_less[of c] by (auto simp: less_mult_imp_div_less)

end
