(* ===== verification/Zsmtp_Types.thy ===== *)
theory Zsmtp_Types
  imports Rust_Str
begin

text \<open>
  The plain data of the ZSMTP protocol: status codes and status lines
  (\<^verbatim>\<open>talk-protocol/src/status.rs\<close>) and the delivery envelope
  (\<^verbatim>\<open>talk-protocol/src/envelope.rs\<close>). A status code keeps its sixteen bits.
\<close>

subsection \<open>Status codes\<close>

datatype StatusCode = StatusCode (value_of: "16 word")

definition OK :: StatusCode where "OK = StatusCode 250"
definition OK_QUEUED :: StatusCode where "OK_QUEUED = StatusCode 250"
definition OK_SENT :: StatusCode where "OK_SENT = StatusCode 251"
definition CONTINUE :: StatusCode where "CONTINUE = StatusCode 354"
definition TRY_LATER :: StatusCode where "TRY_LATER = StatusCode 450"
definition BUSY :: StatusCode where "BUSY = StatusCode 451"
definition SYNTAX :: StatusCode where "SYNTAX = StatusCode 500"
definition BAD_SEQUENCE :: StatusCode where "BAD_SEQUENCE = StatusCode 503"
definition PERM_REJECT :: StatusCode where "PERM_REJECT = StatusCode 550"
definition MAILBOX_UNAVAILABLE :: StatusCode where "MAILBOX_UNAVAILABLE = StatusCode 550"
definition NOT_AUTHED :: StatusCode where "NOT_AUTHED = StatusCode 530"

lemmas status_code_defs = OK_def OK_QUEUED_def OK_SENT_def CONTINUE_def TRY_LATER_def BUSY_def
  SYNTAX_def BAD_SEQUENCE_def PERM_REJECT_def MAILBOX_UNAVAILABLE_def NOT_AUTHED_def

definition is_success :: "StatusCode \<Rightarrow> bool" where
  "is_success c \<longleftrightarrow> 200 \<le> value_of c \<and> value_of c < 300"

definition is_transient :: "StatusCode \<Rightarrow> bool" where
  "is_transient c \<longleftrightarrow> 400 \<le> value_of c \<and> value_of c < 500"

definition is_permanent :: "StatusCode \<Rightarrow> bool" where
  "is_permanent c \<longleftrightarrow> 500 \<le> value_of c \<and> value_of c < 600"

definition show_code :: "StatusCode \<Rightarrow> rstr" where
  "show_code c = show_nat (unat (value_of c))"

record status =
  code :: StatusCode
  message :: rstr

definition mk_status :: "StatusCode \<Rightarrow> rstr \<Rightarrow> status" where
  "mk_status c m = \<lparr>code = c, message = m\<rparr>"

definition render :: "status \<Rightarrow> rstr" where
  "render s = show_code (code s) @ CHR '' '' # message s"

lemma mk_status_sel [simp]: "code (mk_status c m) = c" "message (mk_status c m) = m"
  by (simp_all add: mk_status_def)

lemma mk_status_eq [simp]: "mk_status c m = mk_status c' m' \<longleftrightarrow> c = c' \<and> m = m'"
  by (simp add: mk_status_def)

text \<open>The classes are disjoint: a client never sees a code as both transient and permanent.\<close>

lemma status_classes_disjoint:
  "\<not> (is_success c \<and> is_transient c)" "\<not> (is_success c \<and> is_permanent c)"
  "\<not> (is_transient c \<and> is_permanent c)"
  by (auto simp: is_success_def is_transient_def is_permanent_def word_less_nat_alt word_le_nat_alt)

lemma status_code_classes:
  "is_success OK" "is_success OK_QUEUED" "is_success OK_SENT"
  "is_transient TRY_LATER" "is_transient BUSY"
  "is_permanent SYNTAX" "is_permanent BAD_SEQUENCE" "is_permanent PERM_REJECT" "is_permanent NOT_AUTHED"
  "\<not> is_success CONTINUE"
  by (simp_all add: is_success_def is_transient_def is_permanent_def status_code_defs)

subsection \<open>Envelope\<close>

datatype payload = Sealed | Plaintext

record recipient =
  mailbox :: rstr

record envelope =
  version :: rstr
  sender_server :: rstr
  message_id :: rstr
  recipient_of :: recipient
  payload_of :: payload
  created_at :: int

definition envelope_new :: "rstr \<Rightarrow> rstr \<Rightarrow> recipient \<Rightarrow> payload \<Rightarrow> int \<Rightarrow> envelope" where
  "envelope_new sender mid rcpt p now =
     \<lparr>version = ''1.0'', sender_server = sender, message_id = mid, recipient_of = rcpt,
      payload_of = p, created_at = now\<rparr>"

definition is_duplicate_of :: "envelope \<Rightarrow> envelope \<Rightarrow> bool" where
  "is_duplicate_of a b \<longleftrightarrow> sender_server a = sender_server b \<and> message_id a = message_id b"

definition payload_str :: "payload \<Rightarrow> rstr" where
  "payload_str p = (case p of Sealed \<Rightarrow> ''sealed'' | Plaintext \<Rightarrow> ''plaintext'')"

lemma payload_str_inj [simp]: "payload_str p = payload_str q \<longleftrightarrow> p = q"
  by (cases p; cases q) (simp_all add: payload_str_def)

lemma is_duplicate_equiv: "equivp is_duplicate_of"
  by (auto simp: equivp_def is_duplicate_of_def fun_eq_iff)

end
