(* ===== verification/Framing.thy ===== *)
theory Framing
  imports Zsmtp_Types
begin

text \<open>
  Line and blob framing (\<^verbatim>\<open>talk-protocol/src/framing.rs\<close>). A reader takes the bytes
  the peer has sent and will send before it closes the stream, and returns its
  result with the bytes left; how the bytes are cut into reads does not change
  \<^verbatim>\<open>read_until\<close> and \<^verbatim>\<open>read_exact\<close>. A writer takes and returns the bytes written so far.
  The only I/O error of the model is the end of the input inside \<^verbatim>\<open>read_exact\<close>.
\<close>

datatype io_error = UnexpectedEof

datatype framing_error =
    FramingIo io_error
  | Protocol rstr
  | LineTooLong nat
  | BlobTooLarge nat

type_synonym 'a reader = "bytes \<Rightarrow> (framing_error, 'a) result \<times> bytes"
type_synonym writer = "bytes \<Rightarrow> (framing_error, unit) result \<times> bytes"

definition MAX_LINE :: nat where "MAX_LINE = 4096"
definition MAX_BLOB :: nat where "MAX_BLOB = 1048576"

definition LF :: char where "LF = CHR 0x0A"
definition CR :: char where "CR = CHR 0x0D"
definition CRLF :: bytes where "CRLF = [CR, LF]"

definition read_until :: "char \<Rightarrow> bytes \<Rightarrow> bytes \<times> bytes" where
  "read_until c s = (case split_once c s of None \<Rightarrow> (s, []) | Some (a, b) \<Rightarrow> (a @ [c], b))"

definition line_utf8 :: "bytes \<Rightarrow> (framing_error, rstr) result" where
  "line_utf8 l = ok_or (Protocol ''line not utf-8'') (from_utf8 l)"

definition read_line :: "rstr reader" where
  "read_line inp =
     (let (line, rest) = read_until LF inp in
      (if line = [] then Inl (Protocol ''connection closed'')
       else if length line > MAX_LINE then Inl (LineTooLong MAX_LINE)
       else case strip_suffix CRLF line of
              Some l \<Rightarrow> line_utf8 l
            | None \<Rightarrow>
                (case strip_suffix [LF] line of
                   Some l \<Rightarrow> line_utf8 l
                 | None \<Rightarrow> Inl (Protocol ''line not newline-terminated'')), rest))"

definition write_line :: "rstr \<Rightarrow> writer" where
  "write_line line out =
     (if length line > MAX_LINE then (Inl (LineTooLong MAX_LINE), out)
      else (Inr (), out @ line @ CRLF))"

definition read_exact :: "nat \<Rightarrow> bytes reader" where
  "read_exact n inp =
     (if n \<le> length inp then (Inr (take n inp), drop n inp) else (Inl (FramingIo UnexpectedEof), []))"

definition blob_size :: "rstr \<Rightarrow> (framing_error, nat) result" where
  "blob_size header =
     (case strip_prefix ''BLOB '' header of
        None \<Rightarrow> Inl (Protocol ''expected BLOB header'')
      | Some r \<Rightarrow> ok_or (Protocol ''malformed BLOB size'') (parse_uint usize_max (trim r)))"

definition read_blob :: "bytes reader" where
  "read_blob inp =
     (case read_line inp of
        (Inl e, rest) \<Rightarrow> (Inl e, rest)
      | (Inr header, rest) \<Rightarrow>
          (case blob_size header of
             Inl e \<Rightarrow> (Inl e, rest)
           | Inr n \<Rightarrow> if n > MAX_BLOB then (Inl (BlobTooLarge MAX_BLOB), rest) else read_exact n rest))"

definition write_blob :: "bytes \<Rightarrow> writer" where
  "write_blob data out =
     (if length data > MAX_BLOB then (Inl (BlobTooLarge MAX_BLOB), out)
      else (case write_line (''BLOB '' @ show_nat (length data)) out of
              (Inl e, out') \<Rightarrow> (Inl e, out')
            | (Inr _, out') \<Rightarrow> (Inr (), out' @ data)))"

definition write_status :: "status \<Rightarrow> writer" where
  "write_status s = write_line (render s)"

subsection \<open>Facts on reading and writing lines\<close>

definition line_ok :: "rstr \<Rightarrow> bool" where
  "line_ok l \<longleftrightarrow> utf8_valid l \<and> LF \<notin> set l"

lemma read_until_sep [simp]: "c \<notin> set a \<Longrightarrow> read_until c (a @ c # b) = (a @ [c], b)"
  by (simp add: read_until_def)

lemma read_until_concat: "read_until c s = (a, b) \<Longrightarrow> s = a @ b"
  by (auto simp: read_until_def dest: split_once_SomeD split: option.splits)

lemma read_until_empty: "read_until c s = ([], b) \<Longrightarrow> s = []"
  by (auto simp: read_until_def split: option.splits)

lemma CR_neq_LF [simp]: "CR \<noteq> LF" "LF \<noteq> CR"
  by (simp_all add: CR_def LF_def)

lemma strip_suffix_append [simp]: "strip_suffix p (s @ p) = Some s"
  by (simp add: strip_suffix_Some_iff)

lemma read_line_frame:
  assumes "line_ok l"
  shows "read_line (l @ CRLF @ rest) =
    (if length l + 2 \<le> MAX_LINE then (Inr l, rest) else (Inl (LineTooLong MAX_LINE), rest))"
proof -
  have "read_until LF ((l @ [CR]) @ LF # rest) = ((l @ [CR]) @ [LF], rest)"
    using assms by (intro read_until_sep) (simp add: line_ok_def)
  then have r: "read_until LF (l @ CRLF @ rest) = (l @ CRLF, rest)"
    by (simp add: CRLF_def)
  have "length (l @ CRLF) = length l + 2" by (simp add: CRLF_def)
  with r assms show ?thesis
    by (auto simp: read_line_def line_utf8_def line_ok_def CRLF_def[symmetric])
qed

lemma read_line_okD:
  assumes "read_line inp = (Inr l, rest)"
  shows "line_ok l \<and> length l < MAX_LINE \<and> length rest < length inp"
proof -
  obtain line where ru: "read_until LF inp = (line, rest)"
    using assms by (auto simp: read_line_def split: prod.splits)
  have noLF: "line = a @ [LF] \<Longrightarrow> LF \<notin> set a" for a
    using ru by (auto simp: read_until_def dest: split_once_SomeD split: option.splits)
       (auto simp: split_once_def split: if_splits)
  have len: "length inp = length line + length rest"
    using read_until_concat[OF ru] by simp
  from assms ru have ne: "line \<noteq> []" "length line \<le> MAX_LINE"
    and "line_utf8 l = Inr l" and "line = l @ CRLF \<or> line = l @ [LF]"
    by (auto simp: read_line_def line_utf8_def strip_suffix_Some_iff split: if_splits option.splits)
  moreover from this noLF have "LF \<notin> set l" by (auto simp: CRLF_def)
  ultimately show ?thesis using len by (auto simp: line_ok_def line_utf8_def CRLF_def)
qed

lemma read_line_rest: "read_line inp = (r, rest) \<Longrightarrow> length rest \<le> length inp \<and> (inp \<noteq> [] \<longrightarrow> length rest < length inp)"
proof -
  assume "read_line inp = (r, rest)"
  then obtain line where ru: "read_until LF inp = (line, rest)"
    by (auto simp: read_line_def split: prod.splits)
  have "inp = line @ rest" using ru by (rule read_until_concat)
  moreover have "inp \<noteq> [] \<Longrightarrow> line \<noteq> []" using read_until_empty[of LF inp rest] ru by auto
  ultimately show ?thesis by auto
qed

lemma read_line_Nil [simp]: "read_line [] = (Inl (Protocol ''connection closed''), [])"
  by (simp add: read_line_def read_until_def)

subsection \<open>Facts on blobs\<close>

lemma blob_size_show_nat:
  "n \<le> usize_max \<Longrightarrow> blob_size (''BLOB '' @ show_nat n) = Inr n"
  by (simp add: blob_size_def trim_token del: append_Cons)

lemma show_nat_length: "n < 10 ^ k \<Longrightarrow> 0 < k \<Longrightarrow> length (show_nat n) \<le> k"
proof (induction n arbitrary: k rule: show_nat.induct)
  case (1 n)
  show ?case
  proof (cases "n < 10")
    case True
    then show ?thesis using 1 by (subst show_nat.simps) simp
  next
    case False
    then have "k \<noteq> 1" using 1(2) by (intro notI) simp
    with 1(3) obtain j where k: "k = Suc j" "0 < j" by (cases k) auto
    with 1(2) have "n div 10 < 10 ^ j" by (simp add: less_mult_imp_div_less mult.commute)
    from 1(1)[OF False this k(2)] False k show ?thesis by (subst show_nat.simps) simp
  qed
qed

lemma blob_header_ok: "line_ok (''BLOB '' @ show_nat n)"
proof -
  have "ascii (''BLOB '' @ show_nat n)"
    using token_ascii[OF token_show_nat[of n]] by (simp add: byte_def)
  moreover have "LF \<notin> set (''BLOB '' @ show_nat n)"
    using token_no_newline[OF token_show_nat[of n]] by (simp add: LF_def)
  ultimately show ?thesis by (simp add: line_ok_def del: append_Cons)
qed

lemma blob_header_len: "length d \<le> MAX_BLOB \<Longrightarrow> length (''BLOB '' @ show_nat (length d)) \<le> 12"
  using show_nat_length[of "length d" 7] by (simp add: MAX_BLOB_def)

lemma write_blob_ok:
  assumes "length d \<le> MAX_BLOB"
  shows "write_blob d out = (Inr (), out @ (''BLOB '' @ show_nat (length d)) @ CRLF @ d)"
  using blob_header_len[OF assms] assms
  by (simp add: write_blob_def write_line_def MAX_LINE_def)

lemma read_blob_frame:
  assumes "length d \<le> MAX_BLOB"
  shows "read_blob ((''BLOB '' @ show_nat (length d)) @ CRLF @ d @ rest) = (Inr d, rest)"
proof -
  have "read_line ((''BLOB '' @ show_nat (length d)) @ CRLF @ d @ rest) =
      (Inr (''BLOB '' @ show_nat (length d)), d @ rest)"
    using blob_header_len[OF assms] blob_header_ok[of "length d"]
    by (subst read_line_frame) (simp_all add: MAX_LINE_def del: append_Cons append_assoc)
  moreover have "blob_size (''BLOB '' @ show_nat (length d)) = Inr (length d)"
    using assms by (intro blob_size_show_nat) (simp add: MAX_BLOB_def)
  ultimately show ?thesis using assms
    by (simp add: read_blob_def read_exact_def)
qed

lemma read_blob_okD: "read_blob inp = (Inr d, rest) \<Longrightarrow> length d \<le> MAX_BLOB"
  by (auto simp: read_blob_def read_exact_def split: prod.splits sum.splits if_splits)

lemma read_blob_rest: "read_blob inp = (r, rest) \<Longrightarrow> length rest \<le> length inp"
proof -
  assume a: "read_blob inp = (r, rest)"
  obtain l rest1 where l: "read_line inp = (l, rest1)" by fastforce
  have "length rest1 \<le> length inp" using read_line_rest[OF l] by simp
  with a l show ?thesis
    by (auto simp: read_blob_def read_exact_def split: sum.splits if_splits)
qed

lemma write_line_cases:
  "write_line l out = (r, out') \<Longrightarrow>
     (r = Inr () \<and> out' = out @ l @ CRLF) \<or> (r = Inl (LineTooLong MAX_LINE) \<and> out' = out)"
  by (auto simp: write_line_def split: if_splits)

subsection \<open>Framing as an interface\<close>

text \<open>
  What both ends of a connection rely on: a frame that fits is read back exactly,
  whatever follows it. Streams of frames are then unambiguous.
\<close>

fun read_frames :: "'a reader \<Rightarrow> nat \<Rightarrow> 'a list reader" where
  "read_frames rd 0 inp = (Inr [], inp)"
| "read_frames rd (Suc n) inp =
     (case rd inp of
        (Inl e, rest) \<Rightarrow> (Inl e, rest)
      | (Inr x, rest) \<Rightarrow>
          (case read_frames rd n rest of
             (Inl e, rest') \<Rightarrow> (Inl e, rest')
           | (Inr xs, rest') \<Rightarrow> (Inr (x # xs), rest')))"

locale frame_codec =
  fixes wr :: "'a \<Rightarrow> bytes"
    and rd :: "'a reader"
    and fits :: "'a \<Rightarrow> bool"
  assumes rd_wr: "fits x \<Longrightarrow> rd (wr x @ rest) = (Inr x, rest)"
begin

lemma wr_prefix_free:
  assumes "fits x" "fits y" "wr x @ a = wr y @ b"
  shows "x = y \<and> a = b"
proof -
  have "rd (wr y @ b) = (Inr x, a)" using rd_wr[OF assms(1), of a] by (simp only: assms(3))
  with rd_wr[OF assms(2), of b] show ?thesis by simp
qed

lemma read_frames_all:
  "list_all fits xs \<Longrightarrow> read_frames rd (length xs) (concat (map wr xs) @ rest) = (Inr xs, rest)"
  by (induction xs) (simp_all add: rd_wr)

end

definition line_bytes :: "rstr \<Rightarrow> bytes" where
  "line_bytes l = snd (write_line l [])"

definition line_fits :: "rstr \<Rightarrow> bool" where
  "line_fits l \<longleftrightarrow> line_ok l \<and> length l + 2 \<le> MAX_LINE"

definition blob_bytes :: "bytes \<Rightarrow> bytes" where
  "blob_bytes d = snd (write_blob d [])"

definition blob_fits :: "bytes \<Rightarrow> bool" where
  "blob_fits d \<longleftrightarrow> length d \<le> MAX_BLOB"

lemma line_bytes_eq: "length l \<le> MAX_LINE \<Longrightarrow> line_bytes l = l @ CRLF"
  by (simp add: line_bytes_def write_line_def)

lemma blob_bytes_eq:
  "length d \<le> MAX_BLOB \<Longrightarrow> blob_bytes d = (''BLOB '' @ show_nat (length d)) @ CRLF @ d"
  by (simp add: blob_bytes_def write_blob_ok)

interpretation line_frame: frame_codec line_bytes read_line line_fits
proof unfold_locales
  fix l rest assume "line_fits l"
  then show "read_line (line_bytes l @ rest) = (Inr l, rest)"
    using read_line_frame[of l rest] by (simp add: line_fits_def line_bytes_eq)
qed

interpretation blob_frame: frame_codec blob_bytes read_blob blob_fits
proof unfold_locales
  fix d rest assume "blob_fits d"
  then show "read_blob (blob_bytes d @ rest) = (Inr d, rest)"
    using read_blob_frame[of d rest] by (simp add: blob_fits_def blob_bytes_eq)
qed

subsection \<open>Properties\<close>

text \<open>
  A stream of lines written one after the other is read back line by line, exactly and in
  order, with whatever follows the stream left unread.
\<close>

theorem line_stream_roundtrip:
  assumes "list_all line_fits ls"
  shows "read_frames read_line (length ls) (concat (map line_bytes ls) @ rest) = (Inr ls, rest)"
  using assms by (rule line_frame.read_frames_all)

theorem line_stream_roundtrip_witness:
  "read_frames read_line 2 (concat (map line_bytes [''QUIT'', []]) @ ''xyz'') = (Inr [''QUIT'', []], ''xyz'')"
proof -
  have "list_all line_fits [''QUIT'', []]"
    by (simp add: line_fits_def line_ok_def MAX_LINE_def LF_def)
  from line_stream_roundtrip[OF this, of "''xyz''"] show ?thesis by (simp add: numeral_2_eq_2)
qed

text \<open>
  Blobs of any content up to the limit survive the framing: the reader takes exactly the
  announced number of bytes, so blob bytes are never read as lines.
\<close>

theorem blob_stream_roundtrip:
  assumes "list_all (\<lambda>d. length d \<le> MAX_BLOB) ds"
  shows "read_frames read_blob (length ds) (concat (map blob_bytes ds) @ rest) = (Inr ds, rest)"
  using assms blob_frame.read_frames_all[of ds rest] by (simp add: blob_fits_def[abs_def])

theorem blob_stream_roundtrip_witness:
  "read_frames read_blob 2 (concat (map blob_bytes [[LF, CR], ''BLOB 9'']) @ ''xyz'') =
     (Inr [[LF, CR], ''BLOB 9''], ''xyz'')"
proof -
  have "list_all (\<lambda>d. length d \<le> MAX_BLOB) [[LF, CR], ''BLOB 9'']" by (simp add: MAX_BLOB_def)
  from blob_stream_roundtrip[OF this, of "''xyz''"] show ?thesis by (simp add: numeral_2_eq_2)
qed

text \<open>
  The two size checks differ by the line terminator: \<open>write_line\<close> accepts a line of up to
  \<open>MAX_LINE\<close> bytes, but \<open>read_line\<close> counts the CRLF, so exactly the lines of at most
  \<open>MAX_LINE - 2\<close> bytes can be both written and read, and one of \<open>MAX_LINE - 1\<close> or \<open>MAX_LINE\<close> bytes
  is written without an error and refused by every reader.
\<close>

theorem line_limits:
  assumes "line_ok l"
  shows "if MAX_LINE < length l then write_line l out = (Inl (LineTooLong MAX_LINE), out)
    else write_line l out = (Inr (), out @ line_bytes l) \<and>
      read_line (line_bytes l @ rest) =
        (if length l \<le> MAX_LINE - 2 then Inr l else Inl (LineTooLong MAX_LINE), rest)"
  using read_line_frame[OF assms, of rest]
  by (auto simp: write_line_def line_bytes_eq MAX_LINE_def)

theorem line_limits_witness:
  "write_line (replicate 4095 CHR ''a'') [] = (Inr (), line_bytes (replicate 4095 CHR ''a'')) \<and>
   read_line (line_bytes (replicate 4095 CHR ''a'')) = (Inl (LineTooLong MAX_LINE), [])"
proof -
  have "line_ok (replicate 4095 CHR ''a'')"
    by (simp add: line_ok_def LF_def ascii_def)
  from line_limits[OF this, of "[]" "[]"] show ?thesis by (simp add: MAX_LINE_def)
qed

end
