(* ===== verification/Externals.thy ===== *)
theory Externals
  imports Rust_Str
begin

text \<open>
  The third-party code the program calls, as one record of functions that every
  definition that needs it takes as an argument: base64 (crate \<^verbatim>\<open>base64\<close>, engine
  STANDARD), hexadecimal (crate \<^verbatim>\<open>hex\<close>), SHA-256 (crate \<^verbatim>\<open>sha2\<close>) and Ed25519 (crate
  \<^verbatim>\<open>ed25519-dalek\<close>). Keys, digests and signatures are byte lists. The predicates
  below name the documented behaviour a theorem relies on; \<open>demo_ext\<close> shows that
  all of them can hold together.
\<close>

record ext =
  b64_encode :: "bytes \<Rightarrow> rstr"
  b64_decode :: "rstr \<Rightarrow> bytes option"
  hex_encode :: "bytes \<Rightarrow> rstr"
  hex_decode :: "rstr \<Rightarrow> bytes option"
  sha256 :: "bytes \<Rightarrow> bytes"
  ed_public :: "bytes \<Rightarrow> bytes"
  ed_sign :: "bytes \<Rightarrow> bytes \<Rightarrow> bytes"
  ed_verify :: "bytes \<Rightarrow> bytes \<Rightarrow> bytes \<Rightarrow> bool"

text \<open>Base64 decodes what it encodes and its alphabet is printable ASCII without white space.\<close>

definition b64_ok :: "ext \<Rightarrow> bool" where
  "b64_ok E \<longleftrightarrow>
     (\<forall>x. b64_decode E (b64_encode E x) = Some x) \<and>
     (\<forall>x. \<forall>c \<in> set (b64_encode E x). 33 \<le> byte c \<and> byte c < 127)"

text \<open>The hex crate writes two lower-case digits per byte, decodes what it encodes, and
  accepts only strings of an even number of hexadecimal digits.\<close>

definition hex_ok :: "ext \<Rightarrow> bool" where
  "hex_ok E \<longleftrightarrow>
     (\<forall>x. hex_encode E x = concat (map hex_byte x)) \<and>
     (\<forall>x. hex_decode E (concat (map hex_byte x)) = Some x) \<and>
     (\<forall>s x. hex_decode E s = Some x \<longrightarrow> length s = 2 * length x)"

text \<open>Ed25519 signatures are 64 bytes and verify under the public half of the signing key.\<close>

definition ed_ok :: "ext \<Rightarrow> bool" where
  "ed_ok E \<longleftrightarrow>
     (\<forall>k m. length (ed_sign E k m) = 64 \<and> ed_verify E (ed_public E k) m (ed_sign E k m))"

text \<open>A concrete instance. Its codec is plain hexadecimal; its signature is the padded message.\<close>

fun unhex_pairs :: "rstr \<Rightarrow> bytes option" where
  "unhex_pairs [] = Some []"
| "unhex_pairs [c] = None"
| "unhex_pairs (a # b # s) =
     (case (to_digit16 a, to_digit16 b, unhex_pairs s) of
        (Some h, Some l, Some r) \<Rightarrow> Some (char_of (16 * h + l) # r)
      | _ \<Rightarrow> None)"

definition demo_pad :: "bytes \<Rightarrow> bytes" where
  "demo_pad m = take 64 (m @ replicate 64 (CHR 0x00))"

definition demo_ext :: ext where
  "demo_ext =
     \<lparr>b64_encode = (\<lambda>x. concat (map hex_byte x)), b64_decode = unhex_pairs,
      hex_encode = (\<lambda>x. concat (map hex_byte x)), hex_decode = unhex_pairs,
      sha256 = id, ed_public = id, ed_sign = (\<lambda>k m. demo_pad m),
      ed_verify = (\<lambda>p m s. s = demo_pad m)\<rparr>"

lemma unhex_pairs_hex_byte: "unhex_pairs (concat (map hex_byte x)) = Some x"
proof (induction x)
  case (Cons c x)
  then show ?case by (simp add: hex_byte_def mult.commute[of 16])
qed simp

lemma unhex_pairs_length: "unhex_pairs s = Some x \<Longrightarrow> length s = 2 * length x"
  by (induction s arbitrary: x rule: unhex_pairs.induct) (auto split: option.splits)

lemma hex_byte_range: "c \<in> set (concat (map hex_byte x)) \<Longrightarrow> 33 \<le> byte c \<and> byte c < 127"
proof -
  assume "c \<in> set (concat (map hex_byte x))"
  then obtain d where "d \<in> set x" "c \<in> {hex_char (byte d div 16), hex_char (byte d mod 16)}"
    by (auto simp: hex_byte_def)
  then show ?thesis
    using hex_char_byte[of "byte d div 16"] hex_char_byte[of "byte d mod 16"] by auto
qed

lemma demo_b64_ok: "b64_ok demo_ext"
  unfolding b64_ok_def demo_ext_def using unhex_pairs_hex_byte hex_byte_range by simp

lemma demo_hex_ok: "hex_ok demo_ext"
  unfolding hex_ok_def demo_ext_def using unhex_pairs_hex_byte unhex_pairs_length by simp

lemma demo_ed_ok: "ed_ok demo_ext"
  by (simp add: ed_ok_def demo_ext_def demo_pad_def min_def)

lemma b64_ok_decode: "b64_ok E \<Longrightarrow> b64_decode E (b64_encode E x) = Some x"
  by (simp add: b64_ok_def)

lemma b64_ok_printable: "b64_ok E \<Longrightarrow> c \<in> set (b64_encode E x) \<Longrightarrow> 33 \<le> byte c \<and> byte c < 127"
  by (simp add: b64_ok_def)

lemma b64_ok_no_space: "b64_ok E \<Longrightarrow> CHR '' '' \<notin> set (b64_encode E x)"
  using b64_ok_printable[of E "CHR '' ''" x] by (auto simp: byte_def)

lemma b64_ok_ascii: "b64_ok E \<Longrightarrow> ascii (b64_encode E x)"
  using b64_ok_printable[of E _ x] by (fastforce simp: ascii_def)

lemma hex_ok_encode: "hex_ok E \<Longrightarrow> hex_encode E x = concat (map hex_byte x)"
  by (simp add: hex_ok_def)

lemma hex_ok_decode: "hex_ok E \<Longrightarrow> hex_decode E (concat (map hex_byte x)) = Some x"
  by (simp add: hex_ok_def)

end
