(* ===== verification/Codec.thy ===== *)
theory Codec
  imports Zsmtp_Types Externals
begin

text \<open>
  The command vocabulary of ZSMTP and its line encoding
  (\<^verbatim>\<open>talk-protocol/src/codec.rs\<close>).
\<close>

datatype addr_mode = AddrEphemeral | AddrAttested

datatype command =
    Hello (hello_domain: rstr)
  | Auth (auth_challenge: bytes)
  | Addr (addr_mode_of: addr_mode) (addr_user_of: rstr)
  | Invoice (inv_sender: rstr) (inv_message_id: rstr) (inv_payload: payload) (inv_body: bytes)
  | StatusCmd (status_code_of: "16 word") (status_message_of: rstr)
  | Quit

datatype codec_error = Unknown rstr | Malformed rstr

definition mode_str :: "addr_mode \<Rightarrow> rstr" where
  "mode_str m = (case m of AddrEphemeral \<Rightarrow> ''ephemeral'' | AddrAttested \<Rightarrow> ''attested'')"

definition encode_line :: "ext \<Rightarrow> command \<Rightarrow> (codec_error, rstr) result" where
  "encode_line E cmd =
     (case cmd of
        Hello domain \<Rightarrow> Inr (''HELLO '' @ domain)
      | Auth challenge \<Rightarrow> Inr (''AUTH '' @ b64_encode E challenge)
      | Addr mode user \<Rightarrow> Inr (''ADDR '' @ mode_str mode @ '' '' @ user)
      | Invoice sender mid p _ \<Rightarrow> Inr (''INVOICE '' @ sender @ '' '' @ mid @ '' '' @ payload_str p)
      | StatusCmd c m \<Rightarrow> Inr (''STATUS '' @ show_nat (unat c) @ '' '' @ m)
      | Quit \<Rightarrow> Inr ''QUIT'')"

definition decode_mode :: "rstr \<Rightarrow> addr_mode option" where
  "decode_mode s =
     (let m = to_ascii_lowercase s in
      if m = ''ephemeral'' then Some AddrEphemeral
      else if m = ''attested'' then Some AddrAttested else None)"

definition decode_payload :: "rstr \<Rightarrow> payload option" where
  "decode_payload s =
     (let p = to_ascii_lowercase s in
      if p = ''sealed'' then Some Sealed
      else if p = ''plaintext'' then Some Plaintext else None)"

definition decode_invoice :: "rstr \<Rightarrow> (codec_error, command) result" where
  "decode_invoice line =
     (case split_whitespace line of
        [_, sender, mid, p] \<Rightarrow>
          (case decode_payload p of
             Some pl \<Rightarrow> Inr (Invoice sender mid pl [])
           | None \<Rightarrow> Inl (Malformed line))
      | _ \<Rightarrow> Inl (Malformed line))"

definition decode_status :: "rstr list \<Rightarrow> rstr \<Rightarrow> (codec_error, command) result" where
  "decode_status parts line =
     (case nth_opt parts 1 of
        None \<Rightarrow> Inl (Malformed line)
      | Some c \<Rightarrow>
          (case parse_uint u16_max c of
             None \<Rightarrow> Inl (Malformed line)
           | Some n \<Rightarrow>
               Inr (StatusCmd (of_nat n) (case nth_opt parts 2 of None \<Rightarrow> [] | Some m \<Rightarrow> m))))"

definition decode_line :: "ext \<Rightarrow> rstr \<Rightarrow> (codec_error, command) result" where
  "decode_line E line =
     (let parts = splitn 3 (CHR '' '') line;
          verb = to_ascii_uppercase (case nth_opt parts 0 of None \<Rightarrow> [] | Some v \<Rightarrow> v)
      in
      if verb = ''HELLO'' then
        bind_r (ok_or (Malformed line) (nth_opt parts 1)) (\<lambda>d. Inr (Hello d))
      else if verb = ''AUTH'' then
        bind_r (ok_or (Malformed line) (nth_opt parts 1)) (\<lambda>b.
        bind_r (ok_or (Malformed line) (b64_decode E b)) (\<lambda>c. Inr (Auth c)))
      else if verb = ''ADDR'' then
        bind_r (ok_or (Malformed line) (nth_opt parts 1)) (\<lambda>m.
        bind_r (ok_or (Malformed line) (nth_opt parts 2)) (\<lambda>u.
        bind_r (ok_or (Malformed line) (decode_mode m)) (\<lambda>mode. Inr (Addr mode u))))
      else if verb = ''INVOICE'' then decode_invoice line
      else if verb = ''STATUS'' then decode_status parts line
      else if verb = ''QUIT'' then Inr Quit
      else Inl (Unknown line))"

definition status_command :: "status \<Rightarrow> command" where
  "status_command s = StatusCmd (value_of (code s)) (message s)"

definition ok_status :: "rstr \<Rightarrow> status" where
  "ok_status m = mk_status OK m"

text \<open>
  The commands whose line carries all of their content: a field that is followed
  by another one holds no separator, and the blob of an INVOICE is not part of the line.
\<close>

fun encodable :: "command \<Rightarrow> bool" where
  "encodable (Hello d) = (CHR '' '' \<notin> set d)"
| "encodable (Invoice s m p b) = (token s \<and> token m \<and> b = [])"
| "encodable _ = True"

lemma payload_token: "token (payload_str p)"
proof -
  have "payload_str p \<noteq> []" by (cases p) (simp_all add: payload_str_def)
  moreover have "\<forall>c \<in> set (payload_str p). 33 \<le> byte c \<and> byte c < 127"
    by (cases p) (simp_all add: payload_str_def byte_def)
  ultimately show ?thesis by (intro printable_token) auto
qed

lemma decode_payload_str [simp]: "decode_payload (payload_str p) = Some p"
proof (cases p)
  case Sealed
  show ?thesis unfolding Sealed by code_simp
next
  case Plaintext
  show ?thesis unfolding Plaintext by code_simp
qed

lemma decode_mode_str [simp]: "decode_mode (mode_str m) = Some m"
proof (cases m)
  case AddrEphemeral
  show ?thesis unfolding AddrEphemeral by code_simp
next
  case AddrAttested
  show ?thesis unfolding AddrAttested by code_simp
qed

lemma mode_str_no_space [simp]: "CHR '' '' \<notin> set (mode_str m)"
  by (cases m) (simp_all add: mode_str_def)

lemma split_once_lit:
  "CHR '' '' \<notin> set v \<Longrightarrow> split_once (CHR '' '') (v @ '' '' @ r) = Some (v, r)"
  by simp

text \<open>The verb of a line and its first two arguments, as \<^verbatim>\<open>splitn(3, ' ')\<close> gives them.\<close>

lemma splitn_verb1:
  "CHR '' '' \<notin> set v \<Longrightarrow> CHR '' '' \<notin> set a \<Longrightarrow> splitn 3 (CHR '' '') (v @ '' '' @ a) = [v, a]"
  by (simp add: splitn_3)

lemma splitn_verb2:
  "CHR '' '' \<notin> set v \<Longrightarrow> CHR '' '' \<notin> set a \<Longrightarrow>
     splitn 3 (CHR '' '') (v @ '' '' @ a @ '' '' @ b) = [v, a, b]"
  by (simp add: splitn_3)

lemma upper_verbs [simp]:
  "to_ascii_uppercase ''HELLO'' = ''HELLO''" "to_ascii_uppercase ''AUTH'' = ''AUTH''"
  "to_ascii_uppercase ''ADDR'' = ''ADDR''" "to_ascii_uppercase ''INVOICE'' = ''INVOICE''"
  "to_ascii_uppercase ''STATUS'' = ''STATUS''" "to_ascii_uppercase ''QUIT'' = ''QUIT''"
  by code_simp+

lemma decode_hello: "CHR '' '' \<notin> set d \<Longrightarrow> decode_line E (''HELLO '' @ d) = Inr (Hello d)"
  using splitn_verb1[of "''HELLO''" d] by (simp add: decode_line_def)

lemma decode_auth:
  assumes "b64_ok E" shows "decode_line E (''AUTH '' @ b64_encode E c) = Inr (Auth c)"
  using splitn_verb1[of "''AUTH''" "b64_encode E c"] b64_ok_no_space[OF assms] b64_ok_decode[OF assms]
  by (simp add: decode_line_def)

lemma decode_addr: "decode_line E (''ADDR '' @ mode_str m @ '' '' @ u) = Inr (Addr m u)"
  using splitn_verb2[of "''ADDR''" "mode_str m" u] by (simp add: decode_line_def)

lemma decode_status_line:
  "decode_line E (''STATUS '' @ show_nat (unat c) @ '' '' @ m) = Inr (StatusCmd c m)"
  using splitn_verb2[of "''STATUS''" "show_nat (unat c)" m] token_no_space[OF token_show_nat[of "unat c"]]
    unsigned_less[of c, where ?'a = nat]
  by (simp add: decode_line_def decode_status_def)

lemma INVOICE_token: "token ''INVOICE''"
  by (rule printable_token) (auto simp: byte_def)

lemma split_invoice:
  assumes "token s" "token m"
  shows "split_whitespace (''INVOICE '' @ s @ '' '' @ m @ '' '' @ payload_str p) =
    [''INVOICE'', s, m, payload_str p]"
proof -
  have sp: "ascii ('' '' @ r) \<longleftrightarrow> ascii r" for r by (simp add: byte_def)
  have a: "ascii s" "ascii m" "ascii (payload_str p)" using assms payload_token by (auto dest: token_ascii)
  have "split_whitespace (''INVOICE'' @ '' '' @ (s @ '' '' @ m @ '' '' @ payload_str p)) =
      ''INVOICE'' # split_whitespace (s @ '' '' @ m @ '' '' @ payload_str p)"
    using split_whitespace_cons[OF INVOICE_token, of "s @ '' '' @ m @ '' '' @ payload_str p"] a sp
    by simp
  also have "split_whitespace (s @ '' '' @ m @ '' '' @ payload_str p) =
      s # split_whitespace (m @ '' '' @ payload_str p)"
    using split_whitespace_cons[OF assms(1), of "m @ '' '' @ payload_str p"] a sp by simp
  also have "split_whitespace (m @ '' '' @ payload_str p) = [m, payload_str p]"
    using split_whitespace_cons[OF assms(2), of "payload_str p"] a split_whitespace_token[OF payload_token]
    by simp
  finally show ?thesis by simp
qed

lemma decode_invoice_line:
  assumes "token s" "token m"
  shows "decode_line E (''INVOICE '' @ s @ '' '' @ m @ '' '' @ payload_str p) = Inr (Invoice s m p [])"
proof -
  have "splitn 3 (CHR '' '') (''INVOICE'' @ '' '' @ s @ '' '' @ (m @ '' '' @ payload_str p)) =
      [''INVOICE'', s, m @ '' '' @ payload_str p]"
    using token_no_space[OF assms(1)] by (intro splitn_verb2) simp_all
  then show ?thesis
    using split_invoice[OF assms, of p] by (simp add: decode_line_def decode_invoice_def)
qed

lemma decode_quit: "decode_line E ''QUIT'' = Inr Quit"
proof -
  have "splitn 3 (CHR '' '') ''QUIT'' = [''QUIT'']" by (simp add: splitn_3)
  then show ?thesis by (simp add: decode_line_def)
qed

subsection \<open>Properties\<close>

text \<open>
  C29. Every command whose line carries its content is decoded from its encoding to itself: no two
  commands share a line, and the parser accepts all the printer writes. The blob of an INVOICE
  travels as a separate frame and is not part of the line.
\<close>

theorem decode_encode_line:
  assumes "b64_ok E" and "encodable cmd"
  shows "\<exists>l. encode_line E cmd = Inr l \<and> decode_line E l = Inr cmd"
  using assms by (cases cmd)
    (simp_all add: encode_line_def decode_hello decode_auth decode_addr decode_invoice_line
      decode_status_line decode_quit del: append_Cons append_assoc)

theorem decode_encode_line_witness:
  "\<exists>l. encode_line demo_ext (Invoice ''alice'' ''m-1'' Sealed []) = Inr l \<and>
       decode_line demo_ext l = Inr (Invoice ''alice'' ''m-1'' Sealed [])"
proof -
  have "token ''alice''" "token ''m-1''" by (auto intro!: printable_token simp: byte_def)
  then have "encodable (Invoice ''alice'' ''m-1'' Sealed [])" by simp
  from decode_encode_line[OF demo_b64_ok this] show ?thesis .
qed

end
