(* ===== verification/Handshake.thy ===== *)
theory Handshake
  imports Externals
begin

unbundle bit_operations_syntax

text \<open>
  Server authentication by domain keys (\<^verbatim>\<open>talk-protocol/src/handshake.rs\<close>). The
  clock and the random nonce are arguments of the operations that read them. An
  \<^verbatim>\<open>i64\<close> is an \<^typ>\<open>int\<close>; the one subtraction that can leave its range, in \<open>verify\<close>,
  wraps as in a release build.
\<close>

datatype handshake_error = BadSignature | Stale int | Replay | DomainMismatch | InvalidKey

definition MAX_CHALLENGE_AGE :: int where "MAX_CHALLENGE_AGE = 300"

record challenge =
  sender_domain :: rstr
  receiver_domain :: rstr
  nonce :: bytes
  issued_at :: int

definition challenge_issue :: "rstr \<Rightarrow> rstr \<Rightarrow> bytes \<Rightarrow> int \<Rightarrow> challenge" where
  "challenge_issue sd rd rnd now =
     \<lparr>sender_domain = sd, receiver_domain = rd, nonce = rnd, issued_at = now\<rparr>"

definition hex :: "bytes \<Rightarrow> rstr" where
  "hex data = concat (map hex_byte data)"

fun unhex_chunks :: "rstr \<Rightarrow> bytes option" where
  "unhex_chunks [] = Some []"
| "unhex_chunks [c] = None"
| "unhex_chunks (a # b # s) =
     (case to_digit16 a of None \<Rightarrow> None | Some hi \<Rightarrow>
     (case to_digit16 b of None \<Rightarrow> None | Some lo \<Rightarrow>
     (case unhex_chunks s of None \<Rightarrow> None | Some r \<Rightarrow>
        Some (char_of (push_bit 4 hi OR lo) # r))))"

definition unhex :: "rstr \<Rightarrow> bytes option" where
  "unhex s = (if length s \<noteq> 32 then None else unhex_chunks s)"

text \<open>\<^verbatim>\<open>i64::to_be_bytes\<close>: eight bytes of two's complement, most significant first.\<close>

definition be64 :: "int \<Rightarrow> bytes" where
  "be64 i = map (\<lambda>k. char_of (nat (i div 256 ^ k mod 256))) [7, 6, 5, 4, 3, 2, 1, 0]"

definition NUL :: char where "NUL = CHR 0x00"
definition BAR :: char where "BAR = CHR ''|''"

definition digest_input :: "challenge \<Rightarrow> bytes" where
  "digest_input c =
     ''zsmtp-v1'' @ sender_domain c @ [NUL] @ receiver_domain c @ [NUL] @ nonce c @ be64 (issued_at c)"

definition digest :: "ext \<Rightarrow> challenge \<Rightarrow> bytes" where
  "digest E c = sha256 E (digest_input c)"

definition to_wire :: "challenge \<Rightarrow> rstr" where
  "to_wire c =
     sender_domain c @ ''|'' @ receiver_domain c @ ''|'' @ hex (nonce c) @ ''|'' @ show_int (issued_at c)"

definition from_wire :: "rstr \<Rightarrow> challenge option" where
  "from_wire s =
     (let parts = split_on BAR s in
      case nth_opt parts 0 of None \<Rightarrow> None | Some sd \<Rightarrow>
     (case nth_opt parts 1 of None \<Rightarrow> None | Some rd \<Rightarrow>
     (case nth_opt parts 2 of None \<Rightarrow> None | Some nonce_hex \<Rightarrow>
     (case Option.bind (nth_opt parts 3) parse_i64 of None \<Rightarrow> None | Some at \<Rightarrow>
      if length nonce_hex \<noteq> 32 \<or> nth_opt parts 4 \<noteq> None then None
      else (case unhex nonce_hex of None \<Rightarrow> None | Some n \<Rightarrow>
        Some \<lparr>sender_domain = sd, receiver_domain = rd, nonce = n, issued_at = at\<rparr>)))))"

record challenge_response =
  resp_challenge :: challenge
  resp_signature :: bytes

definition respond :: "ext \<Rightarrow> challenge \<Rightarrow> bytes \<Rightarrow> challenge_response" where
  "respond E c sk = \<lparr>resp_challenge = c, resp_signature = ed_sign E sk (digest E c)\<rparr>"

text \<open>A domain key pair bound to a domain; \<open>seed\<close> is what the random generator returned.\<close>

record domain_key =
  dk_domain :: rstr
  dk_signing :: bytes

definition domain_key_generate :: "rstr \<Rightarrow> bytes \<Rightarrow> domain_key" where
  "domain_key_generate domain seed = \<lparr>dk_domain = domain, dk_signing = seed\<rparr>"

definition domain_key_verifying :: "ext \<Rightarrow> domain_key \<Rightarrow> bytes" where
  "domain_key_verifying E k = ed_public E (dk_signing k)"

definition wrap_i64 :: "int \<Rightarrow> int" where
  "wrap_i64 i = sint (word_of_int i :: 64 word)"

definition verify :: "ext \<Rightarrow> challenge_response \<Rightarrow> bytes \<Rightarrow> int \<Rightarrow> int \<Rightarrow> (handshake_error, unit) result" where
  "verify E r receiver_pub max_age now =
     (let c = resp_challenge r; age = wrap_i64 (now - issued_at c) in
      if sender_domain c = [] \<or> receiver_domain c = [] then Inl DomainMismatch
      else if age > max_age \<or> age < 0 then Inl (Stale max_age)
      else if length (resp_signature r) \<noteq> 64 then Inl BadSignature
      else if ed_verify E receiver_pub (digest E c) (resp_signature r) then Inr ()
      else Inl BadSignature)"

subsection \<open>Hexadecimal and numbers on the wire\<close>

definition i64_range :: "int \<Rightarrow> bool" where
  "i64_range i \<longleftrightarrow> - int (Suc i64_max) \<le> i \<and> i \<le> int i64_max"

lemma hex_simps [simp]: "hex [] = []" "hex (c # s) = hex_byte c @ hex s"
  by (simp_all add: hex_def)

lemma hex_length [simp]: "length (hex s) = 2 * length s"
  by (induction s) simp_all

lemma push_bit_or_nibble: "l < 16 \<Longrightarrow> push_bit 4 h OR l = 16 * h + (l::nat)"
proof -
  assume "l < 16"
  then have l: "take_bit 4 l = l" by (simp add: take_bit_eq_mod)
  have "push_bit 4 h OR l = push_bit 4 h OR take_bit 4 l" by (simp add: l)
  also have "\<dots> = push_bit 4 h + take_bit 4 l"
    by (rule disjunctive_add[symmetric]) (auto simp: bit_simps)
  finally show ?thesis using l by (simp add: push_bit_eq_mult)
qed

lemma unhex_chunks_hex [simp]: "unhex_chunks (hex s) = Some s"
  by (induction s) (simp_all add: hex_byte_def push_bit_or_nibble mult.commute[of 16])

lemma unhex_hex: "length s = 16 \<Longrightarrow> unhex (hex s) = Some s"
  by (simp add: unhex_def)

lemma unhex_chunks_length: "unhex_chunks s = Some x \<Longrightarrow> length s = 2 * length x"
  by (induction s arbitrary: x rule: unhex_chunks.induct) (auto split: option.splits)

lemma hex_printable: "c \<in> set (hex s) \<Longrightarrow> 33 \<le> byte c \<and> byte c < 127 \<and> c \<noteq> BAR"
proof -
  assume c: "c \<in> set (hex s)"
  then have "33 \<le> byte c \<and> byte c < 127" using hex_byte_range by (simp add: hex_def)
  moreover have "c \<noteq> BAR"
  proof -
    from c obtain d where "c \<in> {hex_char (byte d div 16), hex_char (byte d mod 16)}"
      by (auto simp: hex_def hex_byte_def)
    then have "byte c \<le> 102"
      using hex_char_byte[of "byte d div 16"] hex_char_byte[of "byte d mod 16"] by auto
    then show ?thesis by (auto simp: BAR_def)
  qed
  ultimately show ?thesis by simp
qed

lemma ascii_hex [simp]: "ascii (hex s)"
  using hex_printable by (fastforce simp: ascii_def)

lemma show_int_no_bar [simp]: "BAR \<notin> set (show_int i)"
  using show_nat_byte[of BAR] by (auto simp: show_int_def BAR_def)

lemma length_be64 [simp]: "length (be64 i) = 8"
  by (simp add: be64_def)

lemma parse_i64_range: "parse_i64 s = Some i \<Longrightarrow> i64_range i"
proof -
  have "parse_digits m t = Some n \<Longrightarrow> n \<le> m" for m t n
    by (auto simp: parse_digits_def split: if_splits option.splits)
  then show "parse_i64 s = Some i \<Longrightarrow> i64_range i"
    by (fastforce simp: parse_i64_def i64_range_def split: list.splits if_splits)
qed

lemma wrap_i64_id: "i64_range i \<Longrightarrow> wrap_i64 i = i"
  by (simp add: wrap_i64_def i64_range_def int_word_sint)

subsection \<open>The signed bytes determine the challenge\<close>

lemma bytes_determine_mod:
  "(\<And>k. k < n \<Longrightarrow> i div 256 ^ k mod 256 = j div 256 ^ k mod (256::int)) \<Longrightarrow> i mod 256 ^ n = j mod 256 ^ n"
proof (induction n)
  case (Suc n)
  then have "i mod 256 ^ n = j mod 256 ^ n" and "i div 256 ^ n mod 256 = j div 256 ^ n mod 256" by auto
  then have "i mod (256 ^ n * 256) = j mod (256 ^ n * 256)" by (simp only: zmod_zmult2_eq)
  then show ?case by (simp only: power_Suc mult.commute)
qed simp

lemma be64_inj:
  assumes "be64 i = be64 j" "i64_range i" "i64_range j" shows "i = j"
proof -
  have b: "x mod 256 = y mod (256::int)" if "char_of (nat (x mod 256)) = (char_of (nat (y mod 256)) :: char)" for x y
  proof -
    have "byte (char_of (nat (x mod 256))) = byte (char_of (nat (y mod 256)))" by (simp only: that)
    then have "nat (x mod 256) = nat (y mod 256)" by simp
    then show ?thesis by (simp add: eq_nat_nat_iff)
  qed
  have "\<forall>k \<in> set [7, 6, 5, 4, 3, 2, 1, 0]. i div 256 ^ k mod 256 = j div 256 ^ k mod 256"
    using assms(1) b unfolding be64_def map_eq_conv by blast
  moreover have "k \<in> set [7, 6, 5, 4, 3, 2, 1, 0]" if "k < 8" for k :: nat using that by auto
  ultimately have "i mod 256 ^ 8 = j mod 256 ^ 8"
    by (intro bytes_determine_mod) blast
  then have "(i + 2 ^ 63) mod 2 ^ 64 = (j + 2 ^ 63) mod 2 ^ 64" by (simp add: mod_add_cong)
  then show ?thesis using assms(2,3) by (simp add: i64_range_def)
qed

definition challenge_ok :: "challenge \<Rightarrow> bool" where
  "challenge_ok c \<longleftrightarrow> length (nonce c) = 16 \<and> i64_range (issued_at c)"

definition bar_free :: "challenge \<Rightarrow> bool" where
  "bar_free c \<longleftrightarrow> BAR \<notin> set (sender_domain c) \<and> BAR \<notin> set (receiver_domain c)"

definition nul_free :: "challenge \<Rightarrow> bool" where
  "nul_free c \<longleftrightarrow> NUL \<notin> set (sender_domain c) \<and> NUL \<notin> set (receiver_domain c)"

lemma digest_input_eq:
  assumes "challenge_ok c" "challenge_ok d" "nul_free c" "nul_free d" "digest_input c = digest_input d"
  shows "c = d"
proof -
  have "sender_domain c @ NUL # receiver_domain c @ NUL # nonce c @ be64 (issued_at c) =
        sender_domain d @ NUL # receiver_domain d @ NUL # nonce d @ be64 (issued_at d)"
    using assms(5) by (simp add: digest_input_def)
  then have s: "sender_domain c = sender_domain d" and r: "receiver_domain c = receiver_domain d" and
    "nonce c @ be64 (issued_at c) = nonce d @ be64 (issued_at d)"
    using assms(3,4) by (simp_all add: nul_free_def append_sep_eq_iff)
  then have "nonce c = nonce d" "be64 (issued_at c) = be64 (issued_at d)"
    using assms(1,2) by (auto simp: challenge_ok_def)
  with s r assms(1,2) show ?thesis
    by (intro challenge.equality) (auto simp: challenge_ok_def intro: be64_inj)
qed

subsection \<open>The wire form\<close>

lemma split_on_wire:
  assumes "bar_free c"
  shows "split_on BAR (to_wire c) =
    [sender_domain c, receiver_domain c, hex (nonce c), show_int (issued_at c)]"
proof -
  have h: "BAR \<notin> set (hex (nonce c))" using hex_printable by blast
  have "to_wire c = sender_domain c @ BAR # receiver_domain c @ BAR # hex (nonce c) @ BAR # show_int (issued_at c)"
    by (simp add: to_wire_def BAR_def)
  then show ?thesis using assms h by (simp add: bar_free_def)
qed

lemma from_wire_to_wire: "challenge_ok c \<Longrightarrow> bar_free c \<Longrightarrow> from_wire (to_wire c) = Some c"
  by (simp add: from_wire_def split_on_wire challenge_ok_def unhex_hex
      parse_i64_show_int i64_range_def)

subsection \<open>Verification\<close>

lemma wrap_i64_neg:
  assumes "int i64_max < d" "d \<le> 2 * int i64_max + 1" shows "wrap_i64 d < 0"
proof -
  define e where "e = d - 9223372036854775808"
  have e: "0 \<le> e" "e < 9223372036854775808" and d: "d + 9223372036854775808 = e + 18446744073709551616"
    using assms by (auto simp: e_def)
  have "(d + 9223372036854775808) mod 18446744073709551616 = e" unfolding d using e by simp
  with e show ?thesis by (simp add: wrap_i64_def int_word_sint)
qed

lemma verify_ok_iff:
  assumes "i64_range (issued_at (resp_challenge r))" "0 \<le> now" "now \<le> int i64_max" "m \<le> int i64_max"
  shows "verify E r pub m now = Inr () \<longleftrightarrow>
    sender_domain (resp_challenge r) \<noteq> [] \<and> receiver_domain (resp_challenge r) \<noteq> [] \<and>
    0 \<le> now - issued_at (resp_challenge r) \<and> now - issued_at (resp_challenge r) \<le> m \<and>
    length (resp_signature r) = 64 \<and> ed_verify E pub (digest E (resp_challenge r)) (resp_signature r)"
proof -
  let ?d = "now - issued_at (resp_challenge r)"
  have "0 \<le> wrap_i64 ?d \<and> wrap_i64 ?d \<le> m \<longleftrightarrow> 0 \<le> ?d \<and> ?d \<le> m"
  proof (cases "i64_range ?d")
    case True
    then show ?thesis by (simp add: wrap_i64_id)
  next
    case False
    with assms have d: "?d > int i64_max" "?d \<le> 2 * int i64_max + 1" by (auto simp: i64_range_def)
    then have "wrap_i64 ?d < 0" by (rule wrap_i64_neg)
    with d assms show ?thesis by simp
  qed
  then show ?thesis by (auto simp: verify_def Let_def not_less not_le)
qed

subsection \<open>Properties\<close>

text \<open>
  A challenge survives its wire form when its domains hold no separator: the receiver answers
  the challenge the sender issued, with its nonce and time stamp.
\<close>

theorem challenge_wire_roundtrip:
  assumes "length (nonce c) = 16" "i64_range (issued_at c)"
    and "BAR \<notin> set (sender_domain c)" "BAR \<notin> set (receiver_domain c)"
  shows "from_wire (to_wire c) = Some c"
  using assms by (intro from_wire_to_wire) (simp_all add: challenge_ok_def bar_free_def)

theorem challenge_wire_roundtrip_witness:
  "from_wire (to_wire (challenge_issue ''a.org'' ''b.org'' (replicate 16 CHR 0xA7) (-5))) =
     Some (challenge_issue ''a.org'' ''b.org'' (replicate 16 CHR 0xA7) (-5))"
  by (rule challenge_wire_roundtrip) (simp_all add: challenge_issue_def i64_range_def BAR_def)

text \<open>
  C30. What \<open>verify\<close> accepts, exactly: both domains named, a challenge issued at most \<open>max_age\<close>
  seconds before and not after the current time, and a 64-byte signature of this challenge under
  the given key. The age is computed with wrapping 64-bit subtraction; for every time stamp a peer
  can put on the wire the wrap cannot turn a stale or future challenge into a fresh one.
\<close>

theorem verify_accepts_iff:
  assumes "i64_range (issued_at c)" "0 \<le> now" "now \<le> int i64_max"
  shows "verify E \<lparr>resp_challenge = c, resp_signature = sig\<rparr> pub MAX_CHALLENGE_AGE now = Inr () \<longleftrightarrow>
    sender_domain c \<noteq> [] \<and> receiver_domain c \<noteq> [] \<and>
    now - 300 \<le> issued_at c \<and> issued_at c \<le> now \<and>
    length sig = 64 \<and> ed_verify E pub (digest E c) sig"
  using verify_ok_iff[of "\<lparr>resp_challenge = c, resp_signature = sig\<rparr>" now MAX_CHALLENGE_AGE E pub] assms
  by (auto simp: MAX_CHALLENGE_AGE_def)

theorem verify_accepts_iff_witness:
  "verify demo_ext (respond demo_ext (challenge_issue ''a'' ''b'' (replicate 16 CHR 0x01) 1000) [])
     [] MAX_CHALLENGE_AGE 1300 = Inr () \<and>
   verify demo_ext (respond demo_ext (challenge_issue ''a'' ''b'' (replicate 16 CHR 0x01) (- 9223372036854775808)) [])
     [] MAX_CHALLENGE_AGE 1300 \<noteq> Inr ()"
proof -
  let ?c = "\<lambda>t. challenge_issue ''a'' ''b'' (replicate 16 CHR 0x01) t"
  let ?s = "\<lambda>t. ed_sign demo_ext [] (digest demo_ext (?c t))"
  have r: "i64_range 1000" "i64_range (- 9223372036854775808)" by (simp_all add: i64_range_def)
  have s: "length (?s t) = 64" "ed_verify demo_ext [] (digest demo_ext (?c t)) (?s t)" for t
    by (simp_all add: demo_ext_def demo_pad_def min_def)
  have i: "issued_at (?c t) = t" "sender_domain (?c t) \<noteq> []" "receiver_domain (?c t) \<noteq> []" for t
    by (simp_all add: challenge_issue_def)
  show ?thesis
    using verify_accepts_iff[of "?c 1000" 1300 demo_ext "?s 1000" "[]"]
      verify_accepts_iff[of "?c (- 9223372036854775808)" 1300 demo_ext "?s (- 9223372036854775808)" "[]"] r s
    by (simp add: i respond_def)
qed

text \<open>
  The signed bytes name exactly one challenge when the domains hold no NUL byte: a signature
  for one pair of domains, nonce and time is a signature for no other.
\<close>

theorem digest_input_binds:
  assumes "length (nonce c) = 16" "length (nonce d) = 16"
    and "i64_range (issued_at c)" "i64_range (issued_at d)"
    and "NUL \<notin> set (sender_domain c @ receiver_domain c @ sender_domain d @ receiver_domain d)"
  shows "digest_input c = digest_input d \<longleftrightarrow> c = d"
  using assms digest_input_eq[of c d] by (auto simp: challenge_ok_def nul_free_def)

theorem digest_input_binds_witness:
  "digest_input (challenge_issue ''a'' ''bc'' (replicate 16 CHR 0x01) 7) \<noteq>
   digest_input (challenge_issue ''ab'' ''c'' (replicate 16 CHR 0x01) 7)"
  using digest_input_binds[of "challenge_issue ''a'' ''bc'' (replicate 16 CHR 0x01) 7"
      "challenge_issue ''ab'' ''c'' (replicate 16 CHR 0x01) 7"]
  by (simp add: challenge_issue_def i64_range_def NUL_def)

end
