(* ===== verification/Attestation.thy ===== *)
theory Attestation
  imports Handshake
begin

text \<open>
  Address attestations and the registration attestation
  (\<^verbatim>\<open>talk-protocol/src/attestation.rs\<close>). The JSON text of both structures is written and
  read by the crate \<^verbatim>\<open>serde_json\<close> and is a pair of functions each (\<open>json_ext\<close>); random bytes
  are arguments of the operations that draw them.
\<close>

datatype attestation_error = AttBadSignature | AttInvalidKey | AttDomainMismatch

datatype attestation_mode = Ephemeral | Attested

record attestation =
  att_domain :: rstr
  att_user :: rstr
  att_mode :: attestation_mode
  att_address :: rstr
  att_pubkey :: rstr
  att_signature :: bytes

definition att_mode_bytes :: "attestation_mode \<Rightarrow> bytes" where
  "att_mode_bytes m = (case m of Ephemeral \<Rightarrow> ''ephemeral'' | Attested \<Rightarrow> ''attested'')"

definition canonical_input :: "attestation \<Rightarrow> bytes" where
  "canonical_input a =
     ''zsmtp-attest-v1'' @ att_domain a @ [NUL] @ att_user a @ [NUL] @ att_mode_bytes (att_mode a) @
     [NUL] @ att_address a @ [NUL] @ att_pubkey a"

definition canonical_digest :: "ext \<Rightarrow> attestation \<Rightarrow> bytes" where
  "canonical_digest E a = sha256 E (canonical_input a)"

definition att_sign :: "ext \<Rightarrow> rstr \<Rightarrow> rstr \<Rightarrow> attestation_mode \<Rightarrow> rstr \<Rightarrow> rstr \<Rightarrow> bytes \<Rightarrow> attestation" where
  "att_sign E domain user mode address pubkey sk =
     (let binding = \<lparr>att_domain = domain, att_user = user, att_mode = mode, att_address = address,
                     att_pubkey = pubkey, att_signature = []\<rparr>
      in binding\<lparr>att_signature := ed_sign E sk (canonical_digest E binding)\<rparr>)"

definition att_verify :: "ext \<Rightarrow> attestation \<Rightarrow> bytes \<Rightarrow> rstr \<Rightarrow> (attestation_error, unit) result" where
  "att_verify E a pub expected_domain =
     (if att_domain a \<noteq> expected_domain then Inl AttDomainMismatch
      else if length (att_signature a) \<noteq> 64 then Inl AttBadSignature
      else if ed_verify E pub (canonical_digest E a) (att_signature a) then Inr ()
      else Inl AttBadSignature)"

record minted_address =
  ma_address :: rstr
  ma_pubkey :: rstr
  ma_diversifier :: "rstr option"

definition placeholder_pubkey :: "bytes \<Rightarrow> rstr" where
  "placeholder_pubkey rnd = concat (map hex_byte rnd)"

definition mint_pair :: "bytes \<Rightarrow> attestation_mode \<Rightarrow> rstr \<times> rstr" where
  "mint_pair rnd m = (let h = concat (map hex_byte rnd) in (''taddr-'' @ h, h))"

text \<open>The placeholder provider; \<open>rnd\<close> draws 32 bytes from the generator kept in the world.\<close>

definition placeholder_mint :: "('w \<Rightarrow> bytes \<times> 'w) \<Rightarrow> attestation_mode \<Rightarrow> 'w \<Rightarrow> minted_address \<times> 'w" where
  "placeholder_mint rnd m w =
     (let (b, w') = rnd w; (address, pubkey) = mint_pair b m
      in (\<lparr>ma_address = address, ma_pubkey = pubkey, ma_diversifier = None\<rparr>, w'))"

definition REGISTRATION_ATTR_V1 :: rstr where "REGISTRATION_ATTR_V1 = ''reg-v1''"

record registration_attestation =
  reg_domain :: rstr
  reg_username :: rstr
  reg_master_pubkey :: rstr
  reg_ivk_commitment :: "rstr option"
  reg_registered_at :: int
  reg_signature :: bytes

definition unwrap_or :: "'a \<Rightarrow> 'a option \<Rightarrow> 'a" where
  "unwrap_or d x = (case x of None \<Rightarrow> d | Some a \<Rightarrow> a)"

definition reg_digest_input :: "registration_attestation \<Rightarrow> bytes" where
  "reg_digest_input r =
     REGISTRATION_ATTR_V1 @ reg_domain r @ [NUL] @ reg_username r @ [NUL] @ reg_master_pubkey r @ [NUL] @
     unwrap_or [] (reg_ivk_commitment r) @ [NUL] @ be64 (reg_registered_at r)"

definition reg_digest :: "ext \<Rightarrow> registration_attestation \<Rightarrow> bytes" where
  "reg_digest E r = sha256 E (reg_digest_input r)"

definition reg_sign ::
    "ext \<Rightarrow> rstr \<Rightarrow> rstr \<Rightarrow> bytes \<Rightarrow> rstr option \<Rightarrow> int \<Rightarrow> bytes \<Rightarrow> registration_attestation" where
  "reg_sign E domain username mpk ivk at sk =
     (let binding = \<lparr>reg_domain = domain, reg_username = username,
                     reg_master_pubkey = hex_encode E mpk, reg_ivk_commitment = ivk,
                     reg_registered_at = at, reg_signature = []\<rparr>
      in binding\<lparr>reg_signature := ed_sign E sk (reg_digest E binding)\<rparr>)"

subsection \<open>JSON\<close>

record json_ext =
  att_write_json :: "attestation \<Rightarrow> rstr"
  att_read_json :: "rstr \<Rightarrow> attestation option"
  reg_write_json :: "registration_attestation \<Rightarrow> rstr"
  reg_read_json :: "rstr \<Rightarrow> registration_attestation option"

definition att_to_json :: "json_ext \<Rightarrow> attestation \<Rightarrow> rstr" where
  "att_to_json J a = att_write_json J a"

definition att_from_json :: "json_ext \<Rightarrow> rstr \<Rightarrow> (attestation_error, attestation) result" where
  "att_from_json J s = ok_or AttInvalidKey (att_read_json J s)"

definition reg_to_json :: "json_ext \<Rightarrow> registration_attestation \<Rightarrow> rstr" where
  "reg_to_json J r = reg_write_json J r"

definition reg_from_json :: "json_ext \<Rightarrow> rstr \<Rightarrow> (attestation_error, registration_attestation) result" where
  "reg_from_json J s = ok_or AttInvalidKey (reg_read_json J s)"

text \<open>The crate reads back what it writes, and what it writes is UTF-8 text; a Rust string
  is UTF-8, so this is said of structures whose text fields are.\<close>

definition att_utf8 :: "attestation \<Rightarrow> bool" where
  "att_utf8 a \<longleftrightarrow> utf8_valid (att_domain a) \<and> utf8_valid (att_user a) \<and>
     utf8_valid (att_address a) \<and> utf8_valid (att_pubkey a)"

definition reg_utf8 :: "registration_attestation \<Rightarrow> bool" where
  "reg_utf8 r \<longleftrightarrow> utf8_valid (reg_domain r) \<and> utf8_valid (reg_username r) \<and>
     utf8_valid (reg_master_pubkey r) \<and> utf8_valid (unwrap_or [] (reg_ivk_commitment r)) \<and>
     i64_range (reg_registered_at r)"

definition json_ok :: "json_ext \<Rightarrow> bool" where
  "json_ok J \<longleftrightarrow>
     (\<forall>a. att_utf8 a \<longrightarrow> att_read_json J (att_write_json J a) = Some a \<and> utf8_valid (att_write_json J a)) \<and>
     (\<forall>r. reg_utf8 r \<longrightarrow> reg_read_json J (reg_write_json J r) = Some r \<and> utf8_valid (reg_write_json J r))"

text \<open>A concrete instance: the fields in hexadecimal, separated by bars.\<close>

definition demo_fields :: "rstr list \<Rightarrow> rstr" where
  "demo_fields fs = concat (map (\<lambda>f. hex f @ [BAR]) fs)"

definition demo_unfields :: "rstr \<Rightarrow> rstr list option" where
  "demo_unfields s = those (map unhex_chunks (butlast (split_on BAR s)))"

definition demo_json :: json_ext where
  "demo_json =
     \<lparr>att_write_json = (\<lambda>a. demo_fields [att_domain a, att_user a, att_mode_bytes (att_mode a), att_address a,
        att_pubkey a, att_signature a]),
      att_read_json = (\<lambda>s. case demo_unfields s of
        Some [d, u, m, a, p, g] \<Rightarrow> Some \<lparr>att_domain = d, att_user = u,
          att_mode = (if m = ''ephemeral'' then Ephemeral else Attested), att_address = a, att_pubkey = p, att_signature = g\<rparr>
      | _ \<Rightarrow> None),
      reg_write_json = (\<lambda>r. demo_fields [reg_domain r, reg_username r, reg_master_pubkey r,
        (case reg_ivk_commitment r of None \<Rightarrow> [] | Some i \<Rightarrow> BAR # i), show_int (reg_registered_at r), reg_signature r]),
      reg_read_json = (\<lambda>s. case demo_unfields s of
        Some [d, u, k, i, t, g] \<Rightarrow> map_option (\<lambda>n. \<lparr>reg_domain = d, reg_username = u, reg_master_pubkey = k,
          reg_ivk_commitment = (if i = [] then None else Some (tl i)), reg_registered_at = n, reg_signature = g\<rparr>) (parse_i64 t)
      | _ \<Rightarrow> None)\<rparr>"

lemma split_demo_fields: "split_on BAR (demo_fields fs) = map hex fs @ [[]]"
proof (induction fs)
  case (Cons f fs)
  have "BAR \<notin> set (hex f)" using hex_printable by blast
  with Cons show ?case by (simp add: demo_fields_def)
qed (simp add: demo_fields_def)

lemma demo_unfields_fields: "demo_unfields (demo_fields fs) = Some fs"
proof -
  have "those (map (\<lambda>x. unhex_chunks (hex x)) fs) = Some fs" by (induction fs) simp_all
  then show ?thesis by (simp add: demo_unfields_def split_demo_fields comp_def)
qed

lemma ascii_demo_fields: "ascii (demo_fields fs)"
  by (induction fs) (simp_all add: demo_fields_def BAR_def)

lemma demo_json_ok: "json_ok demo_json"
proof -
  have "att_read_json demo_json (att_write_json demo_json a) = Some a" for a
    by (cases a; cases "att_mode a") (simp_all add: demo_json_def demo_unfields_fields att_mode_bytes_def)
  moreover have "reg_read_json demo_json (reg_write_json demo_json r) = Some r" if "reg_utf8 r" for r
  proof -
    have "parse_i64 (show_int (reg_registered_at r)) = Some (reg_registered_at r)"
      using that by (intro parse_i64_show_int) (simp_all add: reg_utf8_def i64_range_def)
    then show ?thesis
      by (cases r; cases "reg_ivk_commitment r") (simp_all add: demo_json_def demo_unfields_fields)
  qed
  ultimately show ?thesis by (simp add: json_ok_def demo_json_def ascii_demo_fields)
qed

subsection \<open>Facts\<close>

lemma att_mode_bytes_inj [simp]: "att_mode_bytes m = att_mode_bytes n \<longleftrightarrow> m = n"
  by (cases m; cases n) (simp_all add: att_mode_bytes_def)

lemma att_mode_bytes_no_nul [simp]: "NUL \<notin> set (att_mode_bytes m)"
  by (cases m) (simp_all add: att_mode_bytes_def NUL_def)

lemma att_sign_sel [simp]:
  "att_domain (att_sign E d u m a p sk) = d" "att_user (att_sign E d u m a p sk) = u"
  "att_mode (att_sign E d u m a p sk) = m" "att_address (att_sign E d u m a p sk) = a"
  "att_pubkey (att_sign E d u m a p sk) = p"
  by (simp_all add: att_sign_def Let_def)

lemma att_sign_verify: "ed_ok E \<Longrightarrow> att_verify E (att_sign E d u m a p sk) (ed_public E sk) d = Inr ()"
  by (simp add: att_verify_def att_sign_def Let_def ed_ok_def canonical_digest_def canonical_input_def)

lemma att_verify_ok_iff:
  "att_verify E a pub d = Inr () \<longleftrightarrow>
     att_domain a = d \<and> length (att_signature a) = 64 \<and> ed_verify E pub (canonical_digest E a) (att_signature a)"
  by (simp add: att_verify_def)

lemma reg_sign_signed:
  "ed_ok E \<Longrightarrow> ed_verify E (ed_public E sk) (reg_digest E (reg_sign E d u mpk ivk at sk))
     (reg_signature (reg_sign E d u mpk ivk at sk))"
  by (simp add: reg_sign_def Let_def ed_ok_def reg_digest_def reg_digest_input_def)

subsection \<open>Properties\<close>

text \<open>
  C31. An attestation the server signs is accepted by every client that expects its domain and
  holds its public key, and the signed bytes bind domain, user, mode, address and public key:
  two attestations with the same signed bytes agree in all five, as long as domain, user and
  address hold no NUL byte. So a signature cannot be moved to another key or address.
\<close>

theorem attestation_binds:
  assumes "ed_ok E"
  shows "att_verify E (att_sign E d u m a p sk) (ed_public E sk) d = Inr () \<and>
    (NUL \<notin> set (d @ u @ a) \<longrightarrow> NUL \<notin> set (att_domain x @ att_user x @ att_address x) \<longrightarrow>
     canonical_input x = canonical_input (att_sign E d u m a p sk) \<longrightarrow>
     x = (att_sign E d u m a p sk)\<lparr>att_signature := att_signature x\<rparr>)"
  using att_sign_verify[OF assms]
  by (auto simp: canonical_input_def append_sep_eq_iff intro!: attestation.equality)

theorem attestation_binds_witness:
  "att_verify demo_ext (att_sign demo_ext ''b.org'' ''bob'' Attested ''addr'' ''ff'' []) [] ''b.org'' = Inr () \<and>
   canonical_input (att_sign demo_ext ''b.org'' ''bob'' Attested ''addr'' ''ff'' []) \<noteq>
   canonical_input \<lparr>att_domain = ''b.org'', att_user = ''bob'', att_mode = Attested,
     att_address = ''addr'', att_pubkey = ''00'', att_signature = []\<rparr>"
  using attestation_binds[OF demo_ed_ok, of "''b.org''" "''bob''" Attested "''addr''" "''ff''" "[]"
      "\<lparr>att_domain = ''b.org'', att_user = ''bob'', att_mode = Attested,
        att_address = ''addr'', att_pubkey = ''00'', att_signature = []\<rparr>"]
  by (auto simp: NUL_def att_sign_def Let_def demo_ext_def)

text \<open>
  The signed bytes of a registration determine it up to one point: an absent IVK commitment
  and an empty one are signed alike. Everything else is bound, fields without NUL bytes assumed.
\<close>

theorem registration_digest_binds:
  assumes "i64_range (reg_registered_at r)" "i64_range (reg_registered_at s)"
    and "NUL \<notin> set (reg_domain r @ reg_username r @ reg_master_pubkey r @ unwrap_or [] (reg_ivk_commitment r))"
    and "NUL \<notin> set (reg_domain s @ reg_username s @ reg_master_pubkey s @ unwrap_or [] (reg_ivk_commitment s))"
  shows "reg_digest_input r = reg_digest_input s \<longleftrightarrow>
    reg_domain r = reg_domain s \<and> reg_username r = reg_username s \<and>
    reg_master_pubkey r = reg_master_pubkey s \<and> reg_registered_at r = reg_registered_at s \<and>
    unwrap_or [] (reg_ivk_commitment r) = unwrap_or [] (reg_ivk_commitment s)"
  using assms by (auto simp: reg_digest_input_def append_sep_eq_iff dest: be64_inj)

theorem registration_digest_binds_witness:
  "reg_digest_input (reg_sign demo_ext ''b.org'' ''bob'' [] None 5 []) =
     reg_digest_input (reg_sign demo_ext ''b.org'' ''bob'' [] (Some []) 5 []) \<and>
   reg_digest_input (reg_sign demo_ext ''b.org'' ''bob'' [] None 5 []) \<noteq>
     reg_digest_input (reg_sign demo_ext ''b.org'' ''bob'' [] (Some ''c'') 5 [])"
  using registration_digest_binds[of "reg_sign demo_ext ''b.org'' ''bob'' [] None 5 []"
      "reg_sign demo_ext ''b.org'' ''bob'' [] (Some []) 5 []"]
    registration_digest_binds[of "reg_sign demo_ext ''b.org'' ''bob'' [] None 5 []"
      "reg_sign demo_ext ''b.org'' ''bob'' [] (Some ''c'') 5 []"]
  by (simp add: reg_sign_def Let_def demo_ext_def i64_range_def NUL_def unwrap_or_def)

end
