(* ===== verification/Session.thy ===== *)
theory Session
  imports Framing Codec Attestation
begin

text \<open>
  The server side of a ZSMTP connection (\<^verbatim>\<open>talk-protocol/src/session.rs\<close> and
  \<^verbatim>\<open>serve_connection\<close> of \<^verbatim>\<open>talk-protocol/src/server.rs\<close>). A session keeps its delivery
  sink, user directory and address provider as functions on a world \<open>'w\<close>, which holds
  whatever those objects share (the mail store, the random generator); the world is threaded
  through every call. A connection is a session together with the world, the bytes the peer
  sends and the bytes written to it.
\<close>

subsection \<open>Data\<close>

datatype session_state = Greeting | AwaitingAuth | Authenticated

datatype session_error = SessionStateError rstr

datatype delivery_outcome = Accepted rstr | Rejected rstr | RetryLater rstr

datatype trust_state = Trusted | Untrusted | Unverified

definition trust_str :: "trust_state \<Rightarrow> rstr" where
  "trust_str t = (case t of Trusted \<Rightarrow> ''trusted'' | Untrusted \<Rightarrow> ''untrusted'' | Unverified \<Rightarrow> ''unverified'')"

datatype reply = ReplyStatus status | StatusWithBlob status bytes

text \<open>The traits \<^verbatim>\<open>DeliverySink\<close>, \<^verbatim>\<open>UserDirectory\<close> and \<^verbatim>\<open>AddressProvider\<close>.\<close>

type_synonym 'w delivery_sink = "rstr \<Rightarrow> rstr \<Rightarrow> rstr \<Rightarrow> payload \<Rightarrow> bytes \<Rightarrow> 'w \<Rightarrow> delivery_outcome \<times> 'w"
type_synonym 'w user_directory = "rstr \<Rightarrow> 'w \<Rightarrow> bool"
type_synonym 'w address_provider = "attestation_mode \<Rightarrow> 'w \<Rightarrow> minted_address \<times> 'w"

record 'w session =
  state :: session_state
  domain :: rstr
  sess_domain_key :: domain_key
  peer_domain :: "rstr option"
  addr_user :: "rstr option"
  sink :: "'w delivery_sink option"
  directory :: "'w user_directory option"
  address_provider :: "'w address_provider"

subsection \<open>Construction\<close>

definition session_new :: "('w \<Rightarrow> bytes \<times> 'w) \<Rightarrow> rstr \<Rightarrow> bytes \<Rightarrow> 'w session" where
  "session_new rnd d seed =
     \<lparr>state = Greeting, domain = d, sess_domain_key = domain_key_generate d seed, peer_domain = None,
      addr_user = None, sink = None, directory = None, address_provider = placeholder_mint rnd\<rparr>"

definition with_domain_key :: "('w \<Rightarrow> bytes \<times> 'w) \<Rightarrow> rstr \<Rightarrow> bytes \<Rightarrow> 'w session" where
  "with_domain_key rnd d signing =
     \<lparr>state = Greeting, domain = d, sess_domain_key = \<lparr>dk_domain = d, dk_signing = signing\<rparr>,
      peer_domain = None, addr_user = None, sink = None, directory = None,
      address_provider = placeholder_mint rnd\<rparr>"

definition with_sink :: "'w session \<Rightarrow> 'w delivery_sink \<Rightarrow> 'w session" where
  "with_sink s k = s\<lparr>sink := Some k\<rparr>"

definition with_directory :: "'w session \<Rightarrow> 'w user_directory \<Rightarrow> 'w session" where
  "with_directory s d = s\<lparr>directory := Some d\<rparr>"

definition with_address_provider :: "'w session \<Rightarrow> 'w address_provider \<Rightarrow> 'w session" where
  "with_address_provider s p = s\<lparr>address_provider := p\<rparr>"

definition greeting :: "'w session \<Rightarrow> rstr" where
  "greeting s = ''ZSMTP 1.0 '' @ domain s"

subsection \<open>Commands\<close>

type_synonym 'w handled = "(session_error, reply) result \<times> 'w session \<times> 'w"

definition reply_ok :: "StatusCode \<Rightarrow> rstr \<Rightarrow> (session_error, reply) result" where
  "reply_ok c m = Inr (ReplyStatus (mk_status c m))"

definition on_hello :: "rstr \<Rightarrow> 'w session \<Rightarrow> 'w \<Rightarrow> 'w handled" where
  "on_hello d s w =
     (if state s \<noteq> Greeting then (Inl (SessionStateError ''HELLO already sent''), s, w)
      else if d = [] then (reply_ok SYNTAX ''HELLO requires a domain'', s, w)
      else (reply_ok OK (''Hello '' @ d), s\<lparr>state := AwaitingAuth\<rparr>, w))"

definition sess_hex :: "bytes \<Rightarrow> rstr" where
  "sess_hex data = concat (map hex_byte data)"

definition on_auth :: "ext \<Rightarrow> bytes \<Rightarrow> 'w session \<Rightarrow> 'w \<Rightarrow> 'w handled" where
  "on_auth E challenge_wire s w =
     (if state s \<noteq> AwaitingAuth then (reply_ok BAD_SEQUENCE ''AUTH not expected now'', s, w)
      else (case from_wire (from_utf8_lossy challenge_wire) of
              None \<Rightarrow> (reply_ok SYNTAX ''malformed challenge'', s, w)
            | Some c \<Rightarrow>
                (let response = respond E c (dk_signing (sess_domain_key s));
                     wire = to_wire c @ ''|'' @ sess_hex (resp_signature response)
                 in (Inr (StatusWithBlob (mk_status OK ''authenticated'') wire),
                     s\<lparr>state := Authenticated, peer_domain := Some (sender_domain c)\<rparr>, w))))"

definition attestation_mode_of :: "addr_mode \<Rightarrow> attestation_mode" where
  "attestation_mode_of m = (case m of AddrEphemeral \<Rightarrow> Ephemeral | AddrAttested \<Rightarrow> Attested)"

definition user_known :: "'w session \<Rightarrow> rstr \<Rightarrow> 'w \<Rightarrow> bool" where
  "user_known s user w = (case directory s of None \<Rightarrow> True | Some dir \<Rightarrow> dir user w)"

definition on_addr :: "ext \<Rightarrow> json_ext \<Rightarrow> addr_mode \<Rightarrow> rstr \<Rightarrow> 'w session \<Rightarrow> 'w \<Rightarrow> 'w handled" where
  "on_addr E J mode user s w =
     (if state s \<noteq> Authenticated then (reply_ok NOT_AUTHED ''authenticate first'', s, w)
      else if user = [] then (reply_ok SYNTAX ''ADDR requires a user'', s, w)
      else if \<not> user_known s user w then (reply_ok PERM_REJECT (''no such user: '' @ user), s, w)
      else
        (let m = attestation_mode_of mode;
             (minted, w') = address_provider s m w;
             att = att_sign E (domain s) user m (ma_address minted) (ma_pubkey minted)
                     (dk_signing (sess_domain_key s))
         in (Inr (StatusWithBlob (mk_status OK ''address attestation'') (att_to_json J att)),
             s\<lparr>addr_user := Some user\<rparr>, w')))"

definition outcome_reply :: "delivery_outcome \<Rightarrow> (session_error, reply) result" where
  "outcome_reply out =
     (case out of
        Accepted mid \<Rightarrow> reply_ok OK_QUEUED (''accepted into inbox ('' @ mid @ '')'')
      | Rejected reason \<Rightarrow> reply_ok PERM_REJECT reason
      | RetryLater reason \<Rightarrow> reply_ok TRY_LATER reason)"

definition on_invoice :: "rstr \<Rightarrow> rstr \<Rightarrow> payload \<Rightarrow> bytes \<Rightarrow> 'w session \<Rightarrow> 'w \<Rightarrow> 'w handled" where
  "on_invoice sender_user mid p body s w =
     (if state s \<noteq> Authenticated then (reply_ok NOT_AUTHED ''authenticate first'', s, w)
      else if mid = [] then (reply_ok SYNTAX ''INVOICE requires a message id'', s, w)
      else (case addr_user s of
              None \<Rightarrow> (reply_ok BAD_SEQUENCE ''INVOICE requires a prior ADDR'', s, w)
            | Some recipient_user \<Rightarrow>
           (case peer_domain s of
              None \<Rightarrow> (reply_ok BAD_SEQUENCE ''INVOICE requires a sender'', s, w)
            | Some sdom \<Rightarrow>
           (case sink s of
              None \<Rightarrow> (reply_ok OK_QUEUED (''accepted into inbox ('' @ mid @ '')''), s, w)
            | Some k \<Rightarrow>
                (let mbox = recipient_user @ ''@'' @ domain s;
                     sender_mailbox = sender_user @ ''@'' @ sdom;
                     (out, w') = k sender_mailbox mid mbox p body w
                 in (outcome_reply out, s, w'))))))"

definition handle :: "ext \<Rightarrow> json_ext \<Rightarrow> command \<Rightarrow> 'w session \<Rightarrow> 'w \<Rightarrow> 'w handled" where
  "handle E J cmd s w =
     (case cmd of
        Hello d \<Rightarrow> on_hello d s w
      | Auth ch \<Rightarrow> on_auth E ch s w
      | Addr mode user \<Rightarrow> on_addr E J mode user s w
      | Invoice sender mid p body \<Rightarrow> on_invoice sender mid p body s w
      | StatusCmd _ _ \<Rightarrow> (Inl (SessionStateError ''unexpected STATUS from client''), s, w)
      | Quit \<Rightarrow> (reply_ok (StatusCode 221) (domain s @ '' closing connection''), s, w))"

subsection \<open>The connection loop\<close>

definition write_reply :: "reply \<Rightarrow> writer" where
  "write_reply r out =
     (case r of
        ReplyStatus st \<Rightarrow> write_line (render st) out
      | StatusWithBlob st blob \<Rightarrow>
          (case write_line (render st) out of
             (Inl e, out') \<Rightarrow> (Inl e, out')
           | (Inr _, out') \<Rightarrow> write_blob blob out'))"

record 'w conn =
  cn_session :: "'w session"
  cn_world :: 'w
  cn_in :: bytes
  cn_out :: bytes

text \<open>
  One turn of the loop. The first component is the value the loop returns, or \<open>None\<close>
  when it goes on to read the next line.
\<close>

type_synonym 'w turn = "(framing_error, unit) result option \<times> 'w conn"

definition finish_write :: "bool \<Rightarrow> (framing_error, unit) result \<times> bytes \<Rightarrow> 'w conn \<Rightarrow> 'w turn" where
  "finish_write quit wr c =
     (case wr of
        (Inl e, out') \<Rightarrow> (Some (Inl e), c\<lparr>cn_out := out'\<rparr>)
      | (Inr _, out') \<Rightarrow> (if quit then Some (Inr ()) else None, c\<lparr>cn_out := out'\<rparr>))"

definition run_command :: "ext \<Rightarrow> json_ext \<Rightarrow> command \<Rightarrow> 'w conn \<Rightarrow> 'w turn" where
  "run_command E J cmd c =
     (case handle E J cmd (cn_session c) (cn_world c) of
        (r, s', w') \<Rightarrow>
          finish_write (cmd = Quit)
            (case r of
               Inr reply \<Rightarrow> write_reply reply (cn_out c)
             | Inl _ \<Rightarrow> write_line (render (mk_status BAD_SEQUENCE ''command not allowed now'')) (cn_out c))
            (c\<lparr>cn_session := s', cn_world := w'\<rparr>))"

definition run_turn :: "ext \<Rightarrow> json_ext \<Rightarrow> 'w conn \<Rightarrow> 'w turn" where
  "run_turn E J c =
     (case read_line (cn_in c) of
        (Inl (Protocol _), rest) \<Rightarrow> (Some (Inr ()), c\<lparr>cn_in := rest\<rparr>)
      | (Inl e, rest) \<Rightarrow> (Some (Inl e), c\<lparr>cn_in := rest\<rparr>)
      | (Inr line, rest) \<Rightarrow>
          (case decode_line E line of
             Inl _ \<Rightarrow>
               finish_write False
                 (write_line (render (mk_status SYNTAX ''unknown command'')) (cn_out c)) (c\<lparr>cn_in := rest\<rparr>)
           | Inr (Invoice sender mid p _) \<Rightarrow>
               (case read_blob rest of
                  (Inl e, rest') \<Rightarrow> (Some (Inl e), c\<lparr>cn_in := rest'\<rparr>)
                | (Inr body, rest') \<Rightarrow> run_command E J (Invoice sender mid p body) (c\<lparr>cn_in := rest'\<rparr>))
           | Inr cmd \<Rightarrow> run_command E J cmd (c\<lparr>cn_in := rest\<rparr>)))"

lemma finish_write_in [simp]: "cn_in (snd (finish_write q wr c)) = cn_in c"
  by (simp add: finish_write_def split: prod.splits sum.splits)

lemma run_command_in [simp]: "cn_in (snd (run_command E J cmd c)) = cn_in c"
  by (simp add: run_command_def split: prod.splits)

lemma run_turn_consumes:
  assumes "run_turn E J c = (None, c')" shows "length (cn_in c') < length (cn_in c)"
proof -
  obtain r rest where r: "read_line (cn_in c) = (r, rest)" by fastforce
  have "cn_in c \<noteq> []" using assms by (auto simp: run_turn_def)
  with read_line_rest[OF r] have lt: "length rest < length (cn_in c)" by simp
  have "length (cn_in (snd (run_turn E J c))) \<le> length rest"
    using r by (auto simp: run_turn_def split: framing_error.splits sum.splits command.splits prod.splits
        dest!: read_blob_rest)
  with lt show ?thesis using assms by simp
qed

function run_loop :: "ext \<Rightarrow> json_ext \<Rightarrow> 'w conn \<Rightarrow> (framing_error, unit) result \<times> 'w conn" where
  "run_loop E J c =
     (case run_turn E J c of
        (Some r, c') \<Rightarrow> (r, c')
      | (None, c') \<Rightarrow> run_loop E J c')"
  by pat_completeness auto
termination
  by (relation "measure (\<lambda>(E, J, c). length (cn_in c))")
     (simp_all, metis run_turn_consumes)

declare run_loop.simps [simp del]

definition run :: "ext \<Rightarrow> json_ext \<Rightarrow> 'w conn \<Rightarrow> (framing_error, unit) result \<times> 'w conn" where
  "run E J c =
     (case write_line (greeting (cn_session c)) (cn_out c) of
        (Inl e, out') \<Rightarrow> (Inl e, c\<lparr>cn_out := out'\<rparr>)
      | (Inr _, out') \<Rightarrow> run_loop E J (c\<lparr>cn_out := out'\<rparr>))"

definition serve_connection ::
    "ext \<Rightarrow> json_ext \<Rightarrow> ('w \<Rightarrow> bytes \<times> 'w) \<Rightarrow> rstr \<Rightarrow> bytes \<Rightarrow> 'w delivery_sink \<Rightarrow> 'w user_directory \<Rightarrow>
     bytes \<Rightarrow> 'w \<Rightarrow> (framing_error, unit) result \<times> 'w conn" where
  "serve_connection E J rnd d key k dir inp w =
     (let s = with_directory (with_sink (with_domain_key rnd d key) k) dir
      in run E J \<lparr>cn_session = s, cn_world = w, cn_in = inp, cn_out = []\<rparr>)"

subsection \<open>The session invariant\<close>

definition session_inv :: "'w session \<Rightarrow> bool" where
  "session_inv s \<longleftrightarrow>
     (state s = Authenticated \<longleftrightarrow> peer_domain s \<noteq> None) \<and>
     (addr_user s \<noteq> None \<longrightarrow> state s = Authenticated) \<and>
     addr_user s \<noteq> Some [] \<and>
     dk_domain (sess_domain_key s) = domain s"

text \<open>What no command changes.\<close>

definition same_config :: "'w session \<Rightarrow> 'w session \<Rightarrow> bool" where
  "same_config s t \<longleftrightarrow>
     domain t = domain s \<and> sess_domain_key t = sess_domain_key s \<and> sink t = sink s \<and>
     directory t = directory s \<and> address_provider t = address_provider s"

fun phase_le :: "session_state \<Rightarrow> session_state \<Rightarrow> bool" where
  "phase_le Greeting _ = True"
| "phase_le AwaitingAuth b = (b \<noteq> Greeting)"
| "phase_le Authenticated b = (b = Authenticated)"

lemmas handler_defs = on_hello_def on_auth_def on_addr_def on_invoice_def reply_ok_def

lemma same_config_refl [simp]: "same_config s s"
  by (simp add: same_config_def)

lemma same_config_trans: "same_config s t \<Longrightarrow> same_config t u \<Longrightarrow> same_config s u"
  by (simp add: same_config_def)

lemma phase_le_refl [simp]: "phase_le a a"
  by (cases a) simp_all

lemma phase_le_trans: "phase_le a b \<Longrightarrow> phase_le b c \<Longrightarrow> phase_le a c"
  by (cases a; cases b; cases c) simp_all

lemma phase_le_Authenticated: "phase_le Authenticated b \<longleftrightarrow> b = Authenticated"
  by simp

lemma handle_inv:
  assumes "handle E J cmd s w = (r, s', w')"
  shows "session_inv s \<Longrightarrow> session_inv s'" and "same_config s s'" and "phase_le (state s) (state s')"
proof -
  show "session_inv s \<Longrightarrow> session_inv s'"
    using assms by (cases cmd)
      (auto simp: handle_def handler_defs session_inv_def Let_def split: if_splits option.splits prod.splits)
  show "same_config s s'"
    using assms by (cases cmd)
      (auto simp: handle_def handler_defs same_config_def Let_def split: if_splits option.splits prod.splits)
  show "phase_le (state s) (state s')"
    using assms by (cases cmd)
      (auto simp: handle_def handler_defs Let_def split: if_splits option.splits prod.splits)
qed

lemma handle_unauthenticated_world:
  "handle E J cmd s w = (r, s', w') \<Longrightarrow> state s \<noteq> Authenticated \<Longrightarrow> w' = w"
  by (cases cmd)
     (auto simp: handle_def handler_defs Let_def split: if_splits option.splits prod.splits)

text \<open>How a command acts on the world: not at all, by minting an address, or by one delivery.\<close>

lemma handle_world_cases:
  assumes "handle E J cmd s w = (r, s', w')"
  obtains "w' = w"
  | m where "w' = snd (address_provider s m w)"
  | k u d sender mid p b where "sink s = Some k" "addr_user s = Some u" "peer_domain s = Some d" "mid \<noteq> []"
      "cmd = Invoice sender mid p b"
      "w' = snd (k (sender @ ''@'' @ d) mid (u @ ''@'' @ domain s) p b w)"
proof (cases cmd)
  case (Addr mode user)
  with assms have "w' = w \<or> w' = snd (address_provider s (attestation_mode_of mode) w)"
    by (auto simp: handle_def handler_defs Let_def split: if_splits prod.splits)
  then show ?thesis using that(1,2) by blast
next
  case (Invoice sender mid p b)
  with assms show ?thesis using that(1,3)
    by (auto simp: handle_def handler_defs Let_def split: if_splits option.splits prod.splits)
qed (use assms that(1) in
  \<open>auto simp: handle_def handler_defs Let_def split: if_splits option.splits\<close>)

subsection \<open>Turns and runs\<close>

lemma run_command_eq:
  assumes "handle E J cmd (cn_session c) (cn_world c) = (r, s', w')"
  shows "cn_session (snd (run_command E J cmd c)) = s'" "cn_world (snd (run_command E J cmd c)) = w'"
  using assms by (auto simp: run_command_def finish_write_def split: sum.splits prod.splits)

text \<open>A turn leaves session and world alone or handles exactly one command.\<close>

lemma run_turn_cases:
  assumes "run_turn E J c = (t, c')"
  shows "(cn_session c' = cn_session c \<and> cn_world c' = cn_world c) \<or>
    (\<exists>cmd r. handle E J cmd (cn_session c) (cn_world c) = (r, cn_session c', cn_world c'))"
    (is "?N \<or> ?C")
proof -
  obtain r rest where r: "read_line (cn_in c) = (r, rest)" by fastforce
  have c: ?C if "run_command E J cmd (c\<lparr>cn_in := x\<rparr>) = (t, c')" for cmd x
  proof -
    obtain r s' w' where h: "handle E J cmd (cn_session c) (cn_world c) = (r, s', w')"
      by (metis prod_cases3)
    with run_command_eq[of E J cmd "c\<lparr>cn_in := x\<rparr>"] that show ?thesis by auto
  qed
  show ?thesis
  proof (cases r)
    case (Inl e)
    with assms r show ?thesis by (cases e) (auto simp: run_turn_def)
  next
    case line: (Inr line)
    show ?thesis
    proof (cases "decode_line E line")
      case (Inl x)
      with line assms r show ?thesis
        by (auto simp: run_turn_def finish_write_def split: prod.splits sum.splits)
    next
      case (Inr cmd)
      with line assms r show ?thesis
        by (cases cmd) (auto simp: run_turn_def split: prod.splits sum.splits dest: c)
    qed
  qed
qed

text \<open>A property of session and world that every command keeps holds when the connection ends.\<close>

lemma run_loop_rule:
  assumes keep: "\<And>cmd s w r s' w'. P s w \<Longrightarrow> handle E J cmd s w = (r, s', w') \<Longrightarrow> P s' w'"
    and init: "P (cn_session c) (cn_world c)"
    and run: "run_loop E J c = (t, c')"
  shows "P (cn_session c') (cn_world c')"
  using keep init run
proof (induction E J c arbitrary: t c' rule: run_loop.induct)
  case (1 E J c)
  obtain t1 c1 where turn: "run_turn E J c = (t1, c1)" by fastforce
  have p: "P (cn_session c1) (cn_world c1)"
    using run_turn_cases[OF turn] 1(2)[OF 1(3)] 1(3) by auto
  show ?case
  proof (cases t1)
    case None
    with 1(4) turn have "run_loop E J c1 = (t, c')" by (simp add: run_loop.simps[of E J c])
    from 1(1)[OF turn[symmetric] None _ p this] 1(2) show ?thesis by blast
  next
    case (Some r)
    with p 1(4) turn show ?thesis by (simp add: run_loop.simps[of E J c])
  qed
qed

lemma run_rule:
  assumes keep: "\<And>cmd s w r s' w'. P s w \<Longrightarrow> handle E J cmd s w = (r, s', w') \<Longrightarrow> P s' w'"
    and init: "P (cn_session c) (cn_world c)"
    and run: "run E J c = (t, c')"
  shows "P (cn_session c') (cn_world c')"
proof -
  obtain r out where w: "write_line (greeting (cn_session c)) (cn_out c) = (r, out)" by fastforce
  show ?thesis
  proof (cases r)
    case (Inl e)
    with w run init show ?thesis by (auto simp: run_def)
  next
    case (Inr u)
    with w run have "run_loop E J (c\<lparr>cn_out := out\<rparr>) = (t, c')" by (simp add: run_def)
    from run_loop_rule[of P E J, OF keep _ this] init show ?thesis by simp
  qed
qed

subsection \<open>Sessions among other connections\<close>

text \<open>
  The sessions that can arise from \<open>s0\<close> when the world may change in any way between two
  commands, as it does when other connections share the store.
\<close>

inductive sess_reach :: "ext \<Rightarrow> json_ext \<Rightarrow> 'w session \<Rightarrow> 'w session \<Rightarrow> bool" for E J s0 where
  start: "sess_reach E J s0 s0"
| command: "sess_reach E J s0 s \<Longrightarrow> handle E J cmd s w = (r, s', w') \<Longrightarrow> sess_reach E J s0 s'"

lemma sess_reach_inv:
  assumes "sess_reach E J s0 s" "session_inv s0"
  shows "session_inv s \<and> same_config s0 s \<and> phase_le (state s0) (state s)"
  using assms
proof (induction rule: sess_reach.induct)
  case (command s cmd w r s' w')
  then show ?case using handle_inv[OF command.hyps(2)] same_config_trans phase_le_trans by blast
qed simp

text \<open>The recipient of a session was found in the directory when it was named.\<close>

lemma sess_reach_recipient:
  assumes "sess_reach E J s0 s" "session_inv s0" "addr_user s0 = None" "directory s0 = Some dir"
    and "addr_user s = Some u"
  shows "\<exists>w. dir u w"
  using assms
proof (induction arbitrary: u rule: sess_reach.induct)
  case (command s cmd w r s' w')
  have dir: "directory s = Some dir"
    using sess_reach_inv[OF command.hyps(1) command.prems(1)] command.prems(3) by (simp add: same_config_def)
  show ?case
  proof (cases "addr_user s' = addr_user s")
    case True
    with command show ?thesis by metis
  next
    case False
    with command.hyps(2) command.prems(4) dir have "dir u w"
      by (cases cmd)
        (auto simp: handle_def handler_defs user_known_def Let_def split: if_splits option.splits prod.splits)
    then show ?thesis by blast
  qed
qed simp

subsection \<open>The sink as an interface\<close>

text \<open>
  What a connection may do to the world is what its sink and its address provider may do: \<open>R\<close>
  is any preorder on worlds that contains every delivery addressed the way sessions address
  them and every minting of an address.
\<close>

locale delivery_world =
  fixes dom :: rstr and k :: "'w delivery_sink" and prov :: "'w address_provider"
    and R :: "'w \<Rightarrow> 'w \<Rightarrow> bool"
  assumes R_refl: "R w w"
    and R_trans: "R u v \<Longrightarrow> R v w \<Longrightarrow> R u w"
    and R_deliver: "user \<noteq> [] \<Longrightarrow> mid \<noteq> [] \<Longrightarrow>
      R w (snd (k (sender @ ''@'' @ d) mid (user @ ''@'' @ dom) p b w))"
    and R_mint: "R w (snd (prov m w))"
begin

definition uses :: "'w session \<Rightarrow> bool" where
  "uses s \<longleftrightarrow> session_inv s \<and> domain s = dom \<and> (sink s = None \<or> sink s = Some k) \<and> address_provider s = prov"

lemma handle_R:
  assumes "uses s" "handle E J cmd s w = (r, s', w')" shows "uses s' \<and> R w w'"
proof -
  have "R w w'"
  proof (rule handle_world_cases[OF assms(2)])
    assume "w' = w" then show ?thesis by (simp add: R_refl)
  next
    fix m assume "w' = snd (address_provider s m w)"
    with assms(1) show ?thesis by (simp add: R_mint uses_def)
  next
    fix k' u d sender mid p b
    assume "sink s = Some k'" "addr_user s = Some u" "mid \<noteq> []"
      "w' = snd (k' (sender @ ''@'' @ d) mid (u @ ''@'' @ domain s) p b w)"
    with assms(1) show ?thesis using R_deliver[of u mid w sender d p b]
      by (auto simp: uses_def session_inv_def)
  qed
  with handle_inv[OF assms(2)] assms(1) show ?thesis by (simp add: uses_def same_config_def)
qed

lemma turn_R:
  assumes "uses (cn_session c)" "run_turn E J c = (t, c')" shows "uses (cn_session c') \<and> R (cn_world c) (cn_world c')"
  using run_turn_cases[OF assms(2)] handle_R[OF assms(1)] assms(1) by (auto simp: R_refl)

lemma run_R: "uses (cn_session c) \<Longrightarrow> run E J c = (t, c') \<Longrightarrow> R (cn_world c) (cn_world c')"
  using run_rule[of "\<lambda>s w. uses s \<and> R (cn_world c) w" E J c t c'] handle_R R_refl R_trans by blast

end

lemma with_domain_key_sel [simp]:
  "state (with_domain_key rnd d key) = Greeting" "domain (with_domain_key rnd d key) = d"
  "sess_domain_key (with_domain_key rnd d key) = \<lparr>dk_domain = d, dk_signing = key\<rparr>"
  "peer_domain (with_domain_key rnd d key) = None" "addr_user (with_domain_key rnd d key) = None"
  "address_provider (with_domain_key rnd d key) = placeholder_mint rnd"
  by (simp_all add: with_domain_key_def)

definition daemon_session ::
    "('w \<Rightarrow> bytes \<times> 'w) \<Rightarrow> rstr \<Rightarrow> bytes \<Rightarrow> 'w delivery_sink \<Rightarrow> 'w user_directory \<Rightarrow> 'w session" where
  "daemon_session rnd d key k dir = with_directory (with_sink (with_domain_key rnd d key) k) dir"

lemma daemon_session_sel [simp]:
  "state (daemon_session rnd d key k dir) = Greeting" "domain (daemon_session rnd d key k dir) = d"
  "sess_domain_key (daemon_session rnd d key k dir) = \<lparr>dk_domain = d, dk_signing = key\<rparr>"
  "peer_domain (daemon_session rnd d key k dir) = None" "addr_user (daemon_session rnd d key k dir) = None"
  "sink (daemon_session rnd d key k dir) = Some k" "directory (daemon_session rnd d key k dir) = Some dir"
  "address_provider (daemon_session rnd d key k dir) = placeholder_mint rnd"
  by (simp_all add: daemon_session_def with_directory_def with_sink_def)

lemma daemon_session_inv [simp]: "session_inv (daemon_session rnd d key k dir)"
  by (simp add: session_inv_def)

lemma serve_connection_run:
  "serve_connection E J rnd d key k dir inp w =
     run E J \<lparr>cn_session = daemon_session rnd d key k dir, cn_world = w, cn_in = inp, cn_out = []\<rparr>"
  by (simp add: serve_connection_def daemon_session_def Let_def)

subsection \<open>The conversation, without bytes\<close>

text \<open>
  The contract of a session at the level of commands: each command is handled in turn and
  answered by one reply, up to and including the first QUIT.
\<close>

definition reply_of :: "(session_error, reply) result \<Rightarrow> reply" where
  "reply_of r = (case r of Inr x \<Rightarrow> x | Inl _ \<Rightarrow> ReplyStatus (mk_status BAD_SEQUENCE ''command not allowed now''))"

fun converse :: "ext \<Rightarrow> json_ext \<Rightarrow> command list \<Rightarrow> 'w session \<Rightarrow> 'w \<Rightarrow> reply list \<times> 'w session \<times> 'w" where
  "converse E J [] s w = ([], s, w)"
| "converse E J (cmd # cmds) s w =
     (case handle E J cmd s w of (r, s', w') \<Rightarrow>
        if cmd = Quit then ([reply_of r], s', w')
        else (case converse E J cmds s' w' of (rs, s'', w'') \<Rightarrow> (reply_of r # rs, s'', w'')))"

definition reply_bytes :: "reply \<Rightarrow> bytes" where
  "reply_bytes r =
     (case r of ReplyStatus st \<Rightarrow> line_bytes (render st)
      | StatusWithBlob st b \<Rightarrow> line_bytes (render st) @ blob_bytes b)"

definition reply_fits :: "reply \<Rightarrow> bool" where
  "reply_fits r =
     (case r of ReplyStatus st \<Rightarrow> length (render st) \<le> MAX_LINE
      | StatusWithBlob st b \<Rightarrow> length (render st) \<le> MAX_LINE \<and> length b \<le> MAX_BLOB)"

text \<open>A command as the peer sends it: its line, and for an INVOICE the blob after it.\<close>

definition without_body :: "command \<Rightarrow> command" where
  "without_body cmd = (case cmd of Invoice s m p b \<Rightarrow> Invoice s m p [] | _ \<Rightarrow> cmd)"

definition body_of :: "command \<Rightarrow> bytes" where
  "body_of cmd = (case cmd of Invoice s m p b \<Rightarrow> b | _ \<Rightarrow> [])"

definition command_line :: "ext \<Rightarrow> command \<Rightarrow> rstr" where
  "command_line E cmd = (case encode_line E cmd of Inr l \<Rightarrow> l | Inl _ \<Rightarrow> [])"

definition command_bytes :: "ext \<Rightarrow> command \<Rightarrow> bytes" where
  "command_bytes E cmd =
     line_bytes (command_line E cmd) @ (case cmd of Invoice s m p b \<Rightarrow> blob_bytes b | _ \<Rightarrow> [])"

definition command_fits :: "ext \<Rightarrow> command \<Rightarrow> bool" where
  "command_fits E cmd \<longleftrightarrow>
     encodable (without_body cmd) \<and> line_fits (command_line E cmd) \<and> length (body_of cmd) \<le> MAX_BLOB"

lemma write_reply_fits: "reply_fits r \<Longrightarrow> write_reply r out = (Inr (), out @ reply_bytes r)"
  by (cases r) (simp_all add: write_reply_def reply_fits_def reply_bytes_def write_line_def line_bytes_eq
      write_blob_ok blob_bytes_eq)

lemma run_command_reply:
  assumes "handle E J cmd (cn_session c) (cn_world c) = (r, s', w')" "reply_fits (reply_of r)"
  shows "run_command E J cmd c =
    (if cmd = Quit then Some (Inr ()) else None,
     c\<lparr>cn_session := s', cn_world := w', cn_out := cn_out c @ reply_bytes (reply_of r)\<rparr>)"
proof (cases r)
  case (Inl e)
  with assms show ?thesis
    by (simp add: run_command_def finish_write_def reply_of_def reply_bytes_def reply_fits_def
        write_line_def line_bytes_eq)
next
  case (Inr x)
  with assms write_reply_fits[of x "cn_out c"] show ?thesis
    by (simp add: run_command_def finish_write_def reply_of_def)
qed

lemma decode_command_line:
  "b64_ok E \<Longrightarrow> encodable (without_body cmd) \<Longrightarrow> decode_line E (command_line E cmd) = Inr (without_body cmd)"
  by (cases cmd)
     (simp_all add: command_line_def without_body_def encode_line_def decode_hello decode_auth decode_addr
       decode_invoice_line decode_status_line decode_quit del: append_Cons append_assoc)

lemma run_turn_command:
  assumes "b64_ok E" "command_fits E cmd" "cn_in c = command_bytes E cmd @ rest"
  shows "run_turn E J c = run_command E J cmd (c\<lparr>cn_in := rest\<rparr>)"
proof -
  have rl: "read_line (line_bytes (command_line E cmd) @ x) = (Inr (command_line E cmd), x)" for x
    using assms(2) by (intro line_frame.rd_wr) (simp add: command_fits_def)
  have rb: "read_blob (blob_bytes (body_of cmd) @ rest) = (Inr (body_of cmd), rest)"
    using assms(2) by (intro blob_frame.rd_wr) (simp add: command_fits_def blob_fits_def)
  have dc: "decode_line E (command_line E cmd) = Inr (without_body cmd)"
    using assms(1,2) by (intro decode_command_line) (simp_all add: command_fits_def)
  show ?thesis
  proof (cases cmd)
    case (Invoice s m p b)
    then show ?thesis using rl rb dc assms(3)
      by (simp add: run_turn_def command_bytes_def without_body_def body_of_def)
  qed (use rl dc assms(3) in \<open>simp_all add: run_turn_def command_bytes_def without_body_def\<close>)
qed

lemma run_turn_eof: "cn_in c = [] \<Longrightarrow> run_turn E J c = (Some (Inr ()), c\<lparr>cn_in := []\<rparr>)"
  by (simp add: run_turn_def)

text \<open>The byte-level loop refines the conversation.\<close>

lemma run_loop_converse:
  assumes "b64_ok E" "list_all (command_fits E) cmds"
    and "converse E J cmds (cn_session c) (cn_world c) = (rs, s', w')" "list_all reply_fits rs"
    and "cn_in c = concat (map (command_bytes E) cmds)"
  shows "\<exists>rest. run_loop E J c =
    (Inr (), \<lparr>cn_session = s', cn_world = w', cn_in = rest, cn_out = cn_out c @ concat (map reply_bytes rs)\<rparr>)"
  using assms
proof (induction cmds arbitrary: c rs)
  case Nil
  then show ?case by (cases c) (subst run_loop.simps, auto simp: run_turn_eof)
next
  case (Cons cmd cmds)
  let ?rest = "concat (map (command_bytes E) cmds)"
  obtain r s1 w1 where h: "handle E J cmd (cn_session c) (cn_world c) = (r, s1, w1)" by (metis prod_cases3)
  define c1 where "c1 = \<lparr>cn_session = s1, cn_world = w1, cn_in = ?rest, cn_out = cn_out c @ reply_bytes (reply_of r)\<rparr>"
  have fit: "reply_fits (reply_of r)" using Cons.prems(3,4) h by (auto split: if_splits prod.splits)
  have "run_turn E J c = run_command E J cmd (c\<lparr>cn_in := ?rest\<rparr>)"
    using Cons.prems by (intro run_turn_command) simp_all
  also have "\<dots> = (if cmd = Quit then Some (Inr ()) else None, c1)"
    by (subst run_command_reply[OF _ fit]) (use h in \<open>simp_all add: c1_def, cases c, simp\<close>)
  finally have t: "run_turn E J c = (if cmd = Quit then Some (Inr ()) else None, c1)" .
  show ?case
  proof (cases "cmd = Quit")
    case True
    then show ?thesis using t h Cons.prems(3) by (subst run_loop.simps) (auto simp: c1_def)
  next
    case False
    then obtain rs1 where r1: "converse E J cmds s1 w1 = (rs1, s', w')" "rs = reply_of r # rs1"
      using Cons.prems(3) h by (auto split: prod.splits)
    have "\<exists>rest. run_loop E J c1 =
      (Inr (), \<lparr>cn_session = s', cn_world = w', cn_in = rest, cn_out = cn_out c1 @ concat (map reply_bytes rs1)\<rparr>)"
      using Cons.prems r1 by (intro Cons.IH) (simp_all add: c1_def)
    then show ?thesis using False t r1 by (subst run_loop.simps) (simp add: c1_def)
  qed
qed

lemma run_converse:
  assumes "b64_ok E" "list_all (command_fits E) cmds"
    and "converse E J cmds (daemon_session rnd d key k dir) w = (rs, s', w')" "list_all reply_fits rs"
    and "length (greeting (daemon_session rnd d key k dir)) \<le> MAX_LINE"
  shows "\<exists>rest. serve_connection E J rnd d key k dir (concat (map (command_bytes E) cmds)) w =
    (Inr (), \<lparr>cn_session = s', cn_world = w', cn_in = rest,
       cn_out = line_bytes (''ZSMTP 1.0 '' @ d) @ concat (map reply_bytes rs)\<rparr>)"
  using run_loop_converse[OF assms(1,2), of J
      "\<lparr>cn_session = daemon_session rnd d key k dir, cn_world = w,
        cn_in = concat (map (command_bytes E) cmds), cn_out = line_bytes (''ZSMTP 1.0 '' @ d)\<rparr>" rs s' w']
    assms(3-5)
  by (simp add: serve_connection_run run_def write_line_def line_bytes_eq greeting_def)

subsection \<open>Properties\<close>

text \<open>
  C5. The byte-level connection loop implements the command-level conversation: on the bytes of
  any sequence of well-formed commands whose replies fit their frames, the server writes its
  greeting and then exactly one reply per command, in order, up to and including the reply to
  the first QUIT; the final session and world are those of handling the commands in turn, and
  the connection ends without an error.
\<close>

theorem serve_connection_refines_converse:
  assumes "b64_ok E" "list_all (command_fits E) cmds"
    and "converse E J cmds (daemon_session rnd d key k dir) w = (rs, s', w')"
    and "list_all reply_fits rs" "10 + length d \<le> MAX_LINE"
  shows "\<exists>rest. serve_connection E J rnd d key k dir (concat (map (command_bytes E) cmds)) w =
    (Inr (), \<lparr>cn_session = s', cn_world = w', cn_in = rest,
       cn_out = line_bytes (''ZSMTP 1.0 '' @ d) @ concat (map reply_bytes rs)\<rparr>)"
  using assms by (intro run_converse) (simp_all add: greeting_def)

theorem serve_connection_refines_converse_witness:
  "\<exists>rest. serve_connection demo_ext undefined (\<lambda>w. ([], w)) ''b'' [] (\<lambda>_ _ _ _ _ w. (Accepted [], w)) (\<lambda>_ _. True)
      (concat (map (command_bytes demo_ext) [Hello ''a'', Quit])) () =
    (Inr (), \<lparr>cn_session = (daemon_session (\<lambda>w. ([], w)) ''b'' [] (\<lambda>_ _ _ _ _ w. (Accepted [], w)) (\<lambda>_ _. True))
                \<lparr>state := AwaitingAuth\<rparr>,
       cn_world = (), cn_in = rest,
       cn_out = line_bytes ''ZSMTP 1.0 b'' @
         concat (map reply_bytes [ReplyStatus (mk_status OK ''Hello a''),
                                  ReplyStatus (mk_status (StatusCode 221) ''b closing connection'')])\<rparr>)"
proof -
  let ?s = "daemon_session (\<lambda>w::unit. ([], w)) ''b'' [] (\<lambda>_ _ _ _ _ w. (Accepted [], w)) (\<lambda>_ _. True)"
  have f: "list_all (command_fits demo_ext) [Hello ''a'', Quit]"
    by (simp add: command_fits_def without_body_def body_of_def command_line_def encode_line_def
        line_fits_def line_ok_def MAX_LINE_def LF_def)
  have c: "converse demo_ext undefined [Hello ''a'', Quit] ?s () =
      ([ReplyStatus (mk_status OK ''Hello a''), ReplyStatus (mk_status (StatusCode 221) ''b closing connection'')],
       ?s\<lparr>state := AwaitingAuth\<rparr>, ())"
    by (simp add: handle_def on_hello_def reply_ok_def reply_of_def)
  have r: "list_all reply_fits [ReplyStatus (mk_status OK ''Hello a''),
      ReplyStatus (mk_status (StatusCode 221) ''b closing connection'')]"
    using show_nat_length[of 250 3] show_nat_length[of 221 3]
    by (simp add: reply_fits_def render_def show_code_def OK_def MAX_LINE_def)
  from serve_connection_refines_converse[OF demo_b64_ok f c r] show ?thesis
    by (simp add: MAX_LINE_def)
qed

text \<open>
  C22. Nothing a peer sends before a successful AUTH touches the world: whatever bytes arrive, if
  the connection ends in a state other than Authenticated, no address was minted and nothing was
  delivered.
\<close>

theorem unauthenticated_connection_no_effect:
  assumes "serve_connection E J rnd d key k dir inp w = (r, c')"
    and "state (cn_session c') \<noteq> Authenticated"
  shows "cn_world c' = w"
proof -
  have "cn_world c' = w \<or> state (cn_session c') = Authenticated"
  proof (rule run_rule[of "\<lambda>s v. v = w \<or> state s = Authenticated"])
    fix cmd s v r s' v'
    assume "v = w \<or> state s = Authenticated" "handle E J cmd s v = (r, s', v')"
    then show "v' = w \<or> state s' = Authenticated"
      using handle_unauthenticated_world handle_inv(3) phase_le_Authenticated by metis
  qed (use assms(1) in \<open>simp_all add: serve_connection_run\<close>)
  with assms(2) show ?thesis by simp
qed

theorem unauthenticated_connection_no_effect_witness:
  "cn_world (snd (serve_connection demo_ext undefined (\<lambda>w. ([], w)) ''b'' []
      (\<lambda>_ _ _ _ _ w. (Accepted [], Suc w)) (\<lambda>_ _. True) ''QUIT'' (0::nat))) = 0"
proof -
  let ?r = "serve_connection demo_ext undefined (\<lambda>w. ([], w)) ''b'' []
      (\<lambda>_ _ _ _ _ w. (Accepted [], Suc w)) (\<lambda>_ _. True) ''QUIT'' (0::nat)"
  have "state (cn_session (snd ?r)) \<noteq> Authenticated"
    by (simp add: serve_connection_run run_def run_loop.simps run_turn_def read_line_def read_until_def
        line_utf8_def strip_suffix_def CRLF_def CR_def LF_def MAX_LINE_def write_line_def greeting_def)
  from unauthenticated_connection_no_effect[OF prod.collapse[symmetric] this] show ?thesis .
qed

text \<open>
  C13. In every session the daemon can reach, with any interleaving of other connections that change
  the world, an INVOICE either leaves the world alone and is answered by an error status, or makes
  exactly one delivery: to a user that was in the directory when ADDR named it, at this server's
  domain, from the domain given in AUTH, with the message id, payload kind and body of the command.
\<close>

theorem invoice_delivers_as_addressed:
  assumes "sess_reach E J (daemon_session rnd d key k dir) s"
    and "handle E J (Invoice sender mid p b) s w = (r, s', w')"
  shows "s' = s \<and>
    ((\<exists>u sd v. addr_user s = Some u \<and> peer_domain s = Some sd \<and> dir u v \<and> mid \<noteq> [] \<and>
        w' = snd (k (sender @ ''@'' @ sd) mid (u @ ''@'' @ d) p b w) \<and>
        r = outcome_reply (fst (k (sender @ ''@'' @ sd) mid (u @ ''@'' @ d) p b w))) \<or>
     (w' = w \<and> (\<exists>st. r = Inr (ReplyStatus st) \<and> is_permanent (code st))))"
proof -
  note inv = sess_reach_inv[OF assms(1) daemon_session_inv]
  then have cfg: "domain s = d" "sink s = Some k" by (simp_all add: same_config_def)
  have rec: "addr_user s = Some u \<Longrightarrow> \<exists>v. dir u v" for u
    using sess_reach_recipient[OF assms(1), of dir u] by simp
  show ?thesis
    using assms(2) cfg rec
    by (auto simp: handle_def on_invoice_def reply_ok_def is_permanent_def status_code_defs
        split: if_splits option.splits prod.splits)
qed

theorem invoice_delivers_as_addressed_witness:
  "\<exists>s. sess_reach demo_ext undefined (daemon_session (\<lambda>w. ([], w)) ''b'' []
        (\<lambda>_ _ _ _ _ w. (Accepted [], Suc w)) (\<lambda>_ _. True)) s \<and>
     (let (r, s', w') = handle demo_ext undefined (Invoice ''x'' ''m'' Plaintext ''hi'') s 0 in s' = s \<and> w' = Suc 0)"
proof -
  let ?J = "undefined :: json_ext"
  let ?s0 = "daemon_session (\<lambda>w::nat. ([], w)) ''b'' [] (\<lambda>_ _ _ _ _ w. (Accepted [], Suc w)) (\<lambda>_ _. True)"
  define ch where "ch = challenge_issue ''a'' ''b'' (replicate 16 CHR 0x01) 5"
  define s1 where "s1 = ?s0\<lparr>state := AwaitingAuth\<rparr>"
  define s2 where "s2 = s1\<lparr>state := Authenticated, peer_domain := Some ''a''\<rparr>"
  define s3 where "s3 = s2\<lparr>addr_user := Some ''u''\<rparr>"
  have ok: "challenge_ok ch" "bar_free ch"
    by (simp_all add: ch_def challenge_issue_def challenge_ok_def i64_range_def bar_free_def BAR_def)
  have "ascii (to_wire ch)"
    by (simp add: to_wire_def ch_def challenge_issue_def del: hex_simps)
  then have wire: "from_wire (from_utf8_lossy (to_wire ch)) = Some ch"
    using from_wire_to_wire[OF ok] by simp
  have "\<exists>r. handle demo_ext ?J (Hello ''a'') ?s0 0 = (r, s1, 0)"
    by (simp add: handle_def on_hello_def s1_def)
  then have r1: "sess_reach demo_ext ?J ?s0 s1" using sess_reach.intros by metis
  have "\<exists>r. handle demo_ext ?J (Auth (to_wire ch)) s1 0 = (r, s2, 0)"
    using wire by (simp add: handle_def on_auth_def s1_def s2_def Let_def ch_def challenge_issue_def)
  then have r2: "sess_reach demo_ext ?J ?s0 s2" using r1 sess_reach.intros by metis
  have "\<exists>r w. handle demo_ext ?J (Addr AddrAttested ''u'') s2 0 = (r, s3, w)"
    by (simp add: handle_def on_addr_def s1_def s2_def s3_def user_known_def Let_def split: prod.splits)
  then have r3: "sess_reach demo_ext ?J ?s0 s3" using r2 sess_reach.intros by metis
  have h: "handle demo_ext ?J (Invoice ''x'' ''m'' Plaintext ''hi'') s3 0 =
      (outcome_reply (Accepted []), s3, Suc 0)"
    by (simp add: handle_def on_invoice_def s1_def s2_def s3_def)
  from invoice_delivers_as_addressed[OF r3 h] r3 h show ?thesis
    by (intro exI[of _ s3]) simp
qed

text \<open>
  The reply to HELLO repeats the peer's domain, so a HELLO line close to the limit has a reply
  above it: for a domain of 4087 or 4088 bytes the line is read, the greeting is accepted, and the
  connection ends with \<open>LineTooLong\<close> before any reply is sent.
\<close>

theorem long_hello_ends_connection:
  assumes "b64_ok E" "command_fits E (Hello pd)" "MAX_LINE < 10 + length pd"
    and "state (cn_session c) = Greeting" "cn_in c = command_bytes E (Hello pd) @ rest"
  shows "run_loop E J c =
    (Inl (LineTooLong MAX_LINE), c\<lparr>cn_in := rest, cn_session := (cn_session c)\<lparr>state := AwaitingAuth\<rparr>\<rparr>)"
proof -
  have "pd \<noteq> []" using assms(3) by (auto simp: MAX_LINE_def)
  moreover have "show_nat 250 = ''250''" by code_simp
  ultimately have "run_command E J (Hello pd) (c\<lparr>cn_in := rest\<rparr>) =
    (Some (Inl (LineTooLong MAX_LINE)), c\<lparr>cn_in := rest, cn_session := (cn_session c)\<lparr>state := AwaitingAuth\<rparr>\<rparr>)"
    using assms(3,4)
    by (simp add: run_command_def handle_def on_hello_def reply_ok_def write_reply_def write_line_def
        finish_write_def render_def show_code_def OK_def)
  with run_turn_command[OF assms(1,2,5), of J] show ?thesis by (subst run_loop.simps) simp
qed

theorem long_hello_ends_connection_witness:
  "fst (run_loop demo_ext undefined
     \<lparr>cn_session = daemon_session (\<lambda>w::unit. ([], w)) ''b'' [] (\<lambda>_ _ _ _ _ w. (Accepted [], w)) (\<lambda>_ _. True),
      cn_world = (), cn_in = command_bytes demo_ext (Hello (replicate 4087 CHR ''a'')) @ [], cn_out = []\<rparr>) =
   Inl (LineTooLong MAX_LINE)"
proof -
  have "command_fits demo_ext (Hello (replicate 4087 CHR ''a''))"
    by (simp add: command_fits_def without_body_def body_of_def command_line_def encode_line_def
        line_fits_def line_ok_def MAX_LINE_def LF_def ascii_def)
  from long_hello_ends_connection[OF demo_b64_ok this, of
      "\<lparr>cn_session = daemon_session (\<lambda>w::unit. ([], w)) ''b'' [] (\<lambda>_ _ _ _ _ w. (Accepted [], w)) (\<lambda>_ _. True),
        cn_world = (), cn_in = command_bytes demo_ext (Hello (replicate 4087 CHR ''a'')) @ [], cn_out = []\<rparr>" "[]"]
  show ?thesis by (simp add: MAX_LINE_def)
qed

end
