(* ===== verification/Mailstore_Types.thy ===== *)
theory Mailstore_Types
  imports Rust_Str
begin

unbundle bit_operations_syntax

text \<open>
  The types of the mail store (\<^verbatim>\<open>talk-mailstore/src/lib.rs\<close>): users, messages and their
  flag bits, the transaction ledger, keyring and share entries, and the resolution of a login
  name against the local domain. A row id is an \<^verbatim>\<open>i64\<close>, an \<^typ>\<open>int\<close> here; flag masks, UIDs and
  UIDVALIDITY keep their 32 bits.
\<close>

definition INBOX :: rstr where "INBOX = ''INBOX''"
definition SENT :: rstr where "SENT = ''Sent''"

record user =
  user_id :: int
  user_name :: rstr
  user_master_pubkey :: bytes
  user_ivk_commitment :: "rstr option"
  user_registration_attestation :: "rstr option"

record user_summary =
  us_id :: int
  us_username :: rstr
  us_created_at :: int
  us_has_ivk :: bool
  us_has_attestation :: bool

subsection \<open>The ledger\<close>

datatype tx_direction = TxIn | TxOut

definition tx_direction_str :: "tx_direction \<Rightarrow> rstr" where
  "tx_direction_str d = (case d of TxIn \<Rightarrow> ''in'' | TxOut \<Rightarrow> ''out'')"

definition tx_direction_parse :: "rstr \<Rightarrow> tx_direction option" where
  "tx_direction_parse s = (if s = ''in'' then Some TxIn else if s = ''out'' then Some TxOut else None)"

datatype tx_state = TxOpaque | TxResolved | TxSpent | TxSent | TxFailed | TxRetrying

definition tx_state_str :: "tx_state \<Rightarrow> rstr" where
  "tx_state_str s =
     (case s of TxOpaque \<Rightarrow> ''opaque'' | TxResolved \<Rightarrow> ''resolved'' | TxSpent \<Rightarrow> ''spent''
      | TxSent \<Rightarrow> ''sent'' | TxFailed \<Rightarrow> ''failed'' | TxRetrying \<Rightarrow> ''retrying'')"

definition tx_state_parse :: "rstr \<Rightarrow> tx_state option" where
  "tx_state_parse s =
     (if s = ''opaque'' then Some TxOpaque else if s = ''resolved'' then Some TxResolved
      else if s = ''spent'' then Some TxSpent else if s = ''sent'' then Some TxSent
      else if s = ''failed'' then Some TxFailed else if s = ''retrying'' then Some TxRetrying
      else None)"

record new_transaction =
  nt_direction :: tx_direction
  nt_state :: tx_state
  nt_sender_mailbox :: rstr
  nt_recipient_mailbox :: rstr
  nt_amount :: rstr
  nt_binding :: "rstr option"
  nt_message_id :: rstr
  nt_outbound_body :: "bytes option"
  nt_payload :: rstr

record transaction =
  tx_id :: int
  tx_dir :: tx_direction
  tx_st :: tx_state
  tx_sender_mailbox :: rstr
  tx_recipient_mailbox :: rstr
  tx_amount :: rstr
  tx_binding :: "rstr option"
  tx_message_id :: rstr
  tx_message_row_id :: "int option"
  tx_outbound_body :: "bytes option"
  tx_payload :: rstr
  tx_created_at :: int
  tx_updated_at :: int

subsection \<open>Keyring and shares\<close>

record keyring_entry =
  ke_sender_mailbox :: rstr
  ke_sender_pubkey :: rstr
  ke_state :: rstr
  ke_first_seen :: int

record share_entry =
  se_share_id :: rstr
  se_wrapped_dk :: bytes
  se_revoked :: bool

subsection \<open>Messages\<close>

datatype message_flags = MessageFlags (bits: "32 word")

definition SEEN :: "32 word" where "SEEN = push_bit 0 1"
definition ANSWERED :: "32 word" where "ANSWERED = push_bit 1 1"
definition FLAGGED :: "32 word" where "FLAGGED = push_bit 2 1"
definition DELETED :: "32 word" where "DELETED = push_bit 3 1"

definition flags_default :: message_flags where "flags_default = MessageFlags 0"

definition flags_contains :: "message_flags \<Rightarrow> 32 word \<Rightarrow> bool" where
  "flags_contains f flag \<longleftrightarrow> bits f AND flag \<noteq> 0"

definition flags_insert :: "message_flags \<Rightarrow> 32 word \<Rightarrow> message_flags" where
  "flags_insert f flag = MessageFlags (bits f OR flag)"

definition flags_remove :: "message_flags \<Rightarrow> 32 word \<Rightarrow> message_flags" where
  "flags_remove f flag = MessageFlags (bits f AND NOT flag)"

definition is_seen :: "message_flags \<Rightarrow> bool" where
  "is_seen f = flags_contains f SEEN"

definition is_deleted :: "message_flags \<Rightarrow> bool" where
  "is_deleted f = flags_contains f DELETED"

record message_meta =
  mm_id :: int
  mm_message_id :: rstr
  mm_uid :: "32 word"
  mm_uidvalidity :: "32 word"
  mm_internaldate :: int
  mm_flags :: message_flags
  mm_subject :: rstr
  mm_size :: nat
  mm_sender :: rstr
  mm_trust_state :: rstr
  mm_tx_state :: "rstr option"
  mm_tx_id :: "int option"

record message =
  msg_meta :: message_meta
  msg_body :: bytes

record new_message =
  nm_message_id :: rstr
  nm_subject :: rstr
  nm_body :: bytes
  nm_flags :: message_flags
  nm_sender :: rstr
  nm_trust_state :: rstr

definition new_message_invoice :: "rstr \<Rightarrow> rstr \<Rightarrow> bytes \<Rightarrow> new_message" where
  "new_message_invoice mid subject body =
     \<lparr>nm_message_id = mid, nm_subject = subject, nm_body = body, nm_flags = flags_default,
      nm_sender = [], nm_trust_state = ''unverified''\<rparr>"

subsection \<open>Login names\<close>

definition local_username :: "rstr \<Rightarrow> rstr \<Rightarrow> rstr option" where
  "local_username login local_domain =
     (let l = trim login in
      if l = [] then None
      else (case split_once (CHR ''@'') l of
              None \<Rightarrow> Some l
            | Some (loc, dmn) \<Rightarrow>
                if loc = [] then None
                else if eq_ignore_ascii_case dmn local_domain then Some loc else None))"

datatype sqlite_error = UniqueViolation | ForeignKeyViolation

datatype store_error =
    UserNotFound rstr
  | UserIdNotFound int
  | MailboxNotFound
  | MessageNotFound
  | DuplicateMessage rstr
  | Storage sqlite_error
  | Poisoned

subsection \<open>Facts\<close>

lemma tx_direction_roundtrip [simp]: "tx_direction_parse (tx_direction_str d) = Some d"
  by (cases d) (simp_all add: tx_direction_parse_def tx_direction_str_def)

lemma tx_state_roundtrip [simp]: "tx_state_parse (tx_state_str s) = Some s"
  by (cases s) (simp_all add: tx_state_parse_def tx_state_str_def)

lemma tx_direction_str_inj [simp]: "tx_direction_str a = tx_direction_str b \<longleftrightarrow> a = b"
  by (metis option.inject tx_direction_roundtrip)

lemma tx_state_str_inj [simp]: "tx_state_str a = tx_state_str b \<longleftrightarrow> a = b"
  by (metis option.inject tx_state_roundtrip)

lemma flag_bits:
  "flags_contains (flags_insert f m) n \<longleftrightarrow> flags_contains f n \<or> m AND n \<noteq> 0"
  "flags_contains (flags_remove f m) n \<longleftrightarrow> bits f AND n AND NOT m \<noteq> 0"
  by (auto simp: flags_contains_def flags_insert_def flags_remove_def bit_eq_iff bit_simps)

text \<open>A foreign domain never aliases a local user; the local part has no \<open>@\<close>.\<close>

lemma local_username_Some:
  assumes "local_username login home = Some u"
  shows "u \<noteq> [] \<and> CHR ''@'' \<notin> set u \<and>
    (trim login = u \<or> (\<exists>d. trim login = u @ CHR ''@'' # d \<and> eq_ignore_ascii_case d home))"
proof (cases "split_once (CHR ''@'') (trim login)")
  case None
  then have "CHR ''@'' \<notin> set (trim login)" by (auto simp: split_once_def split: if_splits)
  with None assms show ?thesis by (auto simp: local_username_def Let_def split: if_splits)
next
  case (Some p)
  obtain loc d where p: "p = (loc, d)" by fastforce
  from split_once_SomeD[OF Some[unfolded p]] assms Some p show ?thesis
    by (auto simp: local_username_def Let_def split: if_splits)
qed

subsection \<open>Properties\<close>

text \<open>
  Login names: a bare name of one word and the same name qualified with the local domain, in any
  ASCII case of the domain, resolve to the same user; a name qualified with a domain that is
  not the local one resolves to nobody.
\<close>

theorem local_username_correct:
  assumes "token u" "CHR ''@'' \<notin> set u" "token (u @ CHR ''@'' # d)"
  shows "local_username u home = Some u \<and>
    local_username (u @ CHR ''@'' # d) home = (if eq_ignore_ascii_case d home then Some u else None)"
  using assms token_nonempty[OF assms(1)] by (simp add: local_username_def trim_token)

theorem local_username_correct_witness:
  "local_username ''bob'' ''talk.local'' = Some ''bob'' \<and>
   local_username (''bob'' @ CHR ''@'' # ''TALK.Local'') ''talk.local'' = Some ''bob'' \<and>
   local_username (''bob'' @ CHR ''@'' # ''evil.org'') ''talk.local'' = None"
proof -
  have t: "token ''bob''" "token (''bob'' @ CHR ''@'' # ''TALK.Local'')" "token (''bob'' @ CHR ''@'' # ''evil.org'')"
    by (auto intro!: printable_token simp: byte_def)
  have e: "eq_ignore_ascii_case ''TALK.Local'' ''talk.local''" "\<not> eq_ignore_ascii_case ''evil.org'' ''talk.local''"
    by code_simp+
  from local_username_correct[OF t(1) _ t(2), of "''talk.local''"]
    local_username_correct[OF t(1) _ t(3), of "''talk.local''"] e
  show ?thesis by simp
qed

end
