(* ===== verification/Sqlite.thy ===== *)
theory Sqlite
  imports Mailstore_Types "HOL-Library.List_Lexorder" "HOL-Library.Char_ord"
begin

unbundle bit_operations_syntax

text \<open>
  The SQLite mail store (\<^verbatim>\<open>talk-mailstore/src/sqlite.rs\<close>). A table is the list of its rows
  in insertion order; a new row id is one above the largest in use, as SQLite assigns it to an
  \<^verbatim>\<open>INTEGER PRIMARY KEY\<close> without \<^verbatim>\<open>AUTOINCREMENT\<close>. UNIQUE and FOREIGN KEY constraints are
  checked where a statement can violate them. Every operation takes the lock first, which fails
  when the mutex is poisoned; the clock is an argument. Disk and I/O errors of SQLite are not
  modelled. Rows that compare equal under ORDER BY, whose order SQL leaves open, keep their
  insertion order.
\<close>

subsection \<open>Tables\<close>

record user_row =
  u_id :: int
  u_username :: rstr
  u_password_hash :: rstr
  u_master_pubkey :: bytes
  u_created_at :: int
  u_ivk_commitment :: "rstr option"
  u_registration_attestation :: "rstr option"

record keyring_row =
  k_user_id :: int
  k_sender_mailbox :: rstr
  k_sender_pubkey :: rstr
  k_attestation :: bytes
  k_state :: rstr
  k_first_seen :: int

record share_row =
  sh_user_id :: int
  sh_share_id :: rstr
  sh_wrapped_dk :: bytes
  sh_revoked :: int

record mailbox_row =
  mb_id :: int
  mb_user_id :: int
  mb_name :: rstr
  mb_uidvalidity :: "32 word"
  mb_uidnext :: int

record message_row =
  m_id :: int
  m_mailbox_id :: int
  m_message_id :: rstr
  m_uid :: int
  m_internaldate :: int
  m_flags :: "32 word"
  m_subject :: rstr
  m_size :: nat
  m_body :: bytes
  m_sender :: rstr
  m_trust_state :: rstr

record tx_row =
  t_id :: int
  t_direction :: rstr
  t_state :: rstr
  t_sender_mailbox :: rstr
  t_recipient_mailbox :: rstr
  t_amount :: rstr
  t_binding :: "rstr option"
  t_message_id :: rstr
  t_message_row_id :: "int option"
  t_outbound_body :: "bytes option"
  t_payload :: rstr
  t_created_at :: int
  t_updated_at :: int

record store =
  users :: "user_row list"
  keyring_entries :: "keyring_row list"
  shares :: "share_row list"
  mailboxes :: "mailbox_row list"
  messages :: "message_row list"
  settings :: "(rstr \<times> rstr) list"
  transactions :: "tx_row list"
  poisoned :: bool

definition store_open :: store where
  "store_open =
     \<lparr>users = [], keyring_entries = [], shares = [], mailboxes = [], messages = [], settings = [],
      transactions = [], poisoned = False\<rparr>"

subsection \<open>Statements\<close>

type_synonym 'a op = "store \<Rightarrow> (store_error, 'a) result \<times> store"

definition ret_op :: "'a \<Rightarrow> 'a op" where
  "ret_op a st = (Inr a, st)"

definition fail_op :: "store_error \<Rightarrow> 'a op" where
  "fail_op e st = (Inl e, st)"

definition bind_op :: "'a op \<Rightarrow> ('a \<Rightarrow> 'b op) \<Rightarrow> 'b op" where
  "bind_op m f st = (case m st of (Inl e, st') \<Rightarrow> (Inl e, st') | (Inr a, st') \<Rightarrow> f a st')"

definition locked :: "'a op \<Rightarrow> 'a op" where
  "locked f st = (if poisoned st then (Inl Poisoned, st) else f st)"

text \<open>A query reads the tables and changes nothing.\<close>

definition query :: "(store \<Rightarrow> 'a) \<Rightarrow> 'a op" where
  "query f = locked (\<lambda>st. (Inr (f st), st))"

definition next_rowid :: "int list \<Rightarrow> int" where
  "next_rowid ids = foldr max ids 0 + 1"

definition update_where :: "('a \<Rightarrow> bool) \<Rightarrow> ('a \<Rightarrow> 'a) \<Rightarrow> 'a list \<Rightarrow> 'a list" where
  "update_where P f = map (\<lambda>r. if P r then f r else r)"

definition count_where :: "('a \<Rightarrow> bool) \<Rightarrow> 'a list \<Rightarrow> nat" where
  "count_where P rows = length (filter P rows)"

text \<open>An UPDATE or DELETE by key that fails when it touches no row.\<close>

definition require_rows :: "nat \<Rightarrow> store_error \<Rightarrow> store \<Rightarrow> unit op" where
  "require_rows n e st' st = (if n = 0 then (Inl e, st) else (Inr (), st'))"

subsection \<open>Users\<close>

definition user_of_row :: "user_row \<Rightarrow> user" where
  "user_of_row r =
     \<lparr>user_id = u_id r, user_name = u_username r, user_master_pubkey = u_master_pubkey r,
      user_ivk_commitment = u_ivk_commitment r,
      user_registration_attestation = u_registration_attestation r\<rparr>"

definition insert_user :: "int \<Rightarrow> rstr \<Rightarrow> rstr \<Rightarrow> bytes \<Rightarrow> int op" where
  "insert_user now username password_hash master_pubkey st =
     (if username \<in> set (map u_username (users st)) then (Inl (Storage UniqueViolation), st)
      else
        (let i = next_rowid (map u_id (users st));
             row = \<lparr>u_id = i, u_username = username, u_password_hash = password_hash,
                    u_master_pubkey = master_pubkey, u_created_at = now, u_ivk_commitment = None,
                    u_registration_attestation = None\<rparr>
         in (Inr i, st\<lparr>users := users st @ [row]\<rparr>)))"

definition update_users :: "(user_row \<Rightarrow> bool) \<Rightarrow> (user_row \<Rightarrow> user_row) \<Rightarrow> unit op" where
  "update_users P f st = (Inr (), st\<lparr>users := update_where P f (users st)\<rparr>)"

definition insert_mailbox :: "int \<Rightarrow> rstr \<Rightarrow> 32 word \<Rightarrow> unit op" where
  "insert_mailbox uid name uidvalidity st =
     (if (uid, name) \<in> set (map (\<lambda>b. (mb_user_id b, mb_name b)) (mailboxes st))
      then (Inl (Storage UniqueViolation), st)
      else if uid \<notin> set (map u_id (users st)) then (Inl (Storage ForeignKeyViolation), st)
      else
        (let row = \<lparr>mb_id = next_rowid (map mb_id (mailboxes st)), mb_user_id = uid, mb_name = name,
                    mb_uidvalidity = uidvalidity, mb_uidnext = 1\<rparr>
         in (Inr (), st\<lparr>mailboxes := mailboxes st @ [row]\<rparr>)))"

definition create_user_full ::
    "int \<Rightarrow> rstr \<Rightarrow> rstr \<Rightarrow> bytes \<Rightarrow> rstr option \<Rightarrow> rstr option \<Rightarrow> user op" where
  "create_user_full now username password_hash master_pubkey ivk reg =
     locked (bind_op (insert_user now username password_hash master_pubkey) (\<lambda>i.
       bind_op (case ivk of None \<Rightarrow> ret_op ()
                | Some v \<Rightarrow> update_users (\<lambda>r. u_id r = i) (\<lambda>r. r\<lparr>u_ivk_commitment := Some v\<rparr>)) (\<lambda>_.
       bind_op (case reg of None \<Rightarrow> ret_op ()
                | Some v \<Rightarrow> update_users (\<lambda>r. u_id r = i) (\<lambda>r. r\<lparr>u_registration_attestation := Some v\<rparr>)) (\<lambda>_.
       bind_op (insert_mailbox i ''INBOX'' (word_of_int now)) (\<lambda>_.
       bind_op (insert_mailbox i ''Sent'' (word_of_int now)) (\<lambda>_.
         ret_op \<lparr>user_id = i, user_name = username, user_master_pubkey = master_pubkey,
                 user_ivk_commitment = ivk, user_registration_attestation = reg\<rparr>))))))"

definition create_user :: "int \<Rightarrow> rstr \<Rightarrow> rstr \<Rightarrow> bytes \<Rightarrow> user op" where
  "create_user now username password_hash master_pubkey =
     create_user_full now username password_hash master_pubkey None None"

definition get_user :: "rstr \<Rightarrow> user option op" where
  "get_user username =
     query (\<lambda>st. map_option user_of_row (find (\<lambda>r. u_username r = username) (users st)))"

definition password_hash :: "rstr \<Rightarrow> rstr option op" where
  "password_hash username =
     query (\<lambda>st. map_option u_password_hash (find (\<lambda>r. u_username r = username) (users st)))"

definition summary_of_row :: "user_row \<Rightarrow> user_summary" where
  "summary_of_row r =
     \<lparr>us_id = u_id r, us_username = u_username r, us_created_at = u_created_at r,
      us_has_ivk = (u_ivk_commitment r \<noteq> None), us_has_attestation = (u_registration_attestation r \<noteq> None)\<rparr>"

definition list_users :: "user_summary list op" where
  "list_users = query (\<lambda>st. map summary_of_row (sort_key u_username (users st)))"

definition set_password :: "rstr \<Rightarrow> rstr \<Rightarrow> unit op" where
  "set_password username hash =
     locked (\<lambda>st. require_rows (count_where (\<lambda>r. u_username r = username) (users st)) (UserNotFound username)
       (st\<lparr>users := update_where (\<lambda>r. u_username r = username) (\<lambda>r. r\<lparr>u_password_hash := hash\<rparr>) (users st)\<rparr>) st)"

definition set_ivk :: "rstr \<Rightarrow> rstr option \<Rightarrow> unit op" where
  "set_ivk username ivk =
     locked (\<lambda>st. require_rows (count_where (\<lambda>r. u_username r = username) (users st)) (UserNotFound username)
       (st\<lparr>users := update_where (\<lambda>r. u_username r = username) (\<lambda>r. r\<lparr>u_ivk_commitment := ivk\<rparr>) (users st)\<rparr>) st)"

text \<open>
  The LIKE operator on characters: \<open>%\<close> matches any sequence and \<open>_\<close> any one character; other
  characters match up to ASCII case.
\<close>

fun like_chars :: "bytes list \<Rightarrow> bytes list \<Rightarrow> bool" where
  "like_chars [] s = (s = [])"
| "like_chars (p # ps) s =
     (if p = ''%'' then list_ex (\<lambda>i. like_chars ps (drop i s)) [0..<Suc (length s)]
      else (case s of [] \<Rightarrow> False
            | c # t \<Rightarrow> (p = ''_'' \<or> eq_ignore_ascii_case p c) \<and> like_chars ps t))"

definition like :: "rstr \<Rightarrow> rstr \<Rightarrow> bool" where
  "like text pattern = like_chars (chars pattern) (chars text)"

definition mailbox_ids_of :: "int \<Rightarrow> store \<Rightarrow> int list" where
  "mailbox_ids_of uid st = map mb_id (filter (\<lambda>b. mb_user_id b = uid) (mailboxes st))"

definition message_ids_of :: "int \<Rightarrow> store \<Rightarrow> int list" where
  "message_ids_of uid st =
     map m_id (filter (\<lambda>m. m_mailbox_id m \<in> set (mailbox_ids_of uid st)) (messages st))"

definition delete_user_rows :: "user \<Rightarrow> store \<Rightarrow> store" where
  "delete_user_rows u st =
     (let i = user_id u;
          st1 = st\<lparr>keyring_entries := filter (\<lambda>k. k_user_id k \<noteq> i) (keyring_entries st)\<rparr>;
          st2 = st1\<lparr>shares := filter (\<lambda>s. sh_user_id s \<noteq> i) (shares st1)\<rparr>;
          st3 = st2\<lparr>transactions := filter (\<lambda>t.
                  \<not> ((case t_message_row_id t of None \<Rightarrow> False | Some r \<Rightarrow> r \<in> set (message_ids_of i st2))
                     \<or> like (t_sender_mailbox t) (user_name u @ ''@%''))) (transactions st2)\<rparr>;
          st4 = st3\<lparr>messages := filter (\<lambda>m. m_mailbox_id m \<notin> set (mailbox_ids_of i st3)) (messages st3)\<rparr>;
          st5 = st4\<lparr>mailboxes := filter (\<lambda>b. mb_user_id b \<noteq> i) (mailboxes st4)\<rparr>
      in st5\<lparr>users := filter (\<lambda>r. u_id r \<noteq> i) (users st5)\<rparr>)"

definition delete_user :: "rstr \<Rightarrow> unit op" where
  "delete_user username =
     bind_op (get_user username) (\<lambda>ou.
       case ou of None \<Rightarrow> fail_op (UserNotFound username)
       | Some u \<Rightarrow> locked (\<lambda>st. (Inr (), delete_user_rows u st)))"

subsection \<open>The transaction ledger\<close>

definition row_to_tx :: "tx_row \<Rightarrow> transaction" where
  "row_to_tx r =
     \<lparr>tx_id = t_id r,
      tx_dir = (case tx_direction_parse (t_direction r) of None \<Rightarrow> TxIn | Some d \<Rightarrow> d),
      tx_st = (case tx_state_parse (t_state r) of None \<Rightarrow> TxOpaque | Some s \<Rightarrow> s),
      tx_sender_mailbox = t_sender_mailbox r, tx_recipient_mailbox = t_recipient_mailbox r,
      tx_amount = t_amount r, tx_binding = t_binding r, tx_message_id = t_message_id r,
      tx_message_row_id = t_message_row_id r, tx_outbound_body = t_outbound_body r,
      tx_payload = t_payload r, tx_created_at = t_created_at r, tx_updated_at = t_updated_at r\<rparr>"

definition tx_create :: "int \<Rightarrow> new_transaction \<Rightarrow> transaction op" where
  "tx_create now t =
     locked (\<lambda>st.
       if (tx_direction_str (nt_direction t), nt_message_id t)
            \<in> set (map (\<lambda>r. (t_direction r, t_message_id r)) (transactions st))
       then (Inl (Storage UniqueViolation), st)
       else
         (let i = next_rowid (map t_id (transactions st));
              row = \<lparr>t_id = i, t_direction = tx_direction_str (nt_direction t),
                     t_state = tx_state_str (nt_state t), t_sender_mailbox = nt_sender_mailbox t,
                     t_recipient_mailbox = nt_recipient_mailbox t, t_amount = nt_amount t,
                     t_binding = nt_binding t, t_message_id = nt_message_id t, t_message_row_id = None,
                     t_outbound_body = nt_outbound_body t, t_payload = nt_payload t,
                     t_created_at = now, t_updated_at = now\<rparr>
          in (Inr \<lparr>tx_id = i, tx_dir = nt_direction t, tx_st = nt_state t,
                   tx_sender_mailbox = nt_sender_mailbox t, tx_recipient_mailbox = nt_recipient_mailbox t,
                   tx_amount = nt_amount t, tx_binding = nt_binding t, tx_message_id = nt_message_id t,
                   tx_message_row_id = None, tx_outbound_body = nt_outbound_body t,
                   tx_payload = nt_payload t, tx_created_at = now, tx_updated_at = now\<rparr>,
              st\<lparr>transactions := transactions st @ [row]\<rparr>)))"

definition tx_link_message :: "int \<Rightarrow> int \<Rightarrow> int \<Rightarrow> unit op" where
  "tx_link_message now i row_id =
     locked (\<lambda>st. (Inr (), st\<lparr>transactions :=
       update_where (\<lambda>r. t_id r = i) (\<lambda>r. r\<lparr>t_message_row_id := Some row_id, t_updated_at := now\<rparr>)
         (transactions st)\<rparr>))"

definition tx_get :: "int \<Rightarrow> transaction option op" where
  "tx_get i = query (\<lambda>st. map_option row_to_tx (find (\<lambda>r. t_id r = i) (transactions st)))"

definition tx_by_message_id :: "tx_direction \<Rightarrow> rstr \<Rightarrow> transaction option op" where
  "tx_by_message_id d mid =
     query (\<lambda>st. map_option row_to_tx
       (find (\<lambda>r. t_direction r = tx_direction_str d \<and> t_message_id r = mid) (transactions st)))"

definition tx_list :: "tx_direction option \<Rightarrow> tx_state option \<Rightarrow> transaction list op" where
  "tx_list d s =
     query (\<lambda>st. map row_to_tx (sort_key (\<lambda>r. - t_id r)
       (filter (\<lambda>r. (case d of None \<Rightarrow> True | Some x \<Rightarrow> t_direction r = tx_direction_str x)
                  \<and> (case s of None \<Rightarrow> True | Some x \<Rightarrow> t_state r = tx_state_str x)) (transactions st))))"

definition tx_transition :: "int \<Rightarrow> int \<Rightarrow> tx_state \<Rightarrow> unit op" where
  "tx_transition now i s =
     locked (\<lambda>st. require_rows (count_where (\<lambda>r. t_id r = i) (transactions st)) (UserNotFound (show_int i))
       (st\<lparr>transactions := update_where (\<lambda>r. t_id r = i)
          (\<lambda>r. r\<lparr>t_state := tx_state_str s, t_updated_at := now\<rparr>) (transactions st)\<rparr>) st)"

definition tx_set_binding :: "int \<Rightarrow> int \<Rightarrow> rstr option \<Rightarrow> unit op" where
  "tx_set_binding now i b =
     locked (\<lambda>st. require_rows (count_where (\<lambda>r. t_id r = i) (transactions st)) (UserNotFound (show_int i))
       (st\<lparr>transactions := update_where (\<lambda>r. t_id r = i)
          (\<lambda>r. r\<lparr>t_binding := b, t_updated_at := now\<rparr>) (transactions st)\<rparr>) st)"

subsection \<open>The keyring\<close>

definition keyring_set_trusted :: "int \<Rightarrow> int \<Rightarrow> rstr \<Rightarrow> rstr \<Rightarrow> bytes \<Rightarrow> unit op" where
  "keyring_set_trusted now uid sender pubkey att =
     locked (\<lambda>st.
       if (uid, sender) \<in> set (map (\<lambda>k. (k_user_id k, k_sender_mailbox k)) (keyring_entries st))
       then (Inr (), st\<lparr>keyring_entries :=
         update_where (\<lambda>k. k_user_id k = uid \<and> k_sender_mailbox k = sender)
           (\<lambda>k. k\<lparr>k_sender_pubkey := pubkey, k_attestation := att, k_state := ''trusted''\<rparr>)
           (keyring_entries st)\<rparr>)
       else if uid \<notin> set (map u_id (users st)) then (Inl (Storage ForeignKeyViolation), st)
       else (Inr (), st\<lparr>keyring_entries := keyring_entries st @
         [\<lparr>k_user_id = uid, k_sender_mailbox = sender, k_sender_pubkey = pubkey, k_attestation = att,
           k_state = ''trusted'', k_first_seen = now\<rparr>]\<rparr>))"

definition keyring_sender_key :: "int \<Rightarrow> rstr \<Rightarrow> rstr option op" where
  "keyring_sender_key uid sender =
     query (\<lambda>st. map_option k_sender_pubkey
       (find (\<lambda>k. k_user_id k = uid \<and> k_sender_mailbox k = sender \<and> k_state k = ''trusted'')
         (keyring_entries st)))"

definition list_keyring :: "int \<Rightarrow> keyring_entry list op" where
  "list_keyring uid =
     query (\<lambda>st. map (\<lambda>k. \<lparr>ke_sender_mailbox = k_sender_mailbox k, ke_sender_pubkey = k_sender_pubkey k,
                          ke_state = k_state k, ke_first_seen = k_first_seen k\<rparr>)
       (sort_key k_first_seen (filter (\<lambda>k. k_user_id k = uid) (keyring_entries st))))"

definition unpin_keyring :: "int \<Rightarrow> rstr \<Rightarrow> unit op" where
  "unpin_keyring uid sender =
     locked (\<lambda>st. require_rows
       (count_where (\<lambda>k. k_user_id k = uid \<and> k_sender_mailbox k = sender) (keyring_entries st))
       (UserNotFound sender)
       (st\<lparr>keyring_entries := filter (\<lambda>k. \<not> (k_user_id k = uid \<and> k_sender_mailbox k = sender))
             (keyring_entries st)\<rparr>) st)"

subsection \<open>Messages\<close>

definition mailbox_named :: "int \<Rightarrow> rstr \<Rightarrow> (int \<times> 32 word \<times> int) op" where
  "mailbox_named uid name =
     locked (\<lambda>st.
       (case find (\<lambda>b. mb_user_id b = uid \<and> mb_name b = name) (mailboxes st) of
          None \<Rightarrow> Inl MailboxNotFound
        | Some b \<Rightarrow> Inr (mb_id b, mb_uidvalidity b, mb_uidnext b), st))"

text \<open>
  The second critical section of \<open>append_message_to\<close>, with the mailbox row read in the first.
\<close>

definition append_locked :: "int \<Rightarrow> new_message \<Rightarrow> int \<times> 32 word \<times> int \<Rightarrow> message_meta op" where
  "append_locked now msg box =
     (case box of (bid, uidvalidity, uidnext) \<Rightarrow>
     locked (\<lambda>st.
       if count_where (\<lambda>m. m_mailbox_id m = bid \<and> m_message_id m = nm_message_id msg) (messages st) > 0
       then (Inl (DuplicateMessage (nm_message_id msg)), st)
       else if bid \<notin> set (map mb_id (mailboxes st)) then (Inl (Storage ForeignKeyViolation), st)
       else
         (let i = next_rowid (map m_id (messages st));
              row = \<lparr>m_id = i, m_mailbox_id = bid, m_message_id = nm_message_id msg, m_uid = uidnext,
                     m_internaldate = now, m_flags = bits (nm_flags msg), m_subject = nm_subject msg,
                     m_size = length (nm_body msg), m_body = nm_body msg, m_sender = nm_sender msg,
                     m_trust_state = nm_trust_state msg\<rparr>;
              st' = st\<lparr>messages := messages st @ [row],
                       mailboxes := update_where (\<lambda>b. mb_id b = bid)
                         (\<lambda>b. b\<lparr>mb_uidnext := mb_uidnext b + 1\<rparr>) (mailboxes st)\<rparr>
          in (Inr \<lparr>mm_id = i, mm_message_id = nm_message_id msg, mm_uid = word_of_int uidnext,
                   mm_uidvalidity = uidvalidity, mm_internaldate = now, mm_flags = nm_flags msg,
                   mm_subject = nm_subject msg, mm_size = length (nm_body msg), mm_sender = nm_sender msg,
                   mm_trust_state = nm_trust_state msg, mm_tx_state = None, mm_tx_id = None\<rparr>, st'))))"

definition append_message_to :: "int \<Rightarrow> int \<Rightarrow> rstr \<Rightarrow> new_message \<Rightarrow> message_meta op" where
  "append_message_to now uid name msg = bind_op (mailbox_named uid name) (append_locked now msg)"

definition append_message :: "int \<Rightarrow> int \<Rightarrow> new_message \<Rightarrow> message_meta op" where
  "append_message now uid msg = append_message_to now uid INBOX msg"

definition row_to_meta :: "message_row \<Rightarrow> tx_row option \<Rightarrow> 32 word \<Rightarrow> message_meta" where
  "row_to_meta m t uidvalidity =
     \<lparr>mm_id = m_id m, mm_message_id = m_message_id m, mm_uid = word_of_int (m_uid m),
      mm_uidvalidity = uidvalidity, mm_internaldate = m_internaldate m, mm_flags = MessageFlags (m_flags m),
      mm_subject = m_subject m, mm_size = m_size m, mm_sender = m_sender m, mm_trust_state = m_trust_state m,
      mm_tx_state = map_option t_state t, mm_tx_id = map_option t_id t\<rparr>"

text \<open>The LEFT JOIN of messages with the transactions that point to them.\<close>

definition join_tx :: "tx_row list \<Rightarrow> message_row \<Rightarrow> (message_row \<times> tx_row option) list" where
  "join_tx txs m =
     (case filter (\<lambda>t. t_message_row_id t = Some (m_id m)) txs of
        [] \<Rightarrow> [(m, None)]
      | ts \<Rightarrow> map (\<lambda>t. (m, Some t)) ts)"

definition list_messages_in :: "int \<Rightarrow> rstr \<Rightarrow> message_meta list op" where
  "list_messages_in uid name =
     bind_op (mailbox_named uid name) (\<lambda>(bid, uidvalidity, _).
       query (\<lambda>st. map (\<lambda>(m, t). row_to_meta m t uidvalidity)
         (sort_key (\<lambda>(m, t). - m_uid m)
           (concat (map (join_tx (transactions st)) (filter (\<lambda>m. m_mailbox_id m = bid) (messages st)))))))"

definition list_messages :: "int \<Rightarrow> message_meta list op" where
  "list_messages uid = list_messages_in uid INBOX"

definition uidnext_in :: "int \<Rightarrow> rstr \<Rightarrow> 32 word op" where
  "uidnext_in uid name = bind_op (mailbox_named uid name) (\<lambda>(_, _, n). ret_op (word_of_int n))"

definition uidnext :: "int \<Rightarrow> 32 word op" where
  "uidnext uid = uidnext_in uid INBOX"

definition fetch_message_in :: "int \<Rightarrow> rstr \<Rightarrow> int \<Rightarrow> message op" where
  "fetch_message_in uid name i =
     bind_op (mailbox_named uid name) (\<lambda>(bid, uidvalidity, _).
       locked (\<lambda>st.
         (case concat (map (join_tx (transactions st))
                 (filter (\<lambda>m. m_mailbox_id m = bid \<and> m_id m = i) (messages st))) of
            [] \<Rightarrow> Inl MessageNotFound
          | (m, t) # _ \<Rightarrow> Inr \<lparr>msg_meta = row_to_meta m t uidvalidity, msg_body = m_body m\<rparr>, st)))"

definition fetch_message :: "int \<Rightarrow> int \<Rightarrow> message op" where
  "fetch_message uid i = fetch_message_in uid INBOX i"

definition set_flags_in :: "int \<Rightarrow> rstr \<Rightarrow> int \<Rightarrow> 32 word \<Rightarrow> bool \<Rightarrow> unit op" where
  "set_flags_in uid name i msk val =
     bind_op (mailbox_named uid name) (\<lambda>(bid, _, _).
       locked (\<lambda>st. (Inr (), st\<lparr>messages :=
         update_where (\<lambda>m. m_mailbox_id m = bid \<and> m_id m = i)
           (\<lambda>m. m\<lparr>m_flags := (if val then m_flags m OR msk else m_flags m AND NOT msk)\<rparr>) (messages st)\<rparr>)))"

definition set_flags :: "int \<Rightarrow> int \<Rightarrow> 32 word \<Rightarrow> bool \<Rightarrow> unit op" where
  "set_flags uid i msk val = set_flags_in uid INBOX i msk val"

definition expunge_in :: "int \<Rightarrow> rstr \<Rightarrow> 32 word list op" where
  "expunge_in uid name =
     bind_op (mailbox_named uid name) (\<lambda>(bid, _, _).
       locked (\<lambda>st.
         (let dead = (\<lambda>m. m_mailbox_id m = bid \<and> m_flags m AND DELETED \<noteq> 0)
          in (Inr (map (\<lambda>m. word_of_int (m_uid m)) (sort_key m_uid (filter dead (messages st)))),
              st\<lparr>messages := filter (\<lambda>m. \<not> dead m) (messages st)\<rparr>))))"

definition expunge :: "int \<Rightarrow> 32 word list op" where
  "expunge uid = expunge_in uid INBOX"

subsection \<open>Shares\<close>

definition get_shares :: "int \<Rightarrow> (rstr \<times> bytes) list op" where
  "get_shares uid =
     query (\<lambda>st. map (\<lambda>s. (sh_share_id s, sh_wrapped_dk s))
       (filter (\<lambda>s. sh_user_id s = uid \<and> sh_revoked s = 0) (shares st)))"

definition add_share :: "int \<Rightarrow> rstr \<Rightarrow> bytes \<Rightarrow> unit op" where
  "add_share uid share_id wrapped =
     locked (\<lambda>st.
       if (uid, share_id) \<in> set (map (\<lambda>s. (sh_user_id s, sh_share_id s)) (shares st))
       then (Inl (Storage UniqueViolation), st)
       else if uid \<notin> set (map u_id (users st)) then (Inl (Storage ForeignKeyViolation), st)
       else (Inr (), st\<lparr>shares := shares st @
         [\<lparr>sh_user_id = uid, sh_share_id = share_id, sh_wrapped_dk = wrapped, sh_revoked = 0\<rparr>]\<rparr>))"

definition list_shares :: "int \<Rightarrow> share_entry list op" where
  "list_shares uid =
     query (\<lambda>st. map (\<lambda>s. \<lparr>se_share_id = sh_share_id s, se_wrapped_dk = sh_wrapped_dk s,
                          se_revoked = (sh_revoked s \<noteq> 0)\<rparr>)
       (sort_key sh_share_id (filter (\<lambda>s. sh_user_id s = uid) (shares st))))"

definition revoke_share :: "int \<Rightarrow> rstr \<Rightarrow> unit op" where
  "revoke_share uid share_id =
     locked (\<lambda>st. require_rows
       (count_where (\<lambda>s. sh_user_id s = uid \<and> sh_share_id s = share_id) (shares st)) (UserNotFound share_id)
       (st\<lparr>shares := update_where (\<lambda>s. sh_user_id s = uid \<and> sh_share_id s = share_id)
             (\<lambda>s. s\<lparr>sh_revoked := 1\<rparr>) (shares st)\<rparr>) st)"

subsection \<open>Settings\<close>

definition get_setting :: "rstr \<Rightarrow> rstr option op" where
  "get_setting key = query (\<lambda>st. map_option snd (find (\<lambda>(k, _). k = key) (settings st)))"

definition set_setting :: "rstr \<Rightarrow> rstr \<Rightarrow> unit op" where
  "set_setting key val =
     locked (\<lambda>st. (Inr (), st\<lparr>settings :=
       (if key \<in> set (map fst (settings st)) then update_where (\<lambda>(k, _). k = key) (\<lambda>_. (key, val)) (settings st)
        else settings st @ [(key, val)])\<rparr>))"

definition list_settings :: "(rstr \<times> rstr) list op" where
  "list_settings = query (\<lambda>st. sort_key fst (settings st))"

definition delete_setting :: "rstr \<Rightarrow> unit op" where
  "delete_setting key =
     locked (\<lambda>st. require_rows (count_where (\<lambda>(k, _). k = key) (settings st)) (UserNotFound key)
       (st\<lparr>settings := filter (\<lambda>(k, _). k \<noteq> key) (settings st)\<rparr>) st)"

end
