(* ===== verification/Sqlite_Inv.thy ===== *)
theory Sqlite_Inv
  imports Sqlite
begin

unbundle bit_operations_syntax

text \<open>
  The invariant of the mail store and that every operation keeps it: the constraints of the
  schema (keys unique, references valid), the mailboxes every user has, and the UID discipline
  of IMAP (UIDs of a mailbox distinct and below its UIDNEXT).
\<close>

definition users_ok :: "user_row list \<Rightarrow> bool" where
  "users_ok us \<longleftrightarrow> distinct (map u_id us) \<and> distinct (map u_username us)"

definition keyring_ok :: "user_row list \<Rightarrow> keyring_row list \<Rightarrow> bool" where
  "keyring_ok us ks \<longleftrightarrow>
     distinct (map (\<lambda>k. (k_user_id k, k_sender_mailbox k)) ks) \<and>
     (\<forall>k \<in> set ks. k_user_id k \<in> u_id ` set us \<and> k_state k = ''trusted'')"

definition shares_ok :: "user_row list \<Rightarrow> share_row list \<Rightarrow> bool" where
  "shares_ok us ss \<longleftrightarrow>
     distinct (map (\<lambda>s. (sh_user_id s, sh_share_id s)) ss) \<and> (\<forall>s \<in> set ss. sh_user_id s \<in> u_id ` set us)"

definition mailboxes_ok :: "user_row list \<Rightarrow> mailbox_row list \<Rightarrow> bool" where
  "mailboxes_ok us bs \<longleftrightarrow>
     distinct (map mb_id bs) \<and> distinct (map (\<lambda>b. (mb_user_id b, mb_name b)) bs) \<and>
     (\<forall>b \<in> set bs. mb_user_id b \<in> u_id ` set us \<and> 1 \<le> mb_uidnext b)"

definition standard_mailboxes :: "user_row list \<Rightarrow> mailbox_row list \<Rightarrow> bool" where
  "standard_mailboxes us bs \<longleftrightarrow>
     (\<forall>u \<in> set us. (u_id u, INBOX) \<in> (\<lambda>b. (mb_user_id b, mb_name b)) ` set bs \<and>
                   (u_id u, SENT) \<in> (\<lambda>b. (mb_user_id b, mb_name b)) ` set bs)"

definition messages_ok :: "mailbox_row list \<Rightarrow> message_row list \<Rightarrow> bool" where
  "messages_ok bs ms \<longleftrightarrow>
     distinct (map m_id ms) \<and> distinct (map (\<lambda>m. (m_mailbox_id m, m_message_id m)) ms) \<and>
     (\<forall>m \<in> set ms. m_mailbox_id m \<in> mb_id ` set bs \<and> m_size m = length (m_body m))"

definition uids_ok :: "mailbox_row list \<Rightarrow> message_row list \<Rightarrow> bool" where
  "uids_ok bs ms \<longleftrightarrow>
     distinct (map (\<lambda>m. (m_mailbox_id m, m_uid m)) ms) \<and>
     (\<forall>m \<in> set ms. 1 \<le> m_uid m \<and> (\<forall>b \<in> set bs. mb_id b = m_mailbox_id m \<longrightarrow> m_uid m < mb_uidnext b))"

definition settings_ok :: "(rstr \<times> rstr) list \<Rightarrow> bool" where
  "settings_ok xs \<longleftrightarrow> distinct (map fst xs)"

definition transactions_ok :: "tx_row list \<Rightarrow> bool" where
  "transactions_ok ts \<longleftrightarrow>
     distinct (map t_id ts) \<and> distinct (map (\<lambda>t. (t_direction t, t_message_id t)) ts) \<and>
     (\<forall>t \<in> set ts. t_direction t \<in> range tx_direction_str \<and> t_state t \<in> range tx_state_str)"

text \<open>What the schema guarantees, and with it the two mailboxes of every user.\<close>

definition schema_inv :: "store \<Rightarrow> bool" where
  "schema_inv st \<longleftrightarrow>
     users_ok (users st) \<and> keyring_ok (users st) (keyring_entries st) \<and> shares_ok (users st) (shares st) \<and>
     mailboxes_ok (users st) (mailboxes st) \<and> standard_mailboxes (users st) (mailboxes st) \<and>
     messages_ok (mailboxes st) (messages st) \<and> settings_ok (settings st) \<and> transactions_ok (transactions st)"

definition store_inv :: "store \<Rightarrow> bool" where
  "store_inv st \<longleftrightarrow> schema_inv st \<and> uids_ok (mailboxes st) (messages st)"

subsection \<open>Operations that keep a property\<close>

definition keeps :: "(store \<Rightarrow> bool) \<Rightarrow> 'a op \<Rightarrow> bool" where
  "keeps P f \<longleftrightarrow> (\<forall>st. P st \<longrightarrow> P (snd (f st)))"

lemma keepsI [intro?]: "(\<And>st. P st \<Longrightarrow> P (snd (f st))) \<Longrightarrow> keeps P f"
  by (simp add: keeps_def)

lemma keepsD: "keeps P f \<Longrightarrow> P st \<Longrightarrow> f st = (r, st') \<Longrightarrow> P st'"
  by (auto simp: keeps_def)

lemma keeps_ret [inv_intros]: "keeps P (ret_op a)"
  by (simp add: keeps_def ret_op_def)

lemma keeps_fail [inv_intros]: "keeps P (fail_op e)"
  by (simp add: keeps_def fail_op_def)

lemma keeps_bind [inv_intros]:
  assumes "keeps P f" "\<And>a. keeps P (g a)" shows "keeps P (bind_op f g)"
proof
  fix st assume p: "P st"
  obtain r st1 where f: "f st = (r, st1)" by fastforce
  from keepsD[OF assms(1) p f] assms(2) show "P (snd (bind_op f g st))"
    by (cases r) (auto simp: bind_op_def f keeps_def)
qed

lemma keeps_locked [inv_intros]:
  "(\<And>st. P st \<Longrightarrow> \<not> poisoned st \<Longrightarrow> P (snd (f st))) \<Longrightarrow> keeps P (locked f)"
  by (simp add: keeps_def locked_def)

lemma keeps_query [inv_intros]: "keeps P (query f)"
  by (simp add: keeps_def query_def locked_def)

lemma keeps_require_rows: "P st \<Longrightarrow> P st' \<Longrightarrow> P (snd (require_rows n e st' st))"
  by (simp add: require_rows_def)

lemma keeps_mailbox_named [inv_intros]: "keeps P (mailbox_named uid name)"
  unfolding mailbox_named_def by (rule keeps_locked) simp

subsection \<open>Rows\<close>

lemma next_rowid_gt: "x \<in> set ids \<Longrightarrow> x < next_rowid ids"
proof -
  have "x \<in> set ids \<Longrightarrow> x \<le> foldr max ids 0" by (induction ids) auto
  then show "x \<in> set ids \<Longrightarrow> x < next_rowid ids" by (simp add: next_rowid_def)
qed

lemma next_rowid_fresh [simp]: "next_rowid ids \<notin> set ids"
  using next_rowid_gt by blast

lemma next_rowid_image [simp]: "next_rowid (map f xs) \<notin> f ` set xs"
  using next_rowid_fresh[of "map f xs"] by simp

lemma next_rowid_neq: "x \<in> set xs \<Longrightarrow> f x \<noteq> next_rowid (map f xs)"
  using next_rowid_gt[of "f x" "map f xs"] by auto

lemma next_rowid_pos: "0 < next_rowid ids"
proof -
  have "0 \<le> foldr max ids (0::int)" by (induction ids) auto
  then show ?thesis by (simp add: next_rowid_def)
qed

lemma update_where_map: "(\<And>x. g (f x) = g x) \<Longrightarrow> map g (update_where P f xs) = map g xs"
  unfolding update_where_def by (rule map_update_same)

lemma update_where_image: "(\<And>x. g (f x) = g x) \<Longrightarrow> g ` set (update_where P f xs) = g ` set xs"
  using update_where_map[of g f P xs] by (metis list.set_map)

lemma in_update_where: "x \<in> set (update_where P f xs) \<longleftrightarrow> (\<exists>y \<in> set xs. x = (if P y then f y else y))"
  by (auto simp: update_where_def)

lemma find_filter_hd: "find P xs = (case filter P xs of [] \<Rightarrow> None | x # _ \<Rightarrow> Some x)"
  by (induction xs) auto

subsection \<open>The invariant, table by table\<close>

lemma users_ok_update:
  assumes "users_ok us" "\<And>r. u_id (f r) = u_id r" "\<And>r. u_username (f r) = u_username r"
  shows "users_ok (update_where P f us)"
  using assms by (simp add: users_ok_def update_where_map)

lemma refs_users_update:
  assumes "\<And>r. u_id (f r) = u_id r"
  shows "keyring_ok (update_where P f us) ks = keyring_ok us ks"
    "shares_ok (update_where P f us) ss = shares_ok us ss"
    "mailboxes_ok (update_where P f us) bs = mailboxes_ok us bs"
    "standard_mailboxes (update_where P f us) bs = standard_mailboxes us bs"
proof -
  have i: "u_id ` set (update_where P f us) = u_id ` set us" using assms by (rule update_where_image)
  show "keyring_ok (update_where P f us) ks = keyring_ok us ks"
    "shares_ok (update_where P f us) ss = shares_ok us ss"
    "mailboxes_ok (update_where P f us) bs = mailboxes_ok us bs"
    by (simp_all add: keyring_ok_def shares_ok_def mailboxes_ok_def i)
  have "standard_mailboxes vs bs \<longleftrightarrow> (\<forall>i \<in> u_id ` set vs.
      (i, INBOX) \<in> (\<lambda>b. (mb_user_id b, mb_name b)) ` set bs \<and> (i, SENT) \<in> (\<lambda>b. (mb_user_id b, mb_name b)) ` set bs)" for vs
    by (simp add: standard_mailboxes_def)
  then show "standard_mailboxes (update_where P f us) bs = standard_mailboxes us bs" by (simp only: i)
qed

lemma schema_update_users:
  assumes "schema_inv st" "\<And>r. u_id (f r) = u_id r" "\<And>r. u_username (f r) = u_username r"
  shows "schema_inv (st\<lparr>users := update_where P f (users st)\<rparr>)"
  using assms by (simp add: schema_inv_def users_ok_update refs_users_update)

lemma schema_set_txs: "schema_inv st \<Longrightarrow> transactions_ok ts \<Longrightarrow> schema_inv (st\<lparr>transactions := ts\<rparr>)"
  by (simp add: schema_inv_def)

lemma transactions_ok_update:
  assumes "transactions_ok ts" "\<And>r. t_id (f r) = t_id r" "\<And>r. t_direction (f r) = t_direction r"
    "\<And>r. t_message_id (f r) = t_message_id r" "\<And>r. t_state (f r) = t_state r \<or> t_state (f r) \<in> range tx_state_str"
  shows "transactions_ok (update_where P f ts)"
proof -
  have "t_direction t \<in> range tx_direction_str \<and> t_state t \<in> range tx_state_str"
    if t: "t \<in> set (update_where P f ts)" for t
  proof -
    from t obtain y where "y \<in> set ts" "t = (if P y then f y else y)" by (auto simp: in_update_where)
    with assms(1,3) assms(5)[of y] show ?thesis by (auto simp: transactions_ok_def)
  qed
  with assms(1-4) show ?thesis by (simp add: transactions_ok_def update_where_map)
qed

lemma transactions_ok_filter: "transactions_ok ts \<Longrightarrow> transactions_ok (filter P ts)"
  by (auto simp: transactions_ok_def distinct_map_filterI)

lemma messages_ok_filter: "messages_ok bs ms \<Longrightarrow> messages_ok bs (filter P ms)"
  by (auto simp: messages_ok_def distinct_map_filterI)

lemma uids_ok_filter: "uids_ok bs ms \<Longrightarrow> uids_ok bs (filter P ms)"
  by (auto simp: uids_ok_def distinct_map_filterI)

lemma schema_set_messages:
  "schema_inv st \<Longrightarrow> messages_ok (mailboxes st) ms \<Longrightarrow> schema_inv (st\<lparr>messages := ms\<rparr>)"
  by (simp add: schema_inv_def)

subsection \<open>Creating a user\<close>

definition new_user_row :: "int \<Rightarrow> rstr \<Rightarrow> rstr \<Rightarrow> bytes \<Rightarrow> rstr option \<Rightarrow> rstr option \<Rightarrow> store \<Rightarrow> user_row" where
  "new_user_row now username hash mpk ivk reg st =
     \<lparr>u_id = next_rowid (map u_id (users st)), u_username = username, u_password_hash = hash,
      u_master_pubkey = mpk, u_created_at = now, u_ivk_commitment = ivk, u_registration_attestation = reg\<rparr>"

definition new_mailbox_rows :: "int \<Rightarrow> store \<Rightarrow> mailbox_row list" where
  "new_mailbox_rows now st =
     (let i = next_rowid (map u_id (users st)); j = next_rowid (map mb_id (mailboxes st))
      in [\<lparr>mb_id = j, mb_user_id = i, mb_name = INBOX, mb_uidvalidity = word_of_int now, mb_uidnext = 1\<rparr>,
          \<lparr>mb_id = j + 1, mb_user_id = i, mb_name = SENT, mb_uidvalidity = word_of_int now, mb_uidnext = 1\<rparr>])"

lemma update_where_last:
  "(\<And>x. x \<in> set xs \<Longrightarrow> \<not> P x) \<Longrightarrow> P y \<Longrightarrow> update_where P f (xs @ [y]) = xs @ [f y]"
  unfolding update_where_def by (simp add: map_idI)

lemma update_new_user:
  assumes "u_id y = next_rowid (map u_id us)"
  shows "update_where (\<lambda>r. u_id r = next_rowid (map u_id us)) f (us @ [y]) = us @ [f y]"
  using assms next_rowid_neq[of _ us u_id] by (intro update_where_last) auto

lemma next_rowid_snoc: "next_rowid (ids @ [next_rowid ids]) = next_rowid ids + 1"
proof -
  have *: "foldr max (xs @ [m]) (0::int) = max (foldr max xs 0) m" if "0 \<le> m" for xs m
    using that by (induction xs) auto
  have "foldr max (ids @ [next_rowid ids]) 0 = max (foldr max ids 0) (next_rowid ids)"
    using next_rowid_pos[of ids] by (intro *) linarith
  also have "\<dots> = next_rowid ids" by (simp add: next_rowid_def)
  finally show ?thesis by (simp only: next_rowid_def)
qed

lemma insert_mailbox_ok:
  assumes "\<And>b. b \<in> set (mailboxes st) \<Longrightarrow> mb_user_id b \<noteq> i \<or> mb_name b \<noteq> name" "i \<in> u_id ` set (users st)"
  shows "insert_mailbox i name v st = (Inr (), st\<lparr>mailboxes := mailboxes st @
    [\<lparr>mb_id = next_rowid (map mb_id (mailboxes st)), mb_user_id = i, mb_name = name, mb_uidvalidity = v,
      mb_uidnext = 1\<rparr>]\<rparr>)"
proof -
  have "(i, name) \<notin> (\<lambda>b. (mb_user_id b, mb_name b)) ` set (mailboxes st)" using assms(1) by auto
  with assms(2) show ?thesis by (simp add: insert_mailbox_def Let_def)
qed

lemma mailboxes_of_new_user:
  assumes "mailboxes_ok us bs" "b \<in> set bs" shows "mb_user_id b \<noteq> next_rowid (map u_id us)"
proof -
  have "mb_user_id b \<in> u_id ` set us" using assms by (simp add: mailboxes_ok_def)
  with next_rowid_image[of u_id us] show ?thesis by metis
qed

lemma create_user_full_eq:
  assumes "mailboxes_ok (users st) (mailboxes st)" "\<not> poisoned st"
  shows "create_user_full now name hash mpk ivk reg st =
    (if name \<in> u_username ` set (users st) then (Inl (Storage UniqueViolation), st)
     else (Inr (user_of_row (new_user_row now name hash mpk ivk reg st)),
           st\<lparr>users := users st @ [new_user_row now name hash mpk ivk reg st],
              mailboxes := mailboxes st @ new_mailbox_rows now st\<rparr>))"
proof (cases "name \<in> u_username ` set (users st)")
  case True
  then show ?thesis using assms(2) by (simp add: create_user_full_def locked_def bind_op_def insert_user_def)
next
  case False
  let ?i = "next_rowid (map u_id (users st))"
  have boxes: "mb_user_id b \<noteq> ?i" if "b \<in> set (mailboxes st)" for b
    using mailboxes_of_new_user[OF assms(1) that] .
  define st1 where "st1 = st\<lparr>users := users st @ [new_user_row now name hash mpk ivk reg st]\<rparr>"
  define st2 where "st2 = st1\<lparr>mailboxes := mailboxes st @ [hd (new_mailbox_rows now st)]\<rparr>"
  have b1: "insert_mailbox ?i ''INBOX'' (word_of_int now) st1 = (Inr (), st2)"
    using boxes by (subst insert_mailbox_ok)
      (auto simp: st1_def st2_def new_user_row_def new_mailbox_rows_def Let_def INBOX_def)
  have b2: "insert_mailbox ?i ''Sent'' (word_of_int now) st2 =
      (Inr (), st1\<lparr>mailboxes := mailboxes st @ new_mailbox_rows now st\<rparr>)"
    using boxes by (subst insert_mailbox_ok)
      (auto simp: st1_def st2_def new_user_row_def new_mailbox_rows_def Let_def INBOX_def SENT_def next_rowid_snoc)
  show ?thesis
    using assms(2) False b1 b2
    by (cases ivk; cases reg)
       (simp_all add: create_user_full_def locked_def bind_op_def insert_user_def ret_op_def update_users_def
         update_new_user new_user_row_def user_of_row_def st1_def Let_def)
qed

lemma refs_new_user:
  "keyring_ok us ks \<Longrightarrow> keyring_ok (us @ [u]) ks" "shares_ok us ss \<Longrightarrow> shares_ok (us @ [u]) ss"
  by (auto simp: keyring_ok_def shares_ok_def)

lemma messages_ok_more_boxes: "messages_ok bs ms \<Longrightarrow> messages_ok (bs @ cs) ms"
  by (auto simp: messages_ok_def)

lemma uids_ok_more_boxes:
  assumes "uids_ok bs ms" "messages_ok bs ms" "\<And>c. c \<in> set cs \<Longrightarrow> mb_id c \<notin> mb_id ` set bs"
  shows "uids_ok (bs @ cs) ms"
  using assms by (fastforce simp: uids_ok_def messages_ok_def)

lemma new_mailbox_rows_fresh: "c \<in> set (new_mailbox_rows now st) \<Longrightarrow> mb_id c \<notin> mb_id ` set (mailboxes st)"
proof -
  assume "c \<in> set (new_mailbox_rows now st)"
  then have "next_rowid (map mb_id (mailboxes st)) \<le> mb_id c" by (auto simp: new_mailbox_rows_def Let_def)
  then show ?thesis using next_rowid_gt[of _ "map mb_id (mailboxes st)"] by fastforce
qed

lemma mailboxes_ok_new_user:
  assumes "mailboxes_ok (users st) (mailboxes st)" "u_id u = next_rowid (map u_id (users st))"
  shows "mailboxes_ok (users st @ [u]) (mailboxes st @ new_mailbox_rows now st)"
proof -
  let ?j = "next_rowid (map mb_id (mailboxes st))"
  have "mb_id b < ?j" if "b \<in> set (mailboxes st)" for b using that by (intro next_rowid_gt) simp
  then have j: "?j + 1 \<notin> mb_id ` set (mailboxes st)" by fastforce
  have "mb_user_id b \<noteq> u_id u" if "b \<in> set (mailboxes st)" for b
    using mailboxes_of_new_user[OF assms(1) that] assms(2) by simp
  then show ?thesis
    using assms j by (auto simp: mailboxes_ok_def new_mailbox_rows_def Let_def INBOX_def SENT_def)
qed

lemma standard_mailboxes_new_user:
  assumes "standard_mailboxes (users st) (mailboxes st)" "u_id u = next_rowid (map u_id (users st))"
  shows "standard_mailboxes (users st @ [u]) (mailboxes st @ new_mailbox_rows now st)"
  using assms by (auto simp: standard_mailboxes_def new_mailbox_rows_def Let_def)

lemma users_ok_new:
  assumes "users_ok us" "u_id u = next_rowid (map u_id us)" "u_username u \<notin> u_username ` set us"
  shows "users_ok (us @ [u])"
  using assms by (simp add: users_ok_def)

lemma keeps_create_user_full [inv_intros]:
  "keeps schema_inv (create_user_full now name hash mpk ivk reg)"
  "keeps store_inv (create_user_full now name hash mpk ivk reg)"
proof -
  have step: "snd (create_user_full now name hash mpk ivk reg st) = st \<or>
      (\<exists>u. u_id u = next_rowid (map u_id (users st)) \<and> u_username u \<notin> u_username ` set (users st) \<and>
        snd (create_user_full now name hash mpk ivk reg st) =
          st\<lparr>users := users st @ [u], mailboxes := mailboxes st @ new_mailbox_rows now st\<rparr>)"
    if "schema_inv st" for st
  proof (cases "poisoned st")
    case False
    with that have e: "create_user_full now name hash mpk ivk reg st =
      (if name \<in> u_username ` set (users st) then (Inl (Storage UniqueViolation), st)
       else (Inr (user_of_row (new_user_row now name hash mpk ivk reg st)),
             st\<lparr>users := users st @ [new_user_row now name hash mpk ivk reg st],
                mailboxes := mailboxes st @ new_mailbox_rows now st\<rparr>))"
      by (intro create_user_full_eq) (simp_all add: schema_inv_def)
    show ?thesis
    proof (cases "name \<in> u_username ` set (users st)")
      case False
      then show ?thesis unfolding e
        by (intro disjI2 exI[of _ "new_user_row now name hash mpk ivk reg st"]) (simp add: new_user_row_def)
    qed (simp add: e)
  qed (simp add: create_user_full_def locked_def)
  have s: "schema_inv (st\<lparr>users := users st @ [u], mailboxes := mailboxes st @ new_mailbox_rows now st\<rparr>)"
    if "schema_inv st" "u_id u = next_rowid (map u_id (users st))" "u_username u \<notin> u_username ` set (users st)" for st u
    using that by (simp add: schema_inv_def users_ok_new refs_new_user mailboxes_ok_new_user
        standard_mailboxes_new_user messages_ok_more_boxes)
  show "keeps schema_inv (create_user_full now name hash mpk ivk reg)"
  proof
    fix st assume "schema_inv st"
    with step[OF this] s[OF this] show "schema_inv (snd (create_user_full now name hash mpk ivk reg st))" by auto
  qed
  show "keeps store_inv (create_user_full now name hash mpk ivk reg)"
  proof
    fix st assume i: "store_inv st"
    then have inv: "schema_inv st" "uids_ok (mailboxes st) (messages st)" "messages_ok (mailboxes st) (messages st)"
      by (simp_all add: store_inv_def schema_inv_def)
    have "uids_ok (mailboxes st @ new_mailbox_rows now st) (messages st)"
      using inv(2,3) new_mailbox_rows_fresh by (rule uids_ok_more_boxes)
    with step[OF inv(1)] s[OF inv(1)] i show "store_inv (snd (create_user_full now name hash mpk ivk reg st))"
      by (auto simp: store_inv_def)
  qed
qed

lemma keeps_create_user [inv_intros]:
  "keeps schema_inv (create_user now name hash mpk)" "keeps store_inv (create_user now name hash mpk)"
  unfolding create_user_def by (rule inv_intros)+

lemma keeps_set_password [inv_intros]:
  "keeps schema_inv (set_password name hash)" "keeps store_inv (set_password name hash)"
  unfolding set_password_def
  by (rule keeps_locked, rule keeps_require_rows; simp add: store_inv_def schema_update_users)+

lemma keeps_set_ivk [inv_intros]:
  "keeps schema_inv (set_ivk name ivk)" "keeps store_inv (set_ivk name ivk)"
  unfolding set_ivk_def
  by (rule keeps_locked, rule keeps_require_rows; simp add: store_inv_def schema_update_users)+

subsection \<open>Deleting a user\<close>

lemma delete_user_rows_sel:
  "users (delete_user_rows u st) = filter (\<lambda>r. u_id r \<noteq> user_id u) (users st)"
  "keyring_entries (delete_user_rows u st) = filter (\<lambda>k. k_user_id k \<noteq> user_id u) (keyring_entries st)"
  "shares (delete_user_rows u st) = filter (\<lambda>s. sh_user_id s \<noteq> user_id u) (shares st)"
  "mailboxes (delete_user_rows u st) = filter (\<lambda>b. mb_user_id b \<noteq> user_id u) (mailboxes st)"
  "messages (delete_user_rows u st) =
     filter (\<lambda>m. m_mailbox_id m \<notin> set (mailbox_ids_of (user_id u) st)) (messages st)"
  "transactions (delete_user_rows u st) = filter (\<lambda>t.
     \<not> ((case t_message_row_id t of None \<Rightarrow> False | Some r \<Rightarrow> r \<in> set (message_ids_of (user_id u) st))
        \<or> like (t_sender_mailbox t) (user_name u @ ''@%''))) (transactions st)"
  "settings (delete_user_rows u st) = settings st" "poisoned (delete_user_rows u st) = poisoned st"
  by (simp_all add: delete_user_rows_def Let_def mailbox_ids_of_def message_ids_of_def cong: option.case_cong)

lemma set_mailbox_ids_of: "set (mailbox_ids_of i st) = mb_id ` {b \<in> set (mailboxes st). mb_user_id b = i}"
  by (auto simp: mailbox_ids_of_def)

lemma messages_ok_delete_user:
  assumes "messages_ok (mailboxes st) (messages st)"
  shows "messages_ok (filter (\<lambda>b. mb_user_id b \<noteq> i) (mailboxes st))
    (filter (\<lambda>m. m_mailbox_id m \<notin> set (mailbox_ids_of i st)) (messages st))"
  using assms by (auto simp: messages_ok_def distinct_map_filterI set_mailbox_ids_of image_iff)

lemma image_filter_neq: "f ` set (filter (\<lambda>r. f r \<noteq> i) xs) = f ` set xs - {i}"
  by auto

lemma standard_mailboxes_delete:
  assumes "standard_mailboxes us bs"
  shows "standard_mailboxes (filter (\<lambda>r. u_id r \<noteq> i) us) (filter (\<lambda>b. mb_user_id b \<noteq> i) bs)"
proof -
  have "(j, n) \<in> (\<lambda>b. (mb_user_id b, mb_name b)) ` set (filter (\<lambda>b. mb_user_id b \<noteq> i) bs)"
    if "(j, n) \<in> (\<lambda>b. (mb_user_id b, mb_name b)) ` set bs" "j \<noteq> i" for j n
    using that by auto
  with assms show ?thesis unfolding standard_mailboxes_def set_filter by blast
qed

lemma schema_delete_user_rows: "schema_inv st \<Longrightarrow> schema_inv (delete_user_rows u st)"
  by (simp add: schema_inv_def delete_user_rows_sel users_ok_def keyring_ok_def shares_ok_def mailboxes_ok_def
      distinct_map_filterI messages_ok_delete_user transactions_ok_filter standard_mailboxes_delete
      image_filter_neq del: set_filter) simp

lemma uids_delete_user_rows:
  "uids_ok (mailboxes st) (messages st) \<Longrightarrow>
     uids_ok (mailboxes (delete_user_rows u st)) (messages (delete_user_rows u st))"
  by (auto simp: uids_ok_def delete_user_rows_sel distinct_map_filterI)

lemma keeps_delete_user [inv_intros]:
  "keeps schema_inv (delete_user name)" "keeps store_inv (delete_user name)"
  unfolding delete_user_def get_user_def
  by (auto intro!: keeps_bind keeps_query keeps_locked keeps_fail split: option.splits
      simp: store_inv_def schema_delete_user_rows uids_delete_user_rows)

subsection \<open>The ledger, keyring, shares and settings\<close>

lemma store_inv_same_mail:
  "store_inv st \<Longrightarrow> schema_inv st' \<Longrightarrow> mailboxes st' = mailboxes st \<Longrightarrow> messages st' = messages st \<Longrightarrow> store_inv st'"
  by (simp add: store_inv_def)

lemma store_inv_schema: "store_inv st \<Longrightarrow> schema_inv st"
  by (simp add: store_inv_def)

text \<open>An operation that keeps the schema and leaves mailboxes and messages alone keeps the store invariant.\<close>

definition mail_unchanged :: "'a op \<Rightarrow> bool" where
  "mail_unchanged f \<longleftrightarrow>
     (\<forall>st. mailboxes (snd (f st)) = mailboxes st \<and> messages (snd (f st)) = messages st)"

lemma keeps_store_by_schema: "keeps schema_inv f \<Longrightarrow> mail_unchanged f \<Longrightarrow> keeps store_inv f"
  by (auto simp: keeps_def mail_unchanged_def store_inv_def)

lemma keeps_tx_create [inv_intros]: "keeps schema_inv (tx_create now t)"
  unfolding tx_create_def
  by (rule keeps_locked) (auto simp: Let_def schema_inv_def transactions_ok_def)

lemma keeps_tx_link [inv_intros]: "keeps schema_inv (tx_link_message now i r)"
  unfolding tx_link_message_def
  by (rule keeps_locked) (auto intro!: schema_set_txs transactions_ok_update simp: schema_inv_def)

lemma keeps_tx_transition [inv_intros]: "keeps schema_inv (tx_transition now i s)"
  unfolding tx_transition_def
  by (rule keeps_locked, rule keeps_require_rows, assumption)
     (auto intro!: schema_set_txs transactions_ok_update simp: schema_inv_def)

lemma keeps_tx_set_binding [inv_intros]: "keeps schema_inv (tx_set_binding now i b)"
  unfolding tx_set_binding_def
  by (rule keeps_locked, rule keeps_require_rows, assumption)
     (auto intro!: schema_set_txs transactions_ok_update simp: schema_inv_def)

lemma keeps_keyring_set_trusted [inv_intros]: "keeps schema_inv (keyring_set_trusted now uid sender pk att)"
  unfolding keyring_set_trusted_def
  by (rule keeps_locked)
     (auto simp: schema_inv_def keyring_ok_def update_where_map in_update_where)

lemma keeps_unpin_keyring [inv_intros]: "keeps schema_inv (unpin_keyring uid sender)"
  unfolding unpin_keyring_def
  by (rule keeps_locked, rule keeps_require_rows, assumption)
     (auto simp: schema_inv_def keyring_ok_def distinct_map_filterI)

lemma keeps_add_share [inv_intros]: "keeps schema_inv (add_share uid sid w)"
  unfolding add_share_def
  by (rule keeps_locked) (auto simp: schema_inv_def shares_ok_def)

lemma keeps_revoke_share [inv_intros]: "keeps schema_inv (revoke_share uid sid)"
  unfolding revoke_share_def
  by (rule keeps_locked, rule keeps_require_rows, assumption)
     (auto simp: schema_inv_def shares_ok_def update_where_map in_update_where)

lemma keeps_set_setting [inv_intros]: "keeps schema_inv (set_setting key v)"
proof -
  have "map fst (update_where (\<lambda>(k, _). k = key) (\<lambda>_. (key, v)) xs) = map fst xs" for xs :: "(rstr \<times> rstr) list"
    by (auto simp: update_where_def)
  then show ?thesis
    unfolding set_setting_def by (intro keeps_locked) (auto simp: schema_inv_def settings_ok_def)
qed

lemma keeps_delete_setting [inv_intros]: "keeps schema_inv (delete_setting key)"
  unfolding delete_setting_def
  by (rule keeps_locked, rule keeps_require_rows, assumption)
     (simp add: schema_inv_def settings_ok_def distinct_map_filterI)

lemmas non_mail_defs = tx_create_def tx_link_message_def tx_transition_def tx_set_binding_def
  keyring_set_trusted_def unpin_keyring_def add_share_def revoke_share_def set_setting_def delete_setting_def

lemma non_mail_ops:
  "mail_unchanged (tx_create now t)" "mail_unchanged (tx_link_message now i r)"
  "mail_unchanged (tx_transition now i s)" "mail_unchanged (tx_set_binding now i b)"
  "mail_unchanged (keyring_set_trusted now uid sender pk att)" "mail_unchanged (unpin_keyring uid sender)"
  "mail_unchanged (add_share uid sid w)" "mail_unchanged (revoke_share uid sid)"
  "mail_unchanged (set_setting key v)" "mail_unchanged (delete_setting key)"
  by (simp_all add: mail_unchanged_def non_mail_defs locked_def require_rows_def Let_def)

lemmas keeps_store_non_mail [inv_intros] =
  keeps_store_by_schema[OF keeps_tx_create non_mail_ops(1)]
  keeps_store_by_schema[OF keeps_tx_link non_mail_ops(2)]
  keeps_store_by_schema[OF keeps_tx_transition non_mail_ops(3)]
  keeps_store_by_schema[OF keeps_tx_set_binding non_mail_ops(4)]
  keeps_store_by_schema[OF keeps_keyring_set_trusted non_mail_ops(5)]
  keeps_store_by_schema[OF keeps_unpin_keyring non_mail_ops(6)]
  keeps_store_by_schema[OF keeps_add_share non_mail_ops(7)]
  keeps_store_by_schema[OF keeps_revoke_share non_mail_ops(8)]
  keeps_store_by_schema[OF keeps_set_setting non_mail_ops(9)]
  keeps_store_by_schema[OF keeps_delete_setting non_mail_ops(10)]

subsection \<open>Messages\<close>

lemma mailbox_named_ok:
  assumes "mailbox_named uid name st = (Inr (bid, v, n), st')"
  obtains b where "b \<in> set (mailboxes st)" "mb_user_id b = uid" "mb_name b = name" "mb_id b = bid"
    "mb_uidvalidity b = v" "mb_uidnext b = n" "st' = st" "\<not> poisoned st"
proof (cases "find (\<lambda>b. mb_user_id b = uid \<and> mb_name b = name) (mailboxes st)")
  case None
  with assms show ?thesis by (simp add: mailbox_named_def locked_def split: if_splits)
next
  case (Some b)
  with assms find_Some_in[OF Some] show ?thesis
    by (intro that[of b]) (auto simp: mailbox_named_def locked_def split: if_splits)
qed

lemma mailbox_named_state: "snd (mailbox_named uid name st) = st"
  by (simp add: mailbox_named_def locked_def)

definition bump :: "int \<Rightarrow> mailbox_row list \<Rightarrow> mailbox_row list" where
  "bump bid = update_where (\<lambda>b. mb_id b = bid) (\<lambda>b. b\<lparr>mb_uidnext := mb_uidnext b + 1\<rparr>)"

lemma bump_sel:
  "mb_id ` set (bump bid bs) = mb_id ` set bs"
  "(\<lambda>b. (mb_user_id b, mb_name b)) ` set (bump bid bs) = (\<lambda>b. (mb_user_id b, mb_name b)) ` set bs"
  "map mb_id (bump bid bs) = map mb_id bs"
  "map (\<lambda>b. (mb_user_id b, mb_name b)) (bump bid bs) = map (\<lambda>b. (mb_user_id b, mb_name b)) bs"
  unfolding bump_def by (simp_all add: update_where_image update_where_map)

lemma mailboxes_ok_bump: "mailboxes_ok us bs \<Longrightarrow> mailboxes_ok us (bump bid bs)"
  by (auto simp: mailboxes_ok_def bump_sel) (auto simp: bump_def in_update_where)

lemma standard_mailboxes_bump: "standard_mailboxes us (bump bid bs) = standard_mailboxes us bs"
  by (simp add: standard_mailboxes_def bump_sel)

lemma messages_ok_bump: "messages_ok (bump bid bs) ms = messages_ok bs ms"
  by (simp add: messages_ok_def bump_sel)

definition new_message_row :: "int \<Rightarrow> new_message \<Rightarrow> int \<Rightarrow> int \<Rightarrow> store \<Rightarrow> message_row" where
  "new_message_row now msg bid uid st =
     \<lparr>m_id = next_rowid (map m_id (messages st)), m_mailbox_id = bid, m_message_id = nm_message_id msg,
      m_uid = uid, m_internaldate = now, m_flags = bits (nm_flags msg), m_subject = nm_subject msg,
      m_size = length (nm_body msg), m_body = nm_body msg, m_sender = nm_sender msg,
      m_trust_state = nm_trust_state msg\<rparr>"

lemma new_message_row_sel [simp]:
  "m_id (new_message_row now msg bid uid st) = next_rowid (map m_id (messages st))"
  "m_mailbox_id (new_message_row now msg bid uid st) = bid"
  "m_message_id (new_message_row now msg bid uid st) = nm_message_id msg"
  "m_uid (new_message_row now msg bid uid st) = uid"
  "m_flags (new_message_row now msg bid uid st) = bits (nm_flags msg)"
  "m_size (new_message_row now msg bid uid st) = length (nm_body msg)"
  "m_body (new_message_row now msg bid uid st) = nm_body msg"
  by (simp_all add: new_message_row_def)

lemma append_locked_eq:
  assumes "\<not> poisoned st"
  shows "append_locked now msg (bid, v, n) st =
    (if (bid, nm_message_id msg) \<in> (\<lambda>m. (m_mailbox_id m, m_message_id m)) ` set (messages st)
     then (Inl (DuplicateMessage (nm_message_id msg)), st)
     else if bid \<notin> mb_id ` set (mailboxes st) then (Inl (Storage ForeignKeyViolation), st)
     else (Inr (row_to_meta (new_message_row now msg bid n st) None v),
           st\<lparr>messages := messages st @ [new_message_row now msg bid n st], mailboxes := bump bid (mailboxes st)\<rparr>))"
proof -
  have "count_where (\<lambda>m. m_mailbox_id m = bid \<and> m_message_id m = nm_message_id msg) (messages st) > 0 \<longleftrightarrow>
      (bid, nm_message_id msg) \<in> (\<lambda>m. (m_mailbox_id m, m_message_id m)) ` set (messages st)"
    by (auto simp: count_where_def filter_empty_conv)
  then show ?thesis using assms
    by (simp add: append_locked_def locked_def Let_def row_to_meta_def new_message_row_def bump_def)
qed

lemma schema_append:
  assumes "schema_inv st" "bid \<in> mb_id ` set (mailboxes st)"
    "(bid, nm_message_id msg) \<notin> (\<lambda>m. (m_mailbox_id m, m_message_id m)) ` set (messages st)"
  shows "schema_inv (st\<lparr>messages := messages st @ [new_message_row now msg bid n st],
    mailboxes := bump bid (mailboxes st)\<rparr>)"
  using assms
  by (simp add: schema_inv_def mailboxes_ok_bump standard_mailboxes_bump messages_ok_def bump_sel(1))

lemma keeps_append_locked [inv_intros]: "keeps schema_inv (append_locked now msg box)"
proof
  fix st assume "schema_inv st"
  then show "schema_inv (snd (append_locked now msg box st))"
    by (cases box; cases "poisoned st") (auto simp: append_locked_eq schema_append, simp add: append_locked_def locked_def)
qed

lemma uids_append:
  assumes "uids_ok bs ms" "distinct (map mb_id bs)" "b \<in> set bs" "m_mailbox_id m = mb_id b" "m_uid m = mb_uidnext b"
    "1 \<le> mb_uidnext b"
  shows "uids_ok (bump (mb_id b) bs) (ms @ [m])"
proof -
  have lt: "m_uid x < mb_uidnext c" if "x \<in> set ms" "c \<in> set bs" "mb_id c = m_mailbox_id x" for x c
    using assms(1) that by (simp add: uids_ok_def)
  have "(m_mailbox_id m, m_uid m) \<notin> (\<lambda>m. (m_mailbox_id m, m_uid m)) ` set ms"
    using lt[OF _ assms(3)] assms(4,5) by force
  moreover have "m_uid x < mb_uidnext c"
    if "x \<in> set ms \<or> x = m" "c \<in> set (bump (mb_id b) bs)" "mb_id c = m_mailbox_id x" for x c
  proof -
    from that(2) obtain d where d: "d \<in> set bs" "c = (if mb_id d = mb_id b then d\<lparr>mb_uidnext := mb_uidnext d + 1\<rparr> else d)"
      by (auto simp: bump_def in_update_where)
    show ?thesis
    proof (cases "x = m")
      case True
      with that(3) d assms(4) have "mb_id d = mb_id b" by (auto split: if_splits)
      then have "d = b" using distinct_map_eqD[OF assms(2) d(1) assms(3)] by simp
      with d True assms(5) show ?thesis by simp
    next
      case False
      with that lt[of x d] d show ?thesis by (auto split: if_splits)
    qed
  qed
  moreover have "distinct (map (\<lambda>m. (m_mailbox_id m, m_uid m)) ms)" "\<forall>x \<in> set ms. 1 \<le> m_uid x" "1 \<le> m_uid m"
    using assms(1,5,6) by (simp_all add: uids_ok_def)
  ultimately show ?thesis unfolding uids_ok_def by simp
qed

lemma keeps_append_message_to [inv_intros]:
  "keeps schema_inv (append_message_to now uid name msg)" "keeps store_inv (append_message_to now uid name msg)"
proof -
  show s: "keeps schema_inv (append_message_to now uid name msg)"
    unfolding append_message_to_def by (rule inv_intros)+
  show "keeps store_inv (append_message_to now uid name msg)"
  proof
    fix st assume i: "store_inv st"
    then have sch: "schema_inv (snd (append_message_to now uid name msg st))"
      using s by (simp add: keeps_def store_inv_def)
    obtain r st1 where mn: "mailbox_named uid name st = (r, st1)" by fastforce
    have st1: "st1 = st" using mailbox_named_state[of uid name st] mn by simp
    show "store_inv (snd (append_message_to now uid name msg st))"
    proof (cases r)
      case (Inl e)
      with mn st1 i show ?thesis by (simp add: append_message_to_def bind_op_def)
    next
      case (Inr x)
      obtain bid v n where x: "x = (bid, v, n)" by (cases x)
      from mn Inr x obtain b where b: "b \<in> set (mailboxes st)" "mb_id b = bid" "mb_uidnext b = n" "\<not> poisoned st"
        by (auto elim: mailbox_named_ok)
      have "uids_ok (bump bid (mailboxes st)) (messages st @ [new_message_row now msg bid n st])"
        using i b uids_append[of "mailboxes st" "messages st" b "new_message_row now msg bid n st"]
        by (auto simp: store_inv_def schema_inv_def mailboxes_ok_def)
      with sch i mn Inr x st1 b show ?thesis
        by (auto simp: append_message_to_def bind_op_def append_locked_eq store_inv_def)
    qed
  qed
qed

lemma keeps_append_message [inv_intros]:
  "keeps schema_inv (append_message now uid msg)" "keeps store_inv (append_message now uid msg)"
  unfolding append_message_def by (rule inv_intros)+

lemma keeps_set_flags_in [inv_intros]:
  "keeps schema_inv (set_flags_in uid name i msk v)" "keeps store_inv (set_flags_in uid name i msk v)"
  unfolding set_flags_in_def
  by (rule keeps_bind[OF keeps_mailbox_named], clarsimp, rule keeps_locked,
      force simp: store_inv_def schema_inv_def messages_ok_def uids_ok_def update_where_map in_update_where)+

lemma keeps_set_flags [inv_intros]:
  "keeps schema_inv (set_flags uid i msk v)" "keeps store_inv (set_flags uid i msk v)"
  unfolding set_flags_def by (rule inv_intros)+

lemma keeps_expunge_in [inv_intros]:
  "keeps schema_inv (expunge_in uid name)" "keeps store_inv (expunge_in uid name)"
  unfolding expunge_in_def
  by (rule keeps_bind[OF keeps_mailbox_named], clarsimp, rule keeps_locked,
      simp add: Let_def store_inv_def schema_inv_def messages_ok_filter uids_ok_filter)+

lemma keeps_expunge [inv_intros]: "keeps schema_inv (expunge uid)" "keeps store_inv (expunge uid)"
  unfolding expunge_def by (rule inv_intros)+

end
