(* ===== verification/Sqlite_Props.thy ===== *)
theory Sqlite_Props
  imports Sqlite_Inv
begin

unbundle bit_operations_syntax

text \<open>
  What the operations of the mail store do: reachable stores, appending, listing and fetching
  messages, flags and expunging, UIDs over time, isolation of mailboxes, deleting users, and the
  ledger, keyring, shares and settings.
\<close>

subsection \<open>Reachable stores\<close>

text \<open>One constructor per operation that writes.\<close>

datatype store_cmd =
    CreateUser int rstr rstr bytes "rstr option" "rstr option"
  | SetPassword rstr rstr
  | SetIvk rstr "rstr option"
  | DeleteUser rstr
  | TxCreate int new_transaction
  | TxLink int int int
  | TxTransition int int tx_state
  | TxSetBinding int int "rstr option"
  | PinSender int int rstr rstr bytes
  | UnpinSender int rstr
  | AppendTo int int rstr new_message
  | SetFlags int rstr int "32 word" bool
  | Expunge int rstr
  | AddShare int rstr bytes
  | RevokeShare int rstr
  | SetSetting rstr rstr
  | DeleteSetting rstr

fun exec_cmd :: "store_cmd \<Rightarrow> store \<Rightarrow> store" where
  "exec_cmd (CreateUser now n h k i r) st = snd (create_user_full now n h k i r st)"
| "exec_cmd (SetPassword n h) st = snd (set_password n h st)"
| "exec_cmd (SetIvk n i) st = snd (set_ivk n i st)"
| "exec_cmd (DeleteUser n) st = snd (delete_user n st)"
| "exec_cmd (TxCreate now t) st = snd (tx_create now t st)"
| "exec_cmd (TxLink now i r) st = snd (tx_link_message now i r st)"
| "exec_cmd (TxTransition now i s) st = snd (tx_transition now i s st)"
| "exec_cmd (TxSetBinding now i b) st = snd (tx_set_binding now i b st)"
| "exec_cmd (PinSender now u s p a) st = snd (keyring_set_trusted now u s p a st)"
| "exec_cmd (UnpinSender u s) st = snd (unpin_keyring u s st)"
| "exec_cmd (AppendTo now u n m) st = snd (append_message_to now u n m st)"
| "exec_cmd (SetFlags u n i k v) st = snd (set_flags_in u n i k v st)"
| "exec_cmd (Expunge u n) st = snd (expunge_in u n st)"
| "exec_cmd (AddShare u s w) st = snd (add_share u s w st)"
| "exec_cmd (RevokeShare u s) st = snd (revoke_share u s st)"
| "exec_cmd (SetSetting k v) st = snd (set_setting k v st)"
| "exec_cmd (DeleteSetting k) st = snd (delete_setting k st)"

inductive store_reach :: "store \<Rightarrow> bool" where
  opened: "store_reach store_open"
| executed: "store_reach st \<Longrightarrow> store_reach (exec_cmd c st)"

lemma exec_cmd_keeps: "store_inv st \<Longrightarrow> store_inv (exec_cmd c st)" "schema_inv st \<Longrightarrow> schema_inv (exec_cmd c st)"
proof -
  have k: "keeps P f \<Longrightarrow> P st \<Longrightarrow> P (snd (f st))" for P and f :: "'x op" by (simp add: keeps_def)
  show "store_inv st \<Longrightarrow> store_inv (exec_cmd c st)" by (cases c) (auto intro!: k inv_intros)
  show "schema_inv st \<Longrightarrow> schema_inv (exec_cmd c st)" by (cases c) (auto intro!: k inv_intros)
qed

lemma store_inv_open: "store_inv store_open"
  by (simp add: store_inv_def schema_inv_def store_open_def users_ok_def keyring_ok_def shares_ok_def mailboxes_ok_def
      standard_mailboxes_def messages_ok_def settings_ok_def transactions_ok_def uids_ok_def)

lemma store_reach_inv: "store_reach st \<Longrightarrow> store_inv st"
  by (induction rule: store_reach.induct) (simp_all add: store_inv_open exec_cmd_keeps)

subsection \<open>Lookup\<close>

lemma find_mailbox:
  assumes "mailboxes_ok us (mailboxes st)" "b \<in> set (mailboxes st)"
  shows "find (\<lambda>c. mb_user_id c = mb_user_id b \<and> mb_name c = mb_name b) (mailboxes st) = Some b"
  using assms by (intro find_unique) (auto simp: mailboxes_ok_def dest: distinct_map_eqD)

lemma mailbox_named_eq:
  assumes "mailboxes_ok us (mailboxes st)" "b \<in> set (mailboxes st)" "\<not> poisoned st"
  shows "mailbox_named (mb_user_id b) (mb_name b) st = (Inr (mb_id b, mb_uidvalidity b, mb_uidnext b), st)"
  using assms by (simp add: mailbox_named_def locked_def find_mailbox)

text \<open>The joined rows of a mailbox, newest first.\<close>

definition mailbox_rows :: "int \<Rightarrow> store \<Rightarrow> (message_row \<times> tx_row option) list" where
  "mailbox_rows bid st = sort_key (\<lambda>(m, t). - m_uid m)
     (concat (map (join_tx (transactions st)) (filter (\<lambda>m. m_mailbox_id m = bid) (messages st))))"

definition metas :: "32 word \<Rightarrow> (message_row \<times> tx_row option) list \<Rightarrow> message_meta list" where
  "metas v = map (\<lambda>(m, t). row_to_meta m t v)"

lemma list_messages_in_eq:
  assumes "mailboxes_ok us (mailboxes st)" "b \<in> set (mailboxes st)" "\<not> poisoned st"
  shows "list_messages_in (mb_user_id b) (mb_name b) st = (Inr (metas (mb_uidvalidity b) (mailbox_rows (mb_id b) st)), st)"
  using assms
  by (simp add: list_messages_in_def bind_op_def mailbox_named_eq query_def locked_def mailbox_rows_def metas_def)

lemma in_join_tx: "(m', t) \<in> set (join_tx txs m) \<Longrightarrow> m' = m"
  by (auto simp: join_tx_def split: list.splits)

lemma sort_key_snoc_least:
  "(\<And>x. x \<in> set xs \<Longrightarrow> f y < f x) \<Longrightarrow> sort_key f (xs @ [y]) = y # sort_key f xs"
proof (induction xs)
  case (Cons x xs)
  then have "sort_key f (xs @ [y]) = y # sort_key f xs" by simp
  moreover have "\<not> f x \<le> f y" using Cons.prems[of x] by simp
  ultimately show ?case by simp
qed simp

lemma mailbox_rows_in: "(m, t) \<in> set (mailbox_rows bid st) \<Longrightarrow> m \<in> set (messages st) \<and> m_mailbox_id m = bid"
  by (auto simp: mailbox_rows_def dest: in_join_tx)

lemma mailbox_rows_append:
  assumes "m_mailbox_id row = bid" "\<And>m. m \<in> set (messages st) \<Longrightarrow> m_mailbox_id m = bid \<Longrightarrow> m_uid m < m_uid row"
    and "\<And>t. t \<in> set (transactions st) \<Longrightarrow> t_message_row_id t \<noteq> Some (m_id row)"
  shows "mailbox_rows bid (st\<lparr>messages := messages st @ [row], mailboxes := bs\<rparr>) = (row, None) # mailbox_rows bid st"
proof -
  have j: "join_tx (transactions st) row = [(row, None)]"
    using assms(3) by (simp add: join_tx_def filter_empty_conv[THEN iffD2])
  let ?old = "concat (map (join_tx (transactions st)) (filter (\<lambda>m. m_mailbox_id m = bid) (messages st)))"
  have "sort_key (\<lambda>(m, t). - m_uid m) (?old @ [(row, None)]) = (row, None) # sort_key (\<lambda>(m, t). - m_uid m) ?old"
    using assms(2) by (intro sort_key_snoc_least) (auto dest!: in_join_tx)
  then show ?thesis using assms(1) j by (simp add: mailbox_rows_def)
qed

lemma mailbox_rows_append_other:
  "m_mailbox_id row \<noteq> bid \<Longrightarrow>
     mailbox_rows bid (st\<lparr>messages := messages st @ [row], mailboxes := bs\<rparr>) = mailbox_rows bid st"
  by (simp add: mailbox_rows_def)

subsection \<open>Appending\<close>

lemma store_inv_boxes: "store_inv st \<Longrightarrow> mailboxes_ok (users st) (mailboxes st)"
  by (simp add: store_inv_def schema_inv_def)

lemma append_message_to_eq:
  assumes "store_inv st" "\<not> poisoned st" "b \<in> set (mailboxes st)"
  shows "append_message_to now (mb_user_id b) (mb_name b) msg st =
    (if (mb_id b, nm_message_id msg) \<in> (\<lambda>m. (m_mailbox_id m, m_message_id m)) ` set (messages st)
     then (Inl (DuplicateMessage (nm_message_id msg)), st)
     else (Inr (row_to_meta (new_message_row now msg (mb_id b) (mb_uidnext b) st) None (mb_uidvalidity b)),
           st\<lparr>messages := messages st @ [new_message_row now msg (mb_id b) (mb_uidnext b) st],
              mailboxes := bump (mb_id b) (mailboxes st)\<rparr>))"
  using assms by (simp add: append_message_to_def bind_op_def mailbox_named_eq[OF store_inv_boxes] append_locked_eq)

text \<open>A mailbox after a bump: the same row but for UIDNEXT.\<close>

lemma bump_row:
  assumes "c \<in> set bs"
  obtains c' where "c' \<in> set (bump bid bs)" "mb_user_id c' = mb_user_id c" "mb_name c' = mb_name c"
    "mb_id c' = mb_id c" "mb_uidvalidity c' = mb_uidvalidity c"
    "mb_uidnext c' = (if mb_id c = bid then mb_uidnext c + 1 else mb_uidnext c)"
proof (cases "mb_id c = bid")
  case True
  with assms show ?thesis
    by (intro that[of "c\<lparr>mb_uidnext := mb_uidnext c + 1\<rparr>"]) (auto simp: bump_def in_update_where)
next
  case False
  with assms show ?thesis by (intro that[of c]) (auto simp: bump_def in_update_where)
qed

lemma list_after_bump:
  assumes "mailboxes_ok (users st) (mailboxes st)" "\<not> poisoned st" "c \<in> set (mailboxes st)"
  shows "list_messages_in (mb_user_id c) (mb_name c) (st\<lparr>messages := ms, mailboxes := bump bid (mailboxes st)\<rparr>) =
    (Inr (metas (mb_uidvalidity c) (mailbox_rows (mb_id c) (st\<lparr>messages := ms, mailboxes := bump bid (mailboxes st)\<rparr>))),
     st\<lparr>messages := ms, mailboxes := bump bid (mailboxes st)\<rparr>)"
proof -
  let ?st = "st\<lparr>messages := ms, mailboxes := bump bid (mailboxes st)\<rparr>"
  obtain c' where c': "c' \<in> set (bump bid (mailboxes st))" "mb_user_id c' = mb_user_id c" "mb_name c' = mb_name c"
    "mb_id c' = mb_id c" "mb_uidvalidity c' = mb_uidvalidity c" by (rule bump_row[OF assms(3)])
  have "mailboxes_ok (users st) (mailboxes ?st)" using mailboxes_ok_bump[OF assms(1)] by simp
  from list_messages_in_eq[OF this, of c'] c' assms(2) show ?thesis by simp
qed

lemma fetch_appended:
  assumes "mailboxes_ok (users st) (mailboxes st)" "\<not> poisoned st" "b \<in> set (mailboxes st)"
    and "m_mailbox_id row = mb_id b" "m_id row \<notin> m_id ` set (messages st)"
    and "\<And>t. t \<in> set (transactions st) \<Longrightarrow> t_message_row_id t \<noteq> Some (m_id row)"
  shows "fetch_message_in (mb_user_id b) (mb_name b) (m_id row)
      (st\<lparr>messages := messages st @ [row], mailboxes := bump (mb_id b) (mailboxes st)\<rparr>) =
    (Inr \<lparr>msg_meta = row_to_meta row None (mb_uidvalidity b), msg_body = m_body row\<rparr>,
     st\<lparr>messages := messages st @ [row], mailboxes := bump (mb_id b) (mailboxes st)\<rparr>)"
proof -
  let ?st = "st\<lparr>messages := messages st @ [row], mailboxes := bump (mb_id b) (mailboxes st)\<rparr>"
  obtain c' where c': "c' \<in> set (bump (mb_id b) (mailboxes st))" "mb_user_id c' = mb_user_id b" "mb_name c' = mb_name b"
    "mb_id c' = mb_id b" "mb_uidvalidity c' = mb_uidvalidity b" by (rule bump_row[OF assms(3)])
  have "mailboxes_ok (users st) (mailboxes ?st)" using mailboxes_ok_bump[OF assms(1)] by simp
  then have mn: "mailbox_named (mb_user_id b) (mb_name b) ?st = (Inr (mb_id b, mb_uidvalidity b, mb_uidnext c'), ?st)"
    using mailbox_named_eq[of "users st" ?st c'] c' assms(2) by simp
  have "filter (\<lambda>m. m_mailbox_id m = mb_id b \<and> m_id m = m_id row) (messages st) = []"
    using assms(5) unfolding filter_empty_conv by (metis imageI)
  moreover have "join_tx (transactions st) row = [(row, None)]"
    using assms(6) by (simp add: join_tx_def filter_empty_conv[THEN iffD2])
  ultimately show ?thesis
    using mn assms(2,4) by (simp add: fetch_message_in_def bind_op_def locked_def)
qed

text \<open>No transaction points to the row id the next message will get.\<close>

definition no_stale_link :: "store \<Rightarrow> bool" where
  "no_stale_link st \<longleftrightarrow>
     (\<forall>t \<in> set (transactions st). t_message_row_id t \<noteq> Some (next_rowid (map m_id (messages st))))"

lemma uids_below: "store_inv st \<Longrightarrow> b \<in> set (mailboxes st) \<Longrightarrow> m \<in> set (messages st) \<Longrightarrow>
    m_mailbox_id m = mb_id b \<Longrightarrow> m_uid m < mb_uidnext b"
  by (auto simp: store_inv_def uids_ok_def)

lemma append_list_same:
  assumes "store_inv st" "\<not> poisoned st" "b \<in> set (mailboxes st)" "no_stale_link st"
    and "append_message_to now (mb_user_id b) (mb_name b) msg st = (Inr meta, st')"
  shows "list_messages_in (mb_user_id b) (mb_name b) st' =
    (Inr (meta # metas (mb_uidvalidity b) (mailbox_rows (mb_id b) st)), st')"
proof -
  let ?row = "new_message_row now msg (mb_id b) (mb_uidnext b) st"
  from assms(5) have st': "st' = st\<lparr>messages := messages st @ [?row], mailboxes := bump (mb_id b) (mailboxes st)\<rparr>"
    and meta: "meta = row_to_meta ?row None (mb_uidvalidity b)"
    by (auto simp: append_message_to_eq[OF assms(1-3)] split: if_splits)
  have "mailbox_rows (mb_id b) st' = (?row, None) # mailbox_rows (mb_id b) st"
    unfolding st' using assms(4) uids_below[OF assms(1,3)]
    by (intro mailbox_rows_append) (auto simp: no_stale_link_def)
  then show ?thesis
    using list_after_bump[OF store_inv_boxes[OF assms(1)] assms(2,3), of "mb_id b" "messages st @ [?row]"]
    by (simp add: st' meta metas_def)
qed

lemma append_list_other:
  assumes "store_inv st" "\<not> poisoned st" "b \<in> set (mailboxes st)" "c \<in> set (mailboxes st)" "c \<noteq> b"
    and "append_message_to now (mb_user_id b) (mb_name b) msg st = (r, st')"
  shows "fst (list_messages_in (mb_user_id c) (mb_name c) st') = fst (list_messages_in (mb_user_id c) (mb_name c) st)"
proof -
  have "mb_id c \<noteq> mb_id b"
    using store_inv_boxes[OF assms(1)] assms(3-5) by (auto simp: mailboxes_ok_def dest: distinct_map_eqD)
  then have o: "mailbox_rows (mb_id c) (st\<lparr>messages := messages st @ [new_message_row now msg (mb_id b) (mb_uidnext b) st],
      mailboxes := bump (mb_id b) (mailboxes st)\<rparr>) = mailbox_rows (mb_id c) st"
    by (intro mailbox_rows_append_other) simp
  show ?thesis
    using assms(6) o list_messages_in_eq[OF store_inv_boxes[OF assms(1)] assms(4,2)]
      list_after_bump[OF store_inv_boxes[OF assms(1)] assms(2,4), of
        "mb_id b" "messages st @ [new_message_row now msg (mb_id b) (mb_uidnext b) st]"]
    by (auto simp: append_message_to_eq[OF assms(1-3)] split: if_splits)
qed

lemma append_fetch:
  assumes "store_inv st" "\<not> poisoned st" "b \<in> set (mailboxes st)" "no_stale_link st"
    and "append_message_to now (mb_user_id b) (mb_name b) msg st = (Inr meta, st')"
  shows "fetch_message_in (mb_user_id b) (mb_name b) (mm_id meta) st' =
    (Inr \<lparr>msg_meta = meta, msg_body = nm_body msg\<rparr>, st')"
proof -
  let ?row = "new_message_row now msg (mb_id b) (mb_uidnext b) st"
  from assms(5) have st': "st' = st\<lparr>messages := messages st @ [?row], mailboxes := bump (mb_id b) (mailboxes st)\<rparr>"
    and meta: "meta = row_to_meta ?row None (mb_uidvalidity b)"
    by (auto simp: append_message_to_eq[OF assms(1-3)] split: if_splits)
  have "mm_id meta = m_id ?row" by (simp add: meta row_to_meta_def)
  then show ?thesis
    using fetch_appended[OF store_inv_boxes[OF assms(1)] assms(2,3), of ?row] assms(4)
    by (simp add: st' meta no_stale_link_def)
qed

subsection \<open>UIDs over time\<close>

definition owner_ok :: "int \<Rightarrow> rstr \<Rightarrow> store \<Rightarrow> bool" where
  "owner_ok uid owner st \<longleftrightarrow> (uid, owner) \<in> set (map (\<lambda>u. (u_id u, u_username u)) (users st))"

lemma owner_okI: "u \<in> set (users st) \<Longrightarrow> owner_ok (u_id u) (u_username u) st"
  by (auto simp: owner_ok_def)

definition box_kept :: "mailbox_row \<Rightarrow> store \<Rightarrow> bool" where
  "box_kept b st \<longleftrightarrow> (\<exists>c \<in> set (mailboxes st). mb_id c = mb_id b \<and> mb_user_id c = mb_user_id b \<and>
     mb_name c = mb_name b \<and> mb_uidvalidity c = mb_uidvalidity b \<and> mb_uidnext b \<le> mb_uidnext c)"

text \<open>The stores after any operations that do not delete the user \<open>owner\<close>.\<close>

inductive later :: "rstr \<Rightarrow> store \<Rightarrow> store \<Rightarrow> bool" for owner st where
  now: "later owner st st"
| then_cmd: "later owner st st' \<Longrightarrow> c \<noteq> DeleteUser owner \<Longrightarrow> later owner st (exec_cmd c st')"

lemma box_kept_self: "b \<in> set (mailboxes st) \<Longrightarrow> box_kept b st"
  by (auto simp: box_kept_def)

lemma box_kept_trans: "box_kept b st \<Longrightarrow> (\<And>c. c \<in> set (mailboxes st) \<Longrightarrow> box_kept c st') \<Longrightarrow> box_kept b st'"
proof -
  assume "box_kept b st" and k: "\<And>c. c \<in> set (mailboxes st) \<Longrightarrow> box_kept c st'"
  then obtain c where c: "c \<in> set (mailboxes st)" "mb_id c = mb_id b" "mb_user_id c = mb_user_id b"
    "mb_name c = mb_name b" "mb_uidvalidity c = mb_uidvalidity b" "mb_uidnext b \<le> mb_uidnext c"
    by (auto simp: box_kept_def)
  from k[OF c(1)] c(2-) show ?thesis by (fastforce simp: box_kept_def)
qed

lemma get_user_cases:
  obtains "get_user n st = (Inl Poisoned, st)" "poisoned st"
  | "get_user n st = (Inr None, st)" "n \<notin> u_username ` set (users st)" "\<not> poisoned st"
  | r where "get_user n st = (Inr (Some (user_of_row r)), st)" "r \<in> set (users st)" "u_username r = n" "\<not> poisoned st"
proof (cases "poisoned st")
  case True
  then show ?thesis by (intro that(1)) (simp_all add: get_user_def query_def locked_def)
next
  case False
  show ?thesis
  proof (cases "find (\<lambda>r. u_username r = n) (users st)")
    case None
    with False show ?thesis
      by (intro that(2)) (auto simp: get_user_def query_def locked_def find_None_iff)
  next
    case (Some r)
    with False find_Some_in[OF Some] show ?thesis
      by (intro that(3)[of r]) (auto simp: get_user_def query_def locked_def)
  qed
qed

lemma delete_user_step:
  assumes "users_ok (users st)" "owner_ok uid owner st" "n \<noteq> owner"
  shows "owner_ok uid owner (snd (delete_user n st))"
    and "b \<in> set (mailboxes st) \<Longrightarrow> mb_user_id b = uid \<Longrightarrow> b \<in> set (mailboxes (snd (delete_user n st)))"
proof -
  obtain u where u: "u \<in> set (users st)" "u_id u = uid" "u_username u = owner"
    using assms(2) by (auto simp: owner_ok_def)
  have "owner_ok uid owner (snd (delete_user n st)) \<and>
    (b \<in> set (mailboxes st) \<longrightarrow> mb_user_id b = uid \<longrightarrow> b \<in> set (mailboxes (snd (delete_user n st))))"
  proof (rule get_user_cases[of n st])
    fix r assume r: "get_user n st = (Inr (Some (user_of_row r)), st)" "r \<in> set (users st)" "u_username r = n" "\<not> poisoned st"
    have "u_id r \<noteq> uid"
      using assms(1,3) r u distinct_map_eqD[of u_id "users st" r u] by (auto simp: users_ok_def)
    then have k: "u \<in> set (users (delete_user_rows (user_of_row r) st))"
      "b \<in> set (mailboxes st) \<Longrightarrow> mb_user_id b = uid \<Longrightarrow> b \<in> set (mailboxes (delete_user_rows (user_of_row r) st))"
      using u by (simp_all add: delete_user_rows_sel user_of_row_def)
    have e: "snd (delete_user n st) = delete_user_rows (user_of_row r) st"
      using r(1,4) by (simp add: delete_user_def bind_op_def locked_def)
    from owner_okI[OF k(1)] k(2) u(2,3) show ?thesis unfolding e by simp
  qed (use assms(2) in \<open>simp_all add: delete_user_def bind_op_def fail_op_def\<close>)
  then show "owner_ok uid owner (snd (delete_user n st))"
    "b \<in> set (mailboxes st) \<Longrightarrow> mb_user_id b = uid \<Longrightarrow> b \<in> set (mailboxes (snd (delete_user n st)))" by auto
qed

lemma append_boxes:
  "mailboxes (snd (append_message_to now u n m st)) = mailboxes st \<or>
   (\<exists>bid. mailboxes (snd (append_message_to now u n m st)) = bump bid (mailboxes st))"
  "users (snd (append_message_to now u n m st)) = users st"
  by (auto simp: append_message_to_def bind_op_def mailbox_named_def append_locked_def locked_def Let_def bump_def
      split: option.splits)

lemma create_boxes:
  assumes "mailboxes_ok (users st) (mailboxes st)"
  shows "set (users st) \<subseteq> set (users (snd (create_user_full now n h k i r st)))"
    "set (mailboxes st) \<subseteq> set (mailboxes (snd (create_user_full now n h k i r st)))"
proof -
  have "set (users st) \<subseteq> set (users (snd (create_user_full now n h k i r st))) \<and>
    set (mailboxes st) \<subseteq> set (mailboxes (snd (create_user_full now n h k i r st)))"
  proof (cases "poisoned st")
    case True
    then show ?thesis by (simp add: create_user_full_def locked_def)
  next
    case False
    then show ?thesis by (simp add: create_user_full_eq[OF assms]) blast
  qed
  then show "set (users st) \<subseteq> set (users (snd (create_user_full now n h k i r st)))"
    "set (mailboxes st) \<subseteq> set (mailboxes (snd (create_user_full now n h k i r st)))" by auto
qed

lemma exec_cmd_step:
  assumes "store_inv st" "owner_ok uid owner st" "c \<noteq> DeleteUser owner"
  shows "owner_ok uid owner (exec_cmd c st) \<and>
    (\<forall>b \<in> set (mailboxes st). mb_user_id b = uid \<longrightarrow> box_kept b (exec_cmd c st))"
proof -
  note defs = locked_def require_rows_def Let_def bind_op_def mailbox_named_state
  have same: ?thesis if "users (exec_cmd c st) = users st" "mailboxes (exec_cmd c st) = mailboxes st"
    using that assms(2) by (auto simp: owner_ok_def box_kept_def)
  have upd: ?thesis if "map (\<lambda>u. (u_id u, u_username u)) (users (exec_cmd c st)) = map (\<lambda>u. (u_id u, u_username u)) (users st)"
      "mailboxes (exec_cmd c st) = mailboxes st"
    using that assms(2) unfolding owner_ok_def box_kept_def by auto
  have nm: "mailboxes (snd (f st)) = mailboxes st" if "mail_unchanged f" for f :: "'x op"
    using that by (simp add: mail_unchanged_def)
  show ?thesis
  proof (cases c)
    case (CreateUser now n h k i r)
    show ?thesis
      using create_boxes[OF store_inv_boxes[OF assms(1)], of now n h k i r] assms(2)
      unfolding CreateUser exec_cmd.simps owner_ok_def set_map by (auto intro!: box_kept_self)
  next
    case (SetPassword n h)
    show ?thesis by (rule upd) (simp_all add: SetPassword set_password_def defs update_where_map)
  next
    case (SetIvk n i)
    show ?thesis by (rule upd) (simp_all add: SetIvk set_ivk_def defs update_where_map)
  next
    case (DeleteUser n)
    with assms(3) have "n \<noteq> owner" by simp
    from delete_user_step[OF _ assms(2) this] assms(1) show ?thesis
      by (auto simp: DeleteUser store_inv_def schema_inv_def intro: box_kept_self)
  next
    case (AppendTo now u n m)
    have "box_kept b (exec_cmd c st)" if "b \<in> set (mailboxes st)" for b
      using append_boxes(1)[of now u n m st]
    proof
      assume "mailboxes (snd (append_message_to now u n m st)) = mailboxes st"
      with that show ?thesis by (simp add: AppendTo box_kept_self)
    next
      assume "\<exists>bid. mailboxes (snd (append_message_to now u n m st)) = bump bid (mailboxes st)"
      then obtain bid where e: "mailboxes (snd (append_message_to now u n m st)) = bump bid (mailboxes st)" ..
      from that obtain b' where "b' \<in> set (bump bid (mailboxes st))" "mb_user_id b' = mb_user_id b" "mb_name b' = mb_name b"
        "mb_id b' = mb_id b" "mb_uidvalidity b' = mb_uidvalidity b"
        "mb_uidnext b' = (if mb_id b = bid then mb_uidnext b + 1 else mb_uidnext b)" by (rule bump_row)
      with e show ?thesis by (auto simp: AppendTo box_kept_def)
    qed
    with assms(2) show ?thesis by (simp add: AppendTo append_boxes(2) owner_ok_def)
  qed (rule same; simp add: defs non_mail_defs set_flags_in_def expunge_in_def split: sum.splits prod.splits;
       simp add: mailbox_named_def locked_def split: if_splits option.splits)+
qed

lemma later_keeps:
  assumes "later owner st st'" "store_inv st" "owner_ok (mb_user_id b) owner st" "b \<in> set (mailboxes st)"
  shows "store_inv st' \<and> owner_ok (mb_user_id b) owner st' \<and> box_kept b st'"
  using assms
proof (induction rule: later.induct)
  case now
  then show ?case by (simp add: box_kept_self)
next
  case (then_cmd st' c)
  then have ih: "store_inv st'" "owner_ok (mb_user_id b) owner st'" "box_kept b st'" by auto
  from ih(3) obtain c' where "c' \<in> set (mailboxes st')" "mb_id c' = mb_id b" "mb_user_id c' = mb_user_id b"
    "mb_name c' = mb_name b" "mb_uidvalidity c' = mb_uidvalidity b" "mb_uidnext b \<le> mb_uidnext c'"
    by (auto simp: box_kept_def)
  moreover note step = exec_cmd_step[OF ih(1,2) then_cmd.hyps(2)]
  ultimately have "box_kept b (exec_cmd c st')" by (fastforce simp: box_kept_def)
  with step exec_cmd_keeps(1)[OF ih(1)] show ?case by blast
qed

subsection \<open>Key-value tables as an interface\<close>

text \<open>
  What a client of a key-value table relies on: a write is seen at its key and nowhere else,
  a removal empties its key and nothing else.
\<close>

locale kv_table =
  fixes get :: "store \<Rightarrow> 'k \<Rightarrow> 'v option"
    and put :: "'k \<Rightarrow> 'v \<Rightarrow> store \<Rightarrow> store"
    and del :: "'k \<Rightarrow> store \<Rightarrow> store"
    and ok :: "store \<Rightarrow> bool"
  assumes get_put: "ok st \<Longrightarrow> get (put k v st) l = (if l = k then Some v else get st l)"
    and get_del: "ok st \<Longrightarrow> get (del k st) l = (if l = k then None else get st l)"
    and put_ok: "ok st \<Longrightarrow> ok (put k v st)"
    and del_ok: "ok st \<Longrightarrow> ok (del k st)"
begin

lemma last_write_wins: "ok st \<Longrightarrow> get (put k v (put k u st)) l = get (put k v st) l"
  by (simp add: get_put put_ok)

lemma writes_commute: "ok st \<Longrightarrow> k \<noteq> k' \<Longrightarrow> get (put k v (put k' u st)) l = get (put k' u (put k v st)) l"
  by (simp add: get_put put_ok)

lemma put_then_del: "ok st \<Longrightarrow> get st k = None \<Longrightarrow> get (del k (put k v st)) l = get st l"
  by (simp add: get_put get_del put_ok)

lemma history:
  "ok st \<Longrightarrow> get (fold (\<lambda>(k, v). put k v) kvs st) l =
     (case map_of (rev kvs) l of None \<Rightarrow> get st l | Some v \<Rightarrow> Some v)"
  by (induction kvs arbitrary: st) (auto simp: get_put put_ok map_add_def split: option.splits)

end

definition setting_of :: "store \<Rightarrow> rstr \<Rightarrow> rstr option" where
  "setting_of st k = (case fst (get_setting k st) of Inl _ \<Rightarrow> None | Inr v \<Rightarrow> v)"

definition settings_usable :: "store \<Rightarrow> bool" where
  "settings_usable st \<longleftrightarrow> settings_ok (settings st) \<and> \<not> poisoned st"

lemma setting_of_map: "\<not> poisoned st \<Longrightarrow> setting_of st k = map_of (settings st) k"
proof -
  have "map_option snd (find (\<lambda>(k', _). k' = k) xs) = map_of xs k" for xs :: "(rstr \<times> rstr) list"
    by (induction xs) auto
  then show "\<not> poisoned st \<Longrightarrow> ?thesis" by (simp add: setting_of_def get_setting_def query_def locked_def)
qed

lemma map_of_update_where:
  "map_of (update_where (\<lambda>(j, _). j = k) (\<lambda>_. (k, v)) xs) l =
     (if l = k \<and> k \<in> fst ` set xs then Some v else map_of xs l)"
  by (induction xs) (force simp: update_where_def)+

lemma set_setting_of:
  "\<not> poisoned st \<Longrightarrow> setting_of (snd (set_setting k v st)) l = (if l = k then Some v else setting_of st l)"
  by (auto simp: setting_of_map set_setting_def locked_def map_of_update_where map_add_def
      split: option.splits dest: map_of_SomeD intro: rev_image_eqI)

lemma delete_setting_of:
  "\<not> poisoned st \<Longrightarrow> setting_of (snd (delete_setting k st)) l = (if l = k then None else setting_of st l)"
proof -
  assume p: "\<not> poisoned st"
  have f: "map_of (filter (\<lambda>(j, _). j \<noteq> k) xs) l = (if l = k then None else map_of xs l)" for xs :: "(rstr \<times> rstr) list"
    by (induction xs) auto
  show ?thesis
  proof (cases "count_where (\<lambda>(j, _). j = k) (settings st) = 0")
    case True
    then have "k \<notin> fst ` set (settings st)" by (auto simp: count_where_def filter_empty_conv)
    then have "map_of (settings st) k = None" by (simp add: map_of_eq_None_iff)
    with True p show ?thesis by (auto simp: setting_of_map delete_setting_def locked_def require_rows_def)
  next
    case False
    with p f show ?thesis by (simp add: setting_of_map delete_setting_def locked_def require_rows_def)
  qed
qed

lemma settings_poisoned [simp]:
  "poisoned (snd (set_setting k v st)) = poisoned st" "poisoned (snd (delete_setting k st)) = poisoned st"
  by (simp_all add: set_setting_def delete_setting_def locked_def require_rows_def)

interpretation setting_table: kv_table setting_of "\<lambda>k v st. snd (set_setting k v st)"
    "\<lambda>k st. snd (delete_setting k st)" "\<lambda>st. \<not> poisoned st"
  by unfold_locales (simp_all add: set_setting_of delete_setting_of)

text \<open>The pins of one user: the key recorded for a sender.\<close>

definition pin_of :: "int \<Rightarrow> store \<Rightarrow> rstr \<Rightarrow> rstr option" where
  "pin_of uid st s = (case fst (keyring_sender_key uid s st) of Inl _ \<Rightarrow> None | Inr v \<Rightarrow> v)"

definition keyring_usable :: "int \<Rightarrow> store \<Rightarrow> bool" where
  "keyring_usable uid st \<longleftrightarrow> schema_inv st \<and> \<not> poisoned st \<and> uid \<in> u_id ` set (users st)"

lemma pin_of_eq:
  "\<not> poisoned st \<Longrightarrow> pin_of uid st s = map_option k_sender_pubkey
     (find (\<lambda>k. k_user_id k = uid \<and> k_sender_mailbox k = s \<and> k_state k = ''trusted'') (keyring_entries st))"
  by (simp add: pin_of_def keyring_sender_key_def query_def locked_def)

lemma find_update_where:
  "(\<And>x. x \<in> set xs \<Longrightarrow> Q x \<Longrightarrow> P (f x) = P x) \<Longrightarrow>
     find P (update_where Q f xs) = map_option (\<lambda>x. if Q x then f x else x) (find P xs)"
  by (induction xs) (auto simp: update_where_def)

lemma find_append: "find P (xs @ ys) = (case find P xs of None \<Rightarrow> find P ys | Some x \<Rightarrow> Some x)"
  by (induction xs) auto

lemma pin_set:
  assumes "keyring_usable uid st"
  shows "pin_of uid (snd (keyring_set_trusted now uid s pk att st)) l = (if l = s then Some pk else pin_of uid st l)"
proof -
  let ?P = "\<lambda>x k. k_user_id k = uid \<and> k_sender_mailbox k = x \<and> k_state k = ''trusted''"
  have tr: "k_state k = ''trusted''" if "k \<in> set (keyring_entries st)" for k
    using assms that by (simp add: keyring_usable_def schema_inv_def keyring_ok_def)
  show ?thesis
  proof (cases "(uid, s) \<in> set (map (\<lambda>k. (k_user_id k, k_sender_mailbox k)) (keyring_entries st))")
    case True
    let ?Q = "\<lambda>k. k_user_id k = uid \<and> k_sender_mailbox k = s"
    let ?f = "\<lambda>k. k\<lparr>k_sender_pubkey := pk, k_attestation := att, k_state := ''trusted''\<rparr>"
    from True obtain y where y: "find (?P s) (keyring_entries st) = Some y"
      using tr by (cases "find (?P s) (keyring_entries st)") (auto simp: find_None_iff)
    have u: "find (?P l) (update_where ?Q ?f (keyring_entries st)) =
        map_option (\<lambda>k. if ?Q k then ?f k else k) (find (?P l) (keyring_entries st))"
      using tr by (intro find_update_where) auto
    have "pin_of uid (snd (keyring_set_trusted now uid s pk att st)) l =
        map_option k_sender_pubkey (find (?P l) (update_where ?Q ?f (keyring_entries st)))"
      using assms True by (simp add: pin_of_eq keyring_usable_def keyring_set_trusted_def locked_def)
    also have "\<dots> = (if l = s then Some pk else pin_of uid st l)"
      unfolding u using assms y find_Some_in[OF y]
      by (auto simp: pin_of_eq keyring_usable_def option.map_comp intro!: map_option_cong dest: find_Some_in)
    finally show ?thesis .
  next
    case False
    then have "find (?P s) (keyring_entries st) = None" by (auto simp: find_None_iff)
    then show ?thesis using assms False
      by (auto simp: pin_of_eq keyring_usable_def keyring_set_trusted_def locked_def find_append split: option.splits)
  qed
qed

lemma pin_unset:
  assumes "keyring_usable uid st"
  shows "pin_of uid (snd (unpin_keyring uid s st)) l = (if l = s then None else pin_of uid st l)"
proof -
  let ?P = "\<lambda>x k. k_user_id k = uid \<and> k_sender_mailbox k = x \<and> k_state k = ''trusted''"
  have a: "find (?P l) (filter (\<lambda>k. \<not> (k_user_id k = uid \<and> k_sender_mailbox k = s)) xs) =
      (if l = s then None else find (?P l) xs)" for xs
    by (induction xs) auto
  show ?thesis
  proof (cases "filter (\<lambda>k. k_user_id k = uid \<and> k_sender_mailbox k = s) (keyring_entries st) = []")
    case True
    then have "find (?P s) (keyring_entries st) = None" by (auto simp: find_None_iff filter_empty_conv)
    with True assms show ?thesis
      by (simp add: pin_of_eq keyring_usable_def unpin_keyring_def locked_def require_rows_def count_where_def)
  next
    case False
    with assms a[of "keyring_entries st"] show ?thesis
      by (cases "l = s")
        (simp_all add: pin_of_eq keyring_usable_def unpin_keyring_def locked_def require_rows_def count_where_def)
  qed
qed

lemma keyring_usable_keep:
  assumes "keyring_usable uid st"
  shows "keyring_usable uid (snd (keyring_set_trusted now u s pk att st))" "keyring_usable uid (snd (unpin_keyring u s st))"
proof -
  have "schema_inv (snd (keyring_set_trusted now u s pk att st))" "schema_inv (snd (unpin_keyring u s st))"
    using assms keeps_keyring_set_trusted keeps_unpin_keyring by (simp_all add: keeps_def keyring_usable_def)
  with assms show "keyring_usable uid (snd (keyring_set_trusted now u s pk att st))"
    "keyring_usable uid (snd (unpin_keyring u s st))"
    by (simp_all add: keyring_usable_def keyring_set_trusted_def unpin_keyring_def locked_def require_rows_def)
qed

interpretation pin_table: kv_table "pin_of uid" "\<lambda>s v st. snd (keyring_set_trusted now uid s v att st)"
    "\<lambda>s st. snd (unpin_keyring uid s st)" "keyring_usable uid"
  for uid now att
  by unfold_locales (simp_all add: pin_set pin_unset keyring_usable_keep)

subsection \<open>Flags and expunging\<close>

lemma filter_join: "filter (\<lambda>(m, t). P m) (join_tx txs m) = (if P m then join_tx txs m else [])"
proof -
  have "\<forall>x \<in> set (join_tx txs m). fst x = m" using in_join_tx by fastforce
  then show ?thesis by (auto simp: filter_empty_conv case_prod_beta intro!: filter_True)
qed

lemma mailbox_rows_filter:
  "mailbox_rows bid (st\<lparr>messages := filter P (messages st)\<rparr>) = filter (\<lambda>(m, t). P m) (mailbox_rows bid st)"
proof -
  have "concat (map (join_tx txs) (filter (\<lambda>m. m_mailbox_id m = bid) (filter P ms))) =
      filter (\<lambda>(m, t). P m) (concat (map (join_tx txs) (filter (\<lambda>m. m_mailbox_id m = bid) ms)))" for txs ms
    by (induction ms) (simp_all add: filter_join)
  then show ?thesis by (simp add: mailbox_rows_def filter_sort)
qed

lemma sort_key_map_same: "(\<And>x. f (g x) = f x) \<Longrightarrow> sort_key f (map g xs) = map g (sort_key f xs)"
proof -
  assume g: "\<And>x. f (g x) = f x"
  have "insort_key f (g x) (map g ys) = map g (insort_key f x ys)" for x ys by (induction ys) (simp_all add: g)
  then show ?thesis by (induction xs) simp_all
qed

lemma join_update:
  assumes "\<And>m. m_id (f m) = m_id m"
  shows "join_tx txs (f m) = map (\<lambda>(m, t). (f m, t)) (join_tx txs m)"
  using assms by (simp add: join_tx_def split: list.splits)

lemma mailbox_rows_update:
  assumes "\<And>m. m_id (f m) = m_id m" "\<And>m. m_mailbox_id (f m) = m_mailbox_id m" "\<And>m. m_uid (f m) = m_uid m"
  shows "mailbox_rows bid (st\<lparr>messages := map f (messages st)\<rparr>) = map (\<lambda>(m, t). (f m, t)) (mailbox_rows bid st)"
proof -
  have "concat (map (join_tx txs) (filter (\<lambda>m. m_mailbox_id m = bid) (map f ms))) =
      map (\<lambda>(m, t). (f m, t)) (concat (map (join_tx txs) (filter (\<lambda>m. m_mailbox_id m = bid) ms)))" for txs ms
    by (induction ms) (simp_all add: join_update assms(1,2))
  then show ?thesis
    by (simp add: mailbox_rows_def) (rule sort_key_map_same, auto simp: assms(3))
qed

definition expunged :: "int \<Rightarrow> message_row \<Rightarrow> bool" where
  "expunged bid m \<longleftrightarrow> m_mailbox_id m = bid \<and> m_flags m AND DELETED \<noteq> 0"

lemma expunge_in_eq:
  assumes "store_inv st" "\<not> poisoned st" "b \<in> set (mailboxes st)"
  shows "expunge_in (mb_user_id b) (mb_name b) st =
    (Inr (map (\<lambda>m. word_of_int (m_uid m)) (sort_key m_uid (filter (expunged (mb_id b)) (messages st)))),
     st\<lparr>messages := filter (\<lambda>m. \<not> expunged (mb_id b) m) (messages st)\<rparr>)"
  using assms by (simp add: expunge_in_def bind_op_def mailbox_named_eq[OF store_inv_boxes] locked_def Let_def
      expunged_def[abs_def])

lemma list_with_messages:
  assumes "store_inv st" "\<not> poisoned st" "c \<in> set (mailboxes st)"
  shows "list_messages_in (mb_user_id c) (mb_name c) (st\<lparr>messages := ms\<rparr>) =
    (Inr (metas (mb_uidvalidity c) (mailbox_rows (mb_id c) (st\<lparr>messages := ms\<rparr>))), st\<lparr>messages := ms\<rparr>)"
  using assms store_inv_boxes[OF assms(1)] list_messages_in_eq[of "users st" "st\<lparr>messages := ms\<rparr>" c] by simp

lemma mailbox_id_eq:
  "store_inv st \<Longrightarrow> b \<in> set (mailboxes st) \<Longrightarrow> c \<in> set (mailboxes st) \<Longrightarrow> mb_id c = mb_id b \<longleftrightarrow> c = b"
  using store_inv_boxes[of st] distinct_map_eqD[of mb_id "mailboxes st" c b] by (auto simp: mailboxes_ok_def)

lemma metas_filter:
  "filter (\<lambda>x. P (mm_flags x)) (metas v rows) = metas v (filter (\<lambda>(m, t). P (MessageFlags (m_flags m))) rows)"
  by (induction rows) (auto simp: metas_def row_to_meta_def)

lemma list_after_expunge:
  assumes "store_inv st" "\<not> poisoned st" "b \<in> set (mailboxes st)" "c \<in> set (mailboxes st)"
  shows "fst (list_messages_in (mb_user_id c) (mb_name c) (snd (expunge_in (mb_user_id b) (mb_name b) st))) =
    Inr (filter (\<lambda>m. c = b \<longrightarrow> \<not> is_deleted (mm_flags m)) (metas (mb_uidvalidity c) (mailbox_rows (mb_id c) st)))"
proof -
  have "filter (\<lambda>(m, t). \<not> expunged (mb_id b) m) (mailbox_rows (mb_id c) st) =
      filter (\<lambda>(m, t). c = b \<longrightarrow> \<not> is_deleted (MessageFlags (m_flags m))) (mailbox_rows (mb_id c) st)"
    using mailbox_id_eq[OF assms(1,3,4)] mailbox_rows_in
    by (intro filter_cong) (auto simp: expunged_def is_deleted_def flags_contains_def)
  then show ?thesis
    using list_with_messages[OF assms(1,2,4)] metas_filter[of "\<lambda>f. c = b \<longrightarrow> \<not> is_deleted f"]
    by (simp add: expunge_in_eq[OF assms(1-3)] mailbox_rows_filter)
qed

definition flag_update :: "32 word \<Rightarrow> bool \<Rightarrow> message_flags \<Rightarrow> message_flags" where
  "flag_update k v f = (if v then flags_insert f k else flags_remove f k)"

lemma set_flags_in_eq:
  assumes "store_inv st" "\<not> poisoned st" "b \<in> set (mailboxes st)"
  shows "set_flags_in (mb_user_id b) (mb_name b) i k v st =
    (Inr (), st\<lparr>messages := map (\<lambda>m. if m_mailbox_id m = mb_id b \<and> m_id m = i
       then m\<lparr>m_flags := bits (flag_update k v (MessageFlags (m_flags m)))\<rparr> else m) (messages st)\<rparr>)"
  using assms
  by (simp add: set_flags_in_def bind_op_def mailbox_named_eq[OF store_inv_boxes] locked_def update_where_def
      flag_update_def flags_insert_def flags_remove_def cong: if_cong)

lemma list_after_set_flags:
  assumes "store_inv st" "\<not> poisoned st" "b \<in> set (mailboxes st)" "c \<in> set (mailboxes st)"
  shows "fst (list_messages_in (mb_user_id c) (mb_name c) (snd (set_flags_in (mb_user_id b) (mb_name b) i k v st))) =
    Inr (map (\<lambda>m. if c = b \<and> mm_id m = i then m\<lparr>mm_flags := flag_update k v (mm_flags m)\<rparr> else m)
      (metas (mb_uidvalidity c) (mailbox_rows (mb_id c) st)))"
proof -
  let ?f = "\<lambda>m. if m_mailbox_id m = mb_id b \<and> m_id m = i
       then m\<lparr>m_flags := bits (flag_update k v (MessageFlags (m_flags m)))\<rparr> else m"
  have "mailbox_rows (mb_id c) (st\<lparr>messages := map ?f (messages st)\<rparr>) = map (\<lambda>(m, t). (?f m, t)) (mailbox_rows (mb_id c) st)"
    by (rule mailbox_rows_update) auto
  moreover have "row_to_meta (?f m) t u = (let x = row_to_meta m t u in
      if c = b \<and> mm_id x = i then x\<lparr>mm_flags := flag_update k v (mm_flags x)\<rparr> else x)"
    if "(m, t) \<in> set (mailbox_rows (mb_id c) st)" for m t u
    using mailbox_rows_in[OF that] mailbox_id_eq[OF assms(1,3,4)] by (auto simp: row_to_meta_def Let_def)
  ultimately show ?thesis
    using list_with_messages[OF assms(1,2,4)]
    by (auto simp: set_flags_in_eq[OF assms(1-3)] metas_def Let_def)
qed

lemma mailbox_ids_of_iff:
  assumes "store_inv st" "b \<in> set (mailboxes st)"
  shows "mb_id b \<in> set (mailbox_ids_of i st) \<longleftrightarrow> mb_user_id b = i"
proof
  assume "mb_id b \<in> set (mailbox_ids_of i st)"
  then obtain c where "c \<in> set (mailboxes st)" "mb_user_id c = i" "mb_id b = mb_id c"
    unfolding set_mailbox_ids_of by blast
  with mailbox_id_eq[OF assms, of c] show "mb_user_id b = i" by simp
qed (use assms(2) in \<open>auto simp: set_mailbox_ids_of\<close>)

lemma mailbox_key_unique:
  "store_inv st \<Longrightarrow> b \<in> set (mailboxes st) \<Longrightarrow> c \<in> set (mailboxes st) \<Longrightarrow>
     mb_user_id c = mb_user_id b \<Longrightarrow> mb_name c = mb_name b \<Longrightarrow> c = b"
  using store_inv_boxes[of st] distinct_map_eqD[of "\<lambda>c. (mb_user_id c, mb_name c)" "mailboxes st" c b]
  by (simp add: mailboxes_ok_def)

end
