(* ===== verification/Store_Claims.thy ===== *)
theory Store_Claims
  imports Sqlite_Props
begin

unbundle bit_operations_syntax

text \<open>
  The properties of the mail store, over the lemmas of \<open>Sqlite_Inv\<close> and \<open>Sqlite_Props\<close>, each with
  an instance on a store built by the operations themselves.
\<close>

subsection \<open>Example stores\<close>

definition bob_store :: store where
  "bob_store = exec_cmd (CreateUser 1000 ''bob'' ''h'' [] None None) store_open"

definition two_users :: store where
  "two_users = exec_cmd (CreateUser 1000 ''ann'' ''h'' [] None None) bob_store"

definition demo_msg :: "rstr \<Rightarrow> new_message" where
  "demo_msg mid = new_message_invoice mid ''subject'' ''body''"

lemma bob_reach: "store_reach bob_store"
  unfolding bob_store_def by (intro store_reach.intros)

lemma two_users_reach: "store_reach two_users"
  unfolding two_users_def by (intro store_reach.intros bob_reach)

definition bob_inbox :: mailbox_row where
  "bob_inbox = \<lparr>mb_id = 1, mb_user_id = 1, mb_name = ''INBOX'', mb_uidvalidity = 1000, mb_uidnext = 1\<rparr>"

definition ann_inbox :: mailbox_row where
  "ann_inbox = \<lparr>mb_id = 3, mb_user_id = 2, mb_name = ''INBOX'', mb_uidvalidity = 1000, mb_uidnext = 1\<rparr>"

lemma bob_inbox_in: "bob_inbox \<in> set (mailboxes bob_store)" "bob_inbox \<in> set (mailboxes two_users)"
  "ann_inbox \<in> set (mailboxes two_users)" "ann_inbox \<noteq> bob_inbox"
  by code_simp+

lemma demo_ready: "\<not> poisoned bob_store" "\<not> poisoned two_users" "no_stale_link bob_store"
  by code_simp+

subsection \<open>Invariant\<close>

text \<open>
  C8. Every store reachable from a fresh one by any sequence of operations satisfies the store
  invariant: user names, ids and every key of the schema are unique, every reference points to an
  existing row, every user has an INBOX and a Sent mailbox, recorded sizes are the sizes of the
  bodies, and the UIDs of a mailbox are distinct and below its UIDNEXT.
\<close>

theorem reachable_store_invariant:
  assumes "store_reach st" shows "store_inv st"
  using assms by (rule store_reach_inv)

theorem reachable_store_invariant_witness: "store_inv two_users"
  using two_users_reach by (rule reachable_store_invariant)

subsection \<open>Messages\<close>

text \<open>
  C12. Appending a message: a message id already in the mailbox is refused and nothing changes;
  otherwise the message gets the mailbox's UIDNEXT as its UID, it is the first entry of the listing
  and the rest of the listing is as before, fetching it by its row id returns its body exactly, and
  no other mailbox changes. (No transaction may point to the row id the message gets; see the
  property on reused row ids.)
\<close>

theorem append_message_effect:
  assumes "store_reach st" "\<not> poisoned st" "no_stale_link st" "b \<in> set (mailboxes st)"
    and "append_message_to t (mb_user_id b) (mb_name b) msg st = (r, st')"
  shows "case r of
      Inl e \<Rightarrow> e = DuplicateMessage (nm_message_id msg) \<and> st' = st \<and>
        (\<exists>m \<in> set (messages st). m_mailbox_id m = mb_id b \<and> m_message_id m = nm_message_id msg)
    | Inr meta \<Rightarrow>
        mm_uid meta = word_of_int (mb_uidnext b) \<and> mm_message_id meta = nm_message_id msg \<and>
        (\<exists>l. list_messages_in (mb_user_id b) (mb_name b) st = (Inr l, st) \<and>
             list_messages_in (mb_user_id b) (mb_name b) st' = (Inr (meta # l), st')) \<and>
        fetch_message_in (mb_user_id b) (mb_name b) (mm_id meta) st' =
          (Inr \<lparr>msg_meta = meta, msg_body = nm_body msg\<rparr>, st') \<and>
        (\<forall>c \<in> set (mailboxes st). c \<noteq> b \<longrightarrow>
           fst (list_messages_in (mb_user_id c) (mb_name c) st') = fst (list_messages_in (mb_user_id c) (mb_name c) st))"
proof (cases r)
  case (Inl e)
  with assms(5) show ?thesis
    by (auto simp: append_message_to_eq[OF store_reach_inv[OF assms(1)] assms(2,4)] split: if_splits)
next
  case (Inr meta)
  note inv = store_reach_inv[OF assms(1)]
  note app = assms(5)[unfolded Inr]
  have "mm_uid meta = word_of_int (mb_uidnext b) \<and> mm_message_id meta = nm_message_id msg"
    using app by (auto simp: append_message_to_eq[OF inv assms(2,4)] row_to_meta_def split: if_splits)
  then show ?thesis
    using append_list_same[OF inv assms(2,4,3) app] append_fetch[OF inv assms(2,4,3) app]
      append_list_other[OF inv assms(2,4) _ _ assms(5)] list_messages_in_eq[OF store_inv_boxes[OF inv] assms(4,2)]
    by (simp add: Inr)
qed

theorem append_message_effect_witness:
  "\<exists>meta st'. append_message_to 1001 1 ''INBOX'' (demo_msg ''m1'') bob_store = (Inr meta, st') \<and>
     fetch_message_in 1 ''INBOX'' (mm_id meta) st' = (Inr \<lparr>msg_meta = meta, msg_body = ''body''\<rparr>, st')"
proof -
  obtain r st' where r: "append_message_to 1001 1 ''INBOX'' (demo_msg ''m1'') bob_store = (r, st')" by fastforce
  have "is_ok (fst (append_message_to 1001 1 ''INBOX'' (demo_msg ''m1'') bob_store))" by code_simp
  then obtain meta where m: "r = Inr meta" using r by (cases r) (auto simp: is_ok_def)
  from append_message_effect[OF bob_reach demo_ready(1,3) bob_inbox_in(1), of 1001 "demo_msg ''m1''" r st'] r
  show ?thesis by (simp add: m bob_inbox_def demo_msg_def new_message_invoice_def)
qed

text \<open>
  C23. UIDs are never reused: after a message was appended to a mailbox, and then any operations ran
  that do not delete the mailbox's owner (expunging included), the next message appended there gets
  a larger UID under the same UIDVALIDITY, as long as the counter fits in 32 bits.
\<close>

theorem uid_never_reused:
  assumes "store_reach st" "\<not> poisoned st" "b \<in> set (mailboxes st)" "owner_ok (mb_user_id b) owner st"
    and "append_message_to t1 (mb_user_id b) (mb_name b) msg1 st = (Inr meta1, st1)"
    and "later owner st1 st2"
    and "append_message_to t2 (mb_user_id b) (mb_name b) msg2 st2 = (Inr meta2, st3)"
    and "\<And>c. c \<in> set (mailboxes st2) \<Longrightarrow> mb_uidnext c < 2 ^ 32"
  shows "mm_uid meta1 < mm_uid meta2 \<and> mm_uidvalidity meta1 = mm_uidvalidity meta2"
proof -
  note inv = store_reach_inv[OF assms(1)]
  have e1: "mm_uid meta1 = word_of_int (mb_uidnext b)" "mm_uidvalidity meta1 = mb_uidvalidity b"
    and st1: "mailboxes st1 = bump (mb_id b) (mailboxes st)" "users st1 = users st"
    using assms(5) by (auto simp: append_message_to_eq[OF inv assms(2,3)] row_to_meta_def split: if_splits)
  obtain b1 where b1: "b1 \<in> set (mailboxes st1)" "mb_user_id b1 = mb_user_id b" "mb_name b1 = mb_name b"
      "mb_id b1 = mb_id b" "mb_uidvalidity b1 = mb_uidvalidity b" "mb_uidnext b1 = mb_uidnext b + 1"
    using bump_row[OF assms(3), of "mb_id b"] st1(1) by metis
  have inv1: "store_inv st1"
    using keeps_append_message_to(2) inv assms(5) by (metis keeps_def snd_conv)
  have "owner_ok (mb_user_id b1) owner st1" using assms(4) st1(2) b1(2) by (simp add: owner_ok_def)
  from later_keeps[OF assms(6) inv1 this b1(1)] have inv2: "store_inv st2" and kept: "box_kept b1 st2" by auto
  from kept obtain c where c: "c \<in> set (mailboxes st2)" "mb_user_id c = mb_user_id b" "mb_name c = mb_name b"
      "mb_uidvalidity c = mb_uidvalidity b" "mb_uidnext b < mb_uidnext c"
    using b1 by (auto simp: box_kept_def)
  have np: "\<not> poisoned st2" using assms(7)
    by (auto simp: append_message_to_def bind_op_def mailbox_named_def locked_def split: if_splits)
  have e2: "mm_uid meta2 = word_of_int (mb_uidnext c)" "mm_uidvalidity meta2 = mb_uidvalidity c"
    using assms(7) append_message_to_eq[OF inv2 np c(1), of t2 msg2] c(2,3)
    by (auto simp: row_to_meta_def split: if_splits)
  have "1 \<le> mb_uidnext b" "mb_uidnext c < 2 ^ 32"
    using store_inv_boxes[OF inv] assms(3) assms(8)[OF c(1)] by (auto simp: mailboxes_ok_def)
  with c(5) have "(word_of_int (mb_uidnext b) :: 32 word) < word_of_int (mb_uidnext c)"
    by (simp add: word_less_def uint_word_of_int)
  with e1 e2 c(4) show ?thesis by simp
qed

theorem uid_never_reused_witness:
  "\<exists>meta1 st1 meta2 st3. append_message_to 1 1 ''INBOX'' (demo_msg ''m1'') bob_store = (Inr meta1, st1) \<and>
     append_message_to 2 1 ''INBOX'' (demo_msg ''m2'')
       (exec_cmd (Expunge 1 ''INBOX'') (exec_cmd (SetFlags 1 ''INBOX'' 1 DELETED True) st1)) = (Inr meta2, st3) \<and>
     mm_uid meta1 < mm_uid meta2"
proof -
  let ?after = "\<lambda>st. exec_cmd (Expunge 1 ''INBOX'') (exec_cmd (SetFlags 1 ''INBOX'' 1 DELETED True) st)"
  let ?a1 = "append_message_to 1 1 ''INBOX'' (demo_msg ''m1'') bob_store"
  let ?a2 = "append_message_to 2 1 ''INBOX'' (demo_msg ''m2'') (?after (snd ?a1))"
  have "is_ok (fst ?a1)" by code_simp
  then obtain meta1 where m1: "?a1 = (Inr meta1, snd ?a1)" by (blast dest: is_ok_pair)
  have "is_ok (fst ?a2)" by code_simp
  then obtain meta2 where m2: "?a2 = (Inr meta2, snd ?a2)" by (blast dest: is_ok_pair)
  have o: "owner_ok (mb_user_id bob_inbox) ''bob'' bob_store" by code_simp
  have l: "later ''bob'' (snd ?a1) (?after (snd ?a1))" by (intro later.intros) simp_all
  have n: "list_all (\<lambda>c. mb_uidnext c < 2 ^ 32) (mailboxes (?after (snd ?a1)))" by code_simp
  from uid_never_reused[OF bob_reach demo_ready(1) bob_inbox_in(1) o _ l, of 1 "demo_msg ''m1''" meta1 2 "demo_msg ''m2''" meta2 "snd ?a2"]
    m1 m2 n have "mm_uid meta1 < mm_uid meta2" by (simp add: bob_inbox_def list_all_iff)
  with m1 m2 show ?thesis by blast
qed
text \<open>
  Expunging a mailbox removes exactly its messages flagged \<open>\Deleted\<close>, reports exactly their
  UIDs, keeps the order of the others, and leaves every other mailbox as it was; setting or
  clearing flag bits changes only the flags of the one message named, in the one mailbox.
\<close>

theorem expunge_and_flags_exact:
  assumes "store_reach st" "\<not> poisoned st" "b \<in> set (mailboxes st)" "c \<in> set (mailboxes st)"
    and "list_messages_in (mb_user_id b) (mb_name b) st = (Inr lb, st)"
    and "list_messages_in (mb_user_id c) (mb_name c) st = (Inr lc, st)"
    and "expunge_in (mb_user_id b) (mb_name b) st = (Inr us, st')"
    and "set_flags_in (mb_user_id b) (mb_name b) i k v st = (r, st'')"
  shows "set us = mm_uid ` {m \<in> set lb. is_deleted (mm_flags m)} \<and>
    fst (list_messages_in (mb_user_id c) (mb_name c) st') =
      Inr (filter (\<lambda>m. c = b \<longrightarrow> \<not> is_deleted (mm_flags m)) lc) \<and>
    r = Inr () \<and>
    fst (list_messages_in (mb_user_id c) (mb_name c) st'') =
      Inr (map (\<lambda>m. if c = b \<and> mm_id m = i
        then m\<lparr>mm_flags := if v then flags_insert (mm_flags m) k else flags_remove (mm_flags m) k\<rparr> else m) lc)"
proof -
  note inv = store_reach_inv[OF assms(1)]
  have lb: "lb = metas (mb_uidvalidity b) (mailbox_rows (mb_id b) st)"
    and lc: "lc = metas (mb_uidvalidity c) (mailbox_rows (mb_id c) st)"
    using assms(5,6) list_messages_in_eq[OF store_inv_boxes[OF inv] _ assms(2)] assms(3,4) by auto
  have "set us = (\<lambda>m. word_of_int (m_uid m)) ` set (filter (expunged (mb_id b)) (messages st))"
    using assms(7) by (auto simp: expunge_in_eq[OF inv assms(2,3)])
  also have "\<dots> = mm_uid ` {m \<in> set lb. is_deleted (mm_flags m)}"
  proof -
    have "\<exists>t. (m, t) \<in> set (mailbox_rows (mb_id b) st)" if "m \<in> set (messages st)" "m_mailbox_id m = mb_id b" for m
    proof -
      obtain t where "(m, t) \<in> set (join_tx (transactions st) m)" by (fastforce simp: join_tx_def split: list.splits)
      with that show ?thesis by (auto simp: mailbox_rows_def)
    qed
    then show ?thesis
      by (fastforce simp: lb metas_def row_to_meta_def expunged_def is_deleted_def flags_contains_def image_iff
          dest: mailbox_rows_in)
  qed
  finally show ?thesis
    using list_after_expunge[OF inv assms(2-4)] list_after_set_flags[OF inv assms(2-4), of i k v] assms(7,8) lc
    by (simp add: set_flags_in_eq[OF inv assms(2,3)] flag_update_def cong: if_cong)
qed

definition flagged_store :: store where
  "flagged_store = exec_cmd (SetFlags 1 ''INBOX'' 1 DELETED True)
     (exec_cmd (AppendTo 5 1 ''INBOX'' (demo_msg ''m2'')) (exec_cmd (AppendTo 5 1 ''INBOX'' (demo_msg ''m1'')) bob_store))"

theorem expunge_and_flags_exact_witness:
  "\<exists>us lb. fst (expunge_in 1 ''INBOX'' flagged_store) = Inr us \<and> fst (list_messages_in 1 ''INBOX'' flagged_store) = Inr lb \<and>
     us \<noteq> [] \<and> set us = mm_uid ` {m \<in> set lb. is_deleted (mm_flags m)}"
proof -
  define b where "b = bob_inbox\<lparr>mb_uidnext := 3\<rparr>"
  have reach: "store_reach flagged_store" unfolding flagged_store_def by (intro store_reach.intros bob_reach)
  have b: "b \<in> set (mailboxes flagged_store)" "\<not> poisoned flagged_store" unfolding b_def by code_simp+
  have n: "mb_user_id b = 1" "mb_name b = ''INBOX''" by (simp_all add: b_def bob_inbox_def)
  have "is_ok (fst (list_messages_in 1 ''INBOX'' flagged_store))" "snd (list_messages_in 1 ''INBOX'' flagged_store) = flagged_store"
    by code_simp+
  then obtain lb where lb: "list_messages_in 1 ''INBOX'' flagged_store = (Inr lb, flagged_store)"
    using is_ok_pair by metis
  have "is_ok (fst (expunge_in 1 ''INBOX'' flagged_store))" by code_simp
  then obtain us where us: "expunge_in 1 ''INBOX'' flagged_store = (Inr us, snd (expunge_in 1 ''INBOX'' flagged_store))"
    using is_ok_pair by metis
  obtain r st'' where f: "set_flags_in 1 ''INBOX'' 2 SEEN True flagged_store = (r, st'')" by fastforce
  have "fst (expunge_in 1 ''INBOX'' flagged_store) \<noteq> Inr []" by code_simp
  moreover have e: "fst (expunge_in 1 ''INBOX'' flagged_store) = Inr us" by (subst us) simp
  ultimately have "us \<noteq> []" by auto
  moreover from expunge_and_flags_exact[OF reach b(2) b(1) b(1), unfolded n, OF lb lb us f]
  have "set us = mm_uid ` {m \<in> set lb. is_deleted (mm_flags m)}" by blast
  moreover have "fst (list_messages_in 1 ''INBOX'' flagged_store) = Inr lb" by (simp add: lb)
  ultimately show ?thesis using e by blast
qed

definition demo_tx :: "tx_direction \<Rightarrow> rstr \<Rightarrow> rstr \<Rightarrow> rstr \<Rightarrow> new_transaction" where
  "demo_tx d sender rcpt mid =
     \<lparr>nt_direction = d, nt_state = TxOpaque, nt_sender_mailbox = sender, nt_recipient_mailbox = rcpt,
      nt_amount = [], nt_binding = None, nt_message_id = mid, nt_outbound_body = None, nt_payload = ''sealed''\<rparr>"

text \<open>
  Row ids of messages are reused once the newest message is expunged, and ledger entries keep
  pointing to the old id: a message stored afterwards is listed with the transaction state of the
  expunged one, although it has no transaction of its own.
\<close>

theorem stale_ledger_link:
  "let s1 = exec_cmd (AppendTo 5 1 ''INBOX'' (demo_msg ''m1'')) bob_store;
       s2 = exec_cmd (TxLink 5 1 1) (exec_cmd (TxCreate 5 (demo_tx TxIn ''x@y'' ''bob@z'' ''m1'')) s1);
       s3 = exec_cmd (TxTransition 6 1 TxSpent) s2;
       s4 = exec_cmd (Expunge 1 ''INBOX'') (exec_cmd (SetFlags 1 ''INBOX'' 1 DELETED True) s3);
       s5 = exec_cmd (AppendTo 7 1 ''INBOX'' (demo_msg ''m2'')) s4
   in map_sum id (map (\<lambda>m. (mm_message_id m, mm_tx_state m))) (fst (list_messages_in 1 ''INBOX'' s5)) =
        Inr [(''m2'', Some ''spent'')] \<and>
      fst (tx_by_message_id TxIn ''m2'' s5) = Inr None"
  by code_simp

text \<open>
  C33. \<open>append_message_to\<close> reads UIDNEXT in one critical section and uses it in a second one: two
  appends to the same mailbox whose first sections both run before either second one store two
  messages with the same UID, and the UID part of the store invariant is lost.
\<close>

theorem append_race_duplicates_uid:
  assumes "store_reach st" "mailbox_named u n st = (Inr box, st)"
    and "append_locked t1 msg1 box st = (Inr meta1, st1)"
    and "append_locked t2 msg2 box st1 = (Inr meta2, st2)"
  shows "mm_uid meta1 = mm_uid meta2 \<and> mm_id meta1 \<noteq> mm_id meta2 \<and> schema_inv st2 \<and> \<not> store_inv st2"
proof -
  obtain bid v x where box: "box = (bid, v, x)" by (cases box)
  have np: "\<not> poisoned st" using assms(2) by (auto simp: mailbox_named_def locked_def split: if_splits)
  have st1: "st1 = st\<lparr>messages := messages st @ [new_message_row t1 msg1 bid x st], mailboxes := bump bid (mailboxes st)\<rparr>"
    and m1: "meta1 = row_to_meta (new_message_row t1 msg1 bid x st) None v"
    using assms(3) by (auto simp: box append_locked_eq[OF np] split: if_splits)
  have np1: "\<not> poisoned st1" using np by (simp add: st1)
  have st2: "messages st2 = messages st1 @ [new_message_row t2 msg2 bid x st1]"
    and m2: "meta2 = row_to_meta (new_message_row t2 msg2 bid x st1) None v"
    using assms(4) by (auto simp: box append_locked_eq[OF np1] split: if_splits)
  have "schema_inv st2"
    using keeps_append_locked store_inv_schema[OF store_reach_inv[OF assms(1)]] assms(3,4) by (metis keeps_def snd_conv)
  moreover have "\<not> store_inv st2"
    unfolding store_inv_def uids_ok_def st2 st1 by simp
  moreover have "mm_id meta1 < mm_id meta2"
    unfolding m1 m2 row_to_meta_def by (simp add: st1 next_rowid_snoc)
  ultimately show ?thesis by (simp add: m1 m2 row_to_meta_def)
qed

theorem append_race_duplicates_uid_witness:
  "\<exists>box st1 st2 meta1 meta2. mailbox_named 1 ''INBOX'' bob_store = (Inr box, bob_store) \<and>
     append_locked 1 (demo_msg ''m1'') box bob_store = (Inr meta1, st1) \<and>
     append_locked 2 (demo_msg ''m2'') box st1 = (Inr meta2, st2) \<and> mm_uid meta1 = mm_uid meta2 \<and> \<not> store_inv st2"
proof -
  define box where "box = (1::int, 1000::32 word, 1::int)"
  have b: "mailbox_named 1 ''INBOX'' bob_store = (Inr box, bob_store)" unfolding box_def by code_simp
  let ?a1 = "append_locked 1 (demo_msg ''m1'') box bob_store"
  let ?a2 = "append_locked 2 (demo_msg ''m2'') box (snd ?a1)"
  have "is_ok (fst ?a1)" "is_ok (fst ?a2)" unfolding box_def by code_simp+
  then obtain meta1 meta2 where m: "?a1 = (Inr meta1, snd ?a1)" "?a2 = (Inr meta2, snd ?a2)"
    using is_ok_pair by metis
  from append_race_duplicates_uid[OF bob_reach b m] b m show ?thesis by blast
qed

subsection \<open>Users\<close>

text \<open>
  Creating a user: a taken name is refused and nothing changes; otherwise the user can be looked
  up by name with exactly the given data, both standard mailboxes exist and are empty, and the
  other users are unchanged.
\<close>

theorem create_user_effect:
  assumes "store_reach st" "\<not> poisoned st" "no_stale_link st"
    and "create_user_full t name hash mpk ivk reg st = (r, st')"
  shows "if name \<in> u_username ` set (users st) then r = Inl (Storage UniqueViolation) \<and> st' = st
    else (\<exists>u. r = Inr u \<and> get_user name st' = (Inr (Some u), st') \<and> user_name u = name \<and>
      user_master_pubkey u = mpk \<and> user_ivk_commitment u = ivk \<and> user_registration_attestation u = reg \<and>
      password_hash name st' = (Inr (Some hash), st') \<and>
      list_messages_in (user_id u) INBOX st' = (Inr [], st') \<and> list_messages_in (user_id u) SENT st' = (Inr [], st') \<and>
      (\<forall>n. n \<noteq> name \<longrightarrow> fst (get_user n st') = fst (get_user n st)))"
proof -
  note inv = store_reach_inv[OF assms(1)]
  note e = create_user_full_eq[OF store_inv_boxes[OF inv] assms(2), of t name hash mpk ivk reg]
  let ?row = "new_user_row t name hash mpk ivk reg st"
  have fr: "m_mailbox_id m \<in> mb_id ` set (mailboxes st)" if "m \<in> set (messages st)" for m
    using inv that by (simp add: store_inv_def schema_inv_def messages_ok_def)
  show ?thesis
  proof (cases "name \<in> u_username ` set (users st)")
    case True
    with e assms(4) show ?thesis by simp
  next
    case False
    with e assms(4) have r: "r = Inr (user_of_row ?row)"
      and st': "st' = st\<lparr>users := users st @ [?row], mailboxes := mailboxes st @ new_mailbox_rows t st\<rparr>" by auto
    have f: "find (\<lambda>r. u_username r = name) (users st) = None" using False by (auto simp: find_None_iff)
    have inv': "store_inv st'" using keeps_create_user_full(2) inv assms(4) by (metis keeps_def snd_conv)
    have boxes: "list_messages_in (u_id ?row) n st' = (Inr [], st')" if "n = INBOX \<or> n = SENT" for n
    proof -
      have "\<exists>b \<in> set (new_mailbox_rows t st). mb_user_id b = u_id ?row \<and> mb_name b = n"
        using that by (elim disjE) (simp_all add: new_mailbox_rows_def Let_def new_user_row_def)
      then obtain b where b: "b \<in> set (new_mailbox_rows t st)" "mb_user_id b = u_id ?row" "mb_name b = n" by blast
      have "filter (\<lambda>m. m_mailbox_id m = mb_id b) (messages st) = []"
        using fr new_mailbox_rows_fresh[OF b(1)] unfolding filter_empty_conv by metis
      then have "mailbox_rows (mb_id b) st' = []" by (simp add: mailbox_rows_def st')
      moreover have "b \<in> set (mailboxes st')" "\<not> poisoned st'" using b(1) assms(2) by (simp_all add: st')
      ultimately show ?thesis
        using list_messages_in_eq[OF store_inv_boxes[OF inv'], of b] b(2,3) by (simp add: metas_def)
    qed
    have "u_username ?row = name" "u_password_hash ?row = hash" by (simp_all add: new_user_row_def)
    then show ?thesis
      using False r f boxes assms(2)
      by (auto simp: get_user_def password_hash_def query_def locked_def st' find_append user_of_row_def
          new_user_row_def split: option.splits)
  qed
qed

theorem create_user_effect_witness:
  "\<exists>u st'. create_user_full 9 ''ann'' ''h'' [] None None bob_store = (Inr u, st') \<and>
     get_user ''ann'' st' = (Inr (Some u), st') \<and> list_messages_in (user_id u) INBOX st' = (Inr [], st')"
proof -
  obtain r st' where r: "create_user_full 9 ''ann'' ''h'' [] None None bob_store = (r, st')" by fastforce
  have "''ann'' \<notin> set (map u_username (users bob_store))" by code_simp
  with create_user_effect[OF bob_reach demo_ready(1,3) r] r show ?thesis by auto
qed



text \<open>
  Deleting a local user also deletes ledger entries of other users: the entry to delete is
  selected by \<open>LIKE '<user>@%'\<close> on the sender mailbox, which matches the same local part at every
  domain. Here \<open>ann\<close> has an invoice from \<open>bob@elsewhere.org\<close>; deleting the local user \<open>bob\<close>
  removes it from the ledger.
\<close>

theorem delete_user_drops_foreign_ledger:
  "let s1 = exec_cmd (TxCreate 5 (demo_tx TxIn ''bob@elsewhere.org'' ''ann@home.org'' ''m1'')) two_users
   in map_sum id (map_option tx_recipient_mailbox) (fst (tx_by_message_id TxIn ''m1'' s1)) = Inr (Some ''ann@home.org'') \<and>
      fst (tx_by_message_id TxIn ''m1'' (exec_cmd (DeleteUser ''bob'') s1)) = Inr None"
  by code_simp

subsection \<open>Settings, keyring, shares, ledger\<close>

text \<open>
  The settings table and the sender pins of each user behave as finite maps: after any sequence
  of writes a lookup returns the last value written at its key, or what was there before; removing
  a key leaves every other key alone.
\<close>

theorem settings_and_pins_are_maps:
  assumes "store_reach st" "\<not> poisoned st" "uid \<in> u_id ` set (users st)"
  shows "setting_of (fold (\<lambda>(k, v) s. snd (set_setting k v s)) kvs st) l =
      (case map_of (rev kvs) l of None \<Rightarrow> setting_of st l | Some v \<Rightarrow> Some v) \<and>
    setting_of (snd (delete_setting k st)) l = (if l = k then None else setting_of st l) \<and>
    pin_of uid (fold (\<lambda>(k, v) s. snd (keyring_set_trusted t uid k v att s)) kvs st) l =
      (case map_of (rev kvs) l of None \<Rightarrow> pin_of uid st l | Some v \<Rightarrow> Some v) \<and>
    pin_of uid (snd (unpin_keyring uid k st)) l = (if l = k then None else pin_of uid st l)"
proof -
  have "keyring_usable uid st"
    using assms store_inv_schema[OF store_reach_inv[OF assms(1)]] by (simp add: keyring_usable_def)
  then show ?thesis
    using assms(2) setting_table.history[of st kvs l] pin_table.history[of uid st t att kvs l]
    by (simp add: setting_table.get_del pin_table.get_del)
qed

theorem settings_and_pins_are_maps_witness:
  "setting_of (fold (\<lambda>(k, v) s. snd (set_setting k v s)) [(''a'', ''1''), (''b'', ''2''), (''a'', ''3'')] bob_store) ''a'' = Some ''3''"
proof -
  have "1 \<in> set (map u_id (users bob_store))" by code_simp
  with settings_and_pins_are_maps[OF bob_reach demo_ready(1), of 1 "[(''a'', ''1''), (''b'', ''2''), (''a'', ''3'')]" "''a''"]
  show ?thesis by simp
qed

text \<open>
  Revoking a share: it is no longer among the shares a login may use, the listing still shows it
  as revoked, the other shares are untouched, and a share with the same id cannot be added again.
\<close>

theorem revoke_share_effect:
  assumes "store_reach st" "\<not> poisoned st" "s \<in> set (shares st)"
    and "revoke_share (sh_user_id s) (sh_share_id s) st = (r, st')"
  shows "r = Inr () \<and>
    fst (get_shares (sh_user_id s) st') =
      map_sum id (filter (\<lambda>(i, _). i \<noteq> sh_share_id s)) (fst (get_shares (sh_user_id s) st)) \<and>
    (u \<noteq> sh_user_id s \<longrightarrow> fst (get_shares u st') = fst (get_shares u st)) \<and>
    (\<exists>l. fst (list_shares (sh_user_id s) st') = Inr l \<and>
      \<lparr>se_share_id = sh_share_id s, se_wrapped_dk = sh_wrapped_dk s, se_revoked = True\<rparr> \<in> set l) \<and>
    add_share (sh_user_id s) (sh_share_id s) w st' = (Inl (Storage UniqueViolation), st')"
proof -
  let ?Q = "\<lambda>x. sh_user_id x = sh_user_id s \<and> sh_share_id x = sh_share_id s"
  have "count_where ?Q (shares st) \<noteq> 0" using assms(3) by (auto simp: count_where_def filter_empty_conv)
  then have r: "r = Inr ()" and st': "st' = st\<lparr>shares := update_where ?Q (\<lambda>x. x\<lparr>sh_revoked := 1\<rparr>) (shares st)\<rparr>"
    using assms(2,4) by (auto simp: revoke_share_def locked_def require_rows_def)
  have f: "map (\<lambda>x. (sh_share_id x, sh_wrapped_dk x)) (filter (\<lambda>x. sh_user_id x = v \<and> sh_revoked x = 0)
        (update_where ?Q (\<lambda>x. x\<lparr>sh_revoked := 1\<rparr>) xs)) =
      filter (\<lambda>(i, _). v = sh_user_id s \<longrightarrow> i \<noteq> sh_share_id s)
        (map (\<lambda>x. (sh_share_id x, sh_wrapped_dk x)) (filter (\<lambda>x. sh_user_id x = v \<and> sh_revoked x = 0) xs))" for v xs
    by (induction xs) (auto simp: update_where_def)
  have "s\<lparr>sh_revoked := 1\<rparr> \<in> set (shares st')" using assms(3) by (auto simp: st' in_update_where)
  then have a: "(sh_user_id s, sh_share_id s) \<in> set (map (\<lambda>x. (sh_user_id x, sh_share_id x)) (shares st'))"
    and l: "\<exists>l. fst (list_shares (sh_user_id s) st') = Inr l \<and>
      \<lparr>se_share_id = sh_share_id s, se_wrapped_dk = sh_wrapped_dk s, se_revoked = True\<rparr> \<in> set l"
  proof -
    assume in': "s\<lparr>sh_revoked := 1\<rparr> \<in> set (shares st')"
    then show "(sh_user_id s, sh_share_id s) \<in> set (map (\<lambda>x. (sh_user_id x, sh_share_id x)) (shares st'))"
      using imageI[OF in', of "\<lambda>x. (sh_user_id x, sh_share_id x)"] by simp
    from in' show "\<exists>l. fst (list_shares (sh_user_id s) st') = Inr l \<and>
        \<lparr>se_share_id = sh_share_id s, se_wrapped_dk = sh_wrapped_dk s, se_revoked = True\<rparr> \<in> set l"
      using assms(2) by (force simp: list_shares_def query_def locked_def st' image_iff)
  qed
  have np: "\<not> poisoned st'" using assms(2) by (simp add: st')
  have g: "fst (get_shares v st') = map_sum id (filter (\<lambda>(i, _). v = sh_user_id s \<longrightarrow> i \<noteq> sh_share_id s)) (fst (get_shares v st))" for v
    using f[of v "shares st"] assms(2) by (simp add: get_shares_def query_def locked_def st')
  have "add_share (sh_user_id s) (sh_share_id s) w st' = (Inl (Storage UniqueViolation), st')"
    using a np by (simp add: add_share_def locked_def)
  moreover have "map_sum id (filter (\<lambda>(i, _). True)) x = x" for x :: "(store_error, (rstr \<times> bytes) list) result"
    by (cases x) (simp_all add: case_prod_beta)
  ultimately show ?thesis using r l g[of "sh_user_id s"] g[of u] by auto
qed

definition share_store :: store where
  "share_store = exec_cmd (AddShare 1 ''s2'' ''k2'') (exec_cmd (AddShare 1 ''s1'' ''k1'') bob_store)"

theorem revoke_share_effect_witness:
  "\<exists>st'. revoke_share 1 ''s1'' share_store = (Inr (), st') \<and> fst (get_shares 1 st') = Inr [(''s2'', ''k2'')]"
proof -
  define s where "s = \<lparr>sh_user_id = 1, sh_share_id = ''s1'', sh_wrapped_dk = ''k1'', sh_revoked = 0\<rparr>"
  have reach: "store_reach share_store" unfolding share_store_def by (intro store_reach.intros bob_reach)
  have p: "\<not> poisoned share_store" "s \<in> set (shares share_store)" unfolding s_def by code_simp+
  have g: "fst (get_shares 1 share_store) = Inr [(''s1'', ''k1''), (''s2'', ''k2'')]" by code_simp
  obtain r st' where d: "revoke_share 1 ''s1'' share_store = (r, st')" by fastforce
  from revoke_share_effect[OF reach p, of r st'] d g show ?thesis by (simp add: s_def)
qed

text \<open>
  The ledger: a second entry for the same direction and message id is refused and nothing
  changes; otherwise the entry is found by its id and by direction and message id, exactly as it
  was returned, and is the newest of the unfiltered listing. A transition changes the state and the
  time of the one entry and is refused for an unknown id.
\<close>

theorem ledger_effect:
  assumes "store_reach st" "\<not> poisoned st" "tx_create t n st = (r, st')"
  shows "case r of
      Inl e \<Rightarrow> e = Storage UniqueViolation \<and> st' = st \<and> fst (tx_by_message_id (nt_direction n) (nt_message_id n) st) \<noteq> Inr None
    | Inr x \<Rightarrow> tx_get (tx_id x) st' = (Inr (Some x), st') \<and>
        tx_by_message_id (nt_direction n) (nt_message_id n) st' = (Inr (Some x), st') \<and>
        (\<exists>l. tx_list None None st = (Inr l, st) \<and> tx_list None None st' = (Inr (x # l), st')) \<and>
        (\<exists>st''. tx_transition t' (tx_id x) s st' = (Inr (), st'') \<and>
          tx_get (tx_id x) st'' = (Inr (Some (x\<lparr>tx_st := s, tx_updated_at := t'\<rparr>)), st'') \<and>
          (\<forall>i. i \<noteq> tx_id x \<longrightarrow> fst (tx_get i st'') = fst (tx_get i st)))"
proof -
  let ?key = "(tx_direction_str (nt_direction n), nt_message_id n)"
  let ?P = "\<lambda>r. t_direction r = tx_direction_str (nt_direction n) \<and> t_message_id r = nt_message_id n"
  let ?i = "next_rowid (map t_id (transactions st))"
  define row where "row = \<lparr>t_id = ?i, t_direction = tx_direction_str (nt_direction n),
    t_state = tx_state_str (nt_state n), t_sender_mailbox = nt_sender_mailbox n,
    t_recipient_mailbox = nt_recipient_mailbox n, t_amount = nt_amount n, t_binding = nt_binding n,
    t_message_id = nt_message_id n, t_message_row_id = None, t_outbound_body = nt_outbound_body n,
    t_payload = nt_payload n, t_created_at = t, t_updated_at = t\<rparr>"
  note q = tx_get_def tx_by_message_id_def tx_list_def query_def locked_def
  show ?thesis
  proof (cases "?key \<in> set (map (\<lambda>r. (t_direction r, t_message_id r)) (transactions st))")
    case True
    then have "find ?P (transactions st) \<noteq> None" by (auto simp: find_None_iff)
    with True assms(2,3) show ?thesis by (auto simp: tx_create_def q)
  next
    case False
    have r: "r = Inr (row_to_tx row)" and st': "st' = st\<lparr>transactions := transactions st @ [row]\<rparr>"
      using False assms(2,3) by (auto simp: tx_create_def locked_def Let_def row_def row_to_tx_def)
    have id: "t_id row = ?i" "tx_id (row_to_tx row) = ?i" by (simp_all add: row_def row_to_tx_def)
    have f1: "find (\<lambda>r. t_id r = ?i) (transactions st) = None"
      using next_rowid_neq[of _ "transactions st" t_id] by (auto simp: find_None_iff)
    have f2: "find ?P (transactions st) = None" "?P row"
      using False unfolding find_None_iff by (force simp: row_def)+
    have srt: "sort_key (\<lambda>r. - t_id r) (transactions st @ [row]) = row # sort_key (\<lambda>r. - t_id r) (transactions st)"
      using next_rowid_gt[of _ "map t_id (transactions st)"] by (intro sort_key_snoc_least) (simp add: id)
    let ?f = "\<lambda>r. r\<lparr>t_state := tx_state_str s, t_updated_at := t'\<rparr>"
    have np: "\<not> poisoned st'" and tr: "transactions st' = transactions st @ [row]" using assms(2) by (simp_all add: st')
    have upd: "update_where (\<lambda>r. t_id r = ?i) ?f (transactions st @ [row]) = transactions st @ [?f row]"
      using next_rowid_neq[of _ "transactions st" t_id] id by (intro update_where_last) auto
    have t2: "tx_transition t' ?i s st' = (Inr (), st'\<lparr>transactions := transactions st @ [?f row]\<rparr>)"
      using np id upd by (simp add: tx_transition_def locked_def require_rows_def count_where_def tr)
    have "row_to_tx (?f row) = (row_to_tx row)\<lparr>tx_st := s, tx_updated_at := t'\<rparr>" by (simp add: row_to_tx_def)
    then have t3: "tx_get ?i (st'\<lparr>transactions := transactions st @ [?f row]\<rparr>) =
        (Inr (Some ((row_to_tx row)\<lparr>tx_st := s, tx_updated_at := t'\<rparr>)), st'\<lparr>transactions := transactions st @ [?f row]\<rparr>)"
      using np id f1 by (simp add: q find_append)
    have t4: "fst (tx_get i (st'\<lparr>transactions := transactions st @ [?f row]\<rparr>)) = fst (tx_get i st)" if "i \<noteq> ?i" for i
      using np assms(2) that id by (simp add: q find_append split: option.splits)
    show ?thesis
      unfolding r id sum.case t2
      using np assms(2) id f1 f2 srt t3 t4 by (simp add: q tr find_append)
  qed
qed

theorem ledger_effect_witness:
  "\<exists>x st'. tx_create 5 (demo_tx TxOut ''bob@z'' ''x@y'' ''m1'') bob_store = (Inr x, st') \<and>
     tx_get (tx_id x) st' = (Inr (Some x), st')"
proof -
  let ?a = "tx_create 5 (demo_tx TxOut ''bob@z'' ''x@y'' ''m1'') bob_store"
  have "is_ok (fst ?a)" by code_simp
  then obtain x where x: "?a = (Inr x, snd ?a)" using is_ok_pair by metis
  from ledger_effect[OF bob_reach demo_ready(1) x] x show ?thesis by auto
qed

end
