(* ===== verification/Template.thy ===== *)
theory Template
  imports Externals
begin

text \<open>
  Message templates (\<^verbatim>\<open>talk-core/src/template.rs\<close>, \<^verbatim>\<open>talkd/src/template.rs\<close>). The file system
  is a map from paths to contents; parsing TOML (crate \<^verbatim>\<open>toml\<close>), rendering (crate \<^verbatim>\<open>tera\<close>) and
  formatting a time stamp (crate \<^verbatim>\<open>time\<close>) are functions of a record.
\<close>

type_synonym files = "rstr \<Rightarrow> bytes option"

datatype template_error = TemplateIo | TemplateRender rstr

record template_spec =
  ts_subject :: rstr
  ts_body :: rstr

record template_ext =
  toml_templates :: "rstr \<Rightarrow> (rstr, rstr \<Rightarrow> template_spec option) result"
  tera_one_off :: "rstr \<Rightarrow> (rstr \<times> rstr) list \<Rightarrow> (rstr, rstr) result"
  rfc3339 :: "int \<Rightarrow> rstr"

fun join_lines :: "rstr list \<Rightarrow> rstr" where
  "join_lines [] = []"
| "join_lines [l] = l"
| "join_lines (l # ls) = l @ CHR 0x0A # join_lines ls"

definition default_invoice :: template_spec where
  "default_invoice = \<lparr>ts_subject = ''Invoice from {{ sender_name }}'', ts_body = join_lines
    [''<!DOCTYPE html>'',
     ''<html><head><meta charset=\"utf-8\"><title>Invoice</title></head>'',
     ''<body style=\"margin:0;padding:0;background:#f4f6f8;font-family:-apple-system,'Segoe UI',Roboto,Arial,sans-serif;color:#1a2027;\">'',
     ''  <table role=\"presentation\" width=\"100%\" cellpadding=\"0\" cellspacing=\"0\" style=\"padding:32px 0;\"><tr><td align=\"center\">'',
     ''    <table role=\"presentation\" width=\"520\" cellpadding=\"0\" cellspacing=\"0\" style=\"background:#ffffff;border-radius:10px;box-shadow:0 2px 8px rgba(26,32,39,0.08);\">'',
     ''      <tr><td style=\"background:#111827;padding:18px 26px;\"><span style=\"color:#fff;font-weight:700;\">Invoice</span></td></tr>'',
     ''      <tr><td style=\"padding:26px 30px;\">'',
     ''        <div style=\"font-size:12px;color:#6b7280;text-transform:uppercase;\">From</div>'',
     ''        <div style=\"font-size:18px;font-weight:700;\">{{ sender_name | escape }}</div>'',
     ''        <div style=\"font-size:13px;color:#6b7280;\">{{ sender_address | escape }}</div>'',
     ''        {% if amount %}'',
     ''        <div style=\"margin-top:20px;background:#f9fafb;border:1px solid #e5e7eb;border-radius:8px;padding:14px 18px;\">'',
     ''          <span style=\"color:#6b7280;\">Amount due:</span>'',
     ''          <span style=\"font-size:22px;font-weight:800;float:right;\">{{ amount | escape }} ZEC</span>'',
     ''        </div>'',
     ''        {% endif %}'',
     ''        <div style=\"margin-top:18px;font-size:12px;color:#6b7280;text-transform:uppercase;\">Invoice</div>'',
     ''        <pre style=\"margin:6px 0 0;padding:12px 14px;background:#f9fafb;border:1px solid #e5e7eb;border-radius:8px;font-size:13px;white-space:pre-wrap;\">{{ invoice | escape }}</pre>'',
     ''        <div style=\"margin-top:18px;font-size:12px;color:#9ca3af;\">Received {{ received_at }}</div>'',
     ''      </td></tr>'',
     ''    </table>'',
     ''  </td></tr></table>'',
     ''</body></html>'']\<rparr>"

text \<open>\<^verbatim>\<open>Path::join\<close> with a relative file name, and \<^verbatim>\<open>fs::read_to_string\<close>.\<close>

definition path_join :: "rstr \<Rightarrow> rstr \<Rightarrow> rstr" where
  "path_join d f = (if d = [] then f else if last d = CHR ''/'' then d @ f else d @ ''/'' @ f)"

text \<open>The parent of a path: the path without its last component, none for the root and the empty path.\<close>

definition strip_slashes :: "rstr \<Rightarrow> rstr" where
  "strip_slashes p = rev (dropWhile (\<lambda>c. c = CHR ''/'') (rev p))"

definition path_parent :: "rstr \<Rightarrow> rstr option" where
  "path_parent p =
     (let q = strip_slashes p; front = rev (dropWhile (\<lambda>c. c \<noteq> CHR ''/'') (rev q)) in
      if q = [] then None
      else if front \<noteq> [] \<and> strip_slashes front = [] then Some ''/'' else Some (strip_slashes front))"

definition load_template ::
    "template_ext \<Rightarrow> files \<Rightarrow> rstr \<Rightarrow> rstr \<Rightarrow> (template_error, template_spec option) result" where
  "load_template T fs path name =
     (case fs path of
        None \<Rightarrow> Inr None
      | Some raw \<Rightarrow>
          (case from_utf8 raw of
             None \<Rightarrow> Inl TemplateIo
           | Some s \<Rightarrow>
               (case toml_templates T s of
                  Inl e \<Rightarrow> Inl (TemplateRender e)
                | Inr m \<Rightarrow>
                    (case m name of
                       None \<Rightarrow> Inl (TemplateRender (''template.toml '' @ path @ '' has no ['' @ name @ ''] section''))
                     | Some spec \<Rightarrow> Inr (Some spec)))))"

definition resolve_template ::
    "template_ext \<Rightarrow> files \<Rightarrow> rstr option \<Rightarrow> rstr \<Rightarrow> (template_error, template_spec) result" where
  "resolve_template T fs template_path data_dir =
     (case template_path of
        Some path \<Rightarrow>
          bind_r (load_template T fs path ''invoice'')
            (ok_or (TemplateRender (''configured template file '' @ path @ '' not found'')))
      | None \<Rightarrow>
          bind_r (load_template T fs (path_join data_dir ''template.toml'') ''invoice'')
            (\<lambda>spec. Inr (case spec of Some s \<Rightarrow> s | None \<Rightarrow> default_invoice)))"

definition tera_render :: "template_ext \<Rightarrow> rstr \<Rightarrow> (rstr \<times> rstr) list \<Rightarrow> (template_error, rstr) result" where
  "tera_render T tmpl data =
     (case tera_one_off T tmpl data of Inl e \<Rightarrow> Inl (TemplateRender e) | Inr s \<Rightarrow> Inr s)"

definition render_invoice ::
    "template_ext \<Rightarrow> template_spec \<Rightarrow> rstr \<Rightarrow> rstr \<Rightarrow> rstr \<Rightarrow> rstr \<Rightarrow> rstr \<Rightarrow> (template_error, rstr \<times> rstr) result" where
  "render_invoice T spec sender_name sender_address amount invoice at =
     (let data = [(''sender_name'', sender_name), (''sender_address'', sender_address), (''amount'', amount),
                  (''invoice'', invoice), (''received_at'', at)]
      in bind_r (tera_render T (ts_subject spec) data) (\<lambda>subject.
         bind_r (tera_render T (ts_body spec) data) (\<lambda>body. Inr (subject, body))))"

definition received_at :: "template_ext \<Rightarrow> int \<Rightarrow> rstr" where
  "received_at T now = rfc3339 T now"

definition random_hex :: "ext \<Rightarrow> bytes \<Rightarrow> rstr" where
  "random_hex E rnd = hex_encode E rnd"

text \<open>A configured template file that is missing is an error; an absent default file is not.\<close>

lemma resolve_template_missing:
  "fs path = None \<Longrightarrow> \<exists>e. resolve_template T fs (Some path) d = Inl (TemplateRender e)"
  "fs (path_join d ''template.toml'') = None \<Longrightarrow> resolve_template T fs None d = Inr default_invoice"
  by (simp_all add: resolve_template_def load_template_def)

end
