(* ===== verification/Sink.thy ===== *)
theory Sink
  imports Session Store_Claims Template
begin

text \<open>
  The daemon's delivery sink, user directory and keyring over the mail store, and its domain key
  file (\<^verbatim>\<open>talkd/src/sink.rs\<close>). The world the daemon's connections share holds the store, the
  mailbox events broadcast so far, the readings the clock will give, the bytes the random
  generator will give, and the files.
\<close>

datatype mailbox_event = MessageAppended int

record world =
  w_store :: store
  w_events :: "mailbox_event list"
  w_clock :: "nat \<Rightarrow> int"
  w_rng :: "nat \<Rightarrow> char"
  w_files :: files

definition tick :: "world \<Rightarrow> int \<times> world" where
  "tick w = (w_clock w 0, w\<lparr>w_clock := (\<lambda>i. w_clock w (Suc i))\<rparr>)"

definition draw :: "nat \<Rightarrow> world \<Rightarrow> bytes \<times> world" where
  "draw n w = (map (w_rng w) [0..<n], w\<lparr>w_rng := (\<lambda>i. w_rng w (i + n))\<rparr>)"

definition on_store :: "'a op \<Rightarrow> world \<Rightarrow> (store_error, 'a) result \<times> world" where
  "on_store f w = (case f (w_store w) of (r, st') \<Rightarrow> (r, w\<lparr>w_store := st'\<rparr>))"

subsection \<open>Directory and keyring\<close>

definition user_exists :: "world user_directory" where
  "user_exists username w = (case fst (get_user username (w_store w)) of Inr (Some _) \<Rightarrow> True | _ \<Rightarrow> False)"

definition keyring_state :: "int \<Rightarrow> rstr \<Rightarrow> world \<Rightarrow> trust_state" where
  "keyring_state uid sender w =
     (if sender = [] then Unverified
      else (case fst (keyring_sender_key uid sender (w_store w)) of
              Inr (Some _) \<Rightarrow> Trusted
            | _ \<Rightarrow> Unverified))"

subsection \<open>The domain key file\<close>

datatype domain_key_error = BadDomainKey

definition load_or_create_domain_key :: "rstr \<Rightarrow> world \<Rightarrow> (domain_key_error, bytes) result \<times> world" where
  "load_or_create_domain_key data_dir w =
     (let path = path_join data_dir ''domainkey'' in
      case w_files w path of
        Some raw \<Rightarrow> (if length raw \<noteq> 32 then Inl BadDomainKey else Inr raw, w)
      | None \<Rightarrow>
          (case draw 32 w of (key, w') \<Rightarrow> (Inr key, w'\<lparr>w_files := (w_files w')(path \<mapsto> key)\<rparr>)))"

subsection \<open>Delivery\<close>

record sink_cfg =
  sk_events :: bool
  sk_template_path :: "rstr option"
  sk_template_data_dir :: rstr

definition sink_new :: sink_cfg where
  "sink_new = \<lparr>sk_events = False, sk_template_path = None, sk_template_data_dir = []\<rparr>"

definition with_events :: "sink_cfg \<Rightarrow> sink_cfg" where
  "with_events k = k\<lparr>sk_events := True\<rparr>"

definition with_template :: "sink_cfg \<Rightarrow> rstr option \<Rightarrow> rstr \<Rightarrow> sink_cfg" where
  "with_template k p d = k\<lparr>sk_template_path := p, sk_template_data_dir := d\<rparr>"

definition render_delivery ::
    "template_ext \<Rightarrow> sink_cfg \<Rightarrow> rstr \<Rightarrow> payload \<Rightarrow> bytes \<Rightarrow> world \<Rightarrow> (rstr \<times> bytes) \<times> world" where
  "render_delivery T k sender p body w =
     (let fallback = (case p of Sealed \<Rightarrow> ''New sealed invoice'' | Plaintext \<Rightarrow> ''New invoice'') in
      case resolve_template T (w_files w) (sk_template_path k) (sk_template_data_dir k) of
        Inl _ \<Rightarrow> ((fallback, body), w)
      | Inr spec \<Rightarrow>
          (case tick w of (now, w') \<Rightarrow>
             (case render_invoice T spec sender sender [] (from_utf8_lossy body) (received_at T now) of
                Inr (subject, html) \<Rightarrow> ((subject, html), w')
              | Inl _ \<Rightarrow> ((fallback, body), w'))))"

definition recipient_user :: "rstr \<Rightarrow> world \<Rightarrow> (delivery_outcome, user) result" where
  "recipient_user recipient_mailbox w =
     (let user = (case split_on (CHR ''@'') recipient_mailbox of [] \<Rightarrow> [] | u # _ \<Rightarrow> u) in
      if user = [] then Inl (Rejected ''malformed recipient mailbox'')
      else (case fst (get_user user (w_store w)) of
              Inr (Some u) \<Rightarrow> Inr u
            | Inr None \<Rightarrow> Inl (Rejected (''no such recipient: '' @ user))
            | Inl _ \<Rightarrow> Inl (RetryLater ''storage error'')))"

definition append_and_broadcast ::
    "sink_cfg \<Rightarrow> int \<Rightarrow> new_message \<Rightarrow> rstr \<Rightarrow> world \<Rightarrow> (delivery_outcome, message_meta) result \<times> world" where
  "append_and_broadcast k uid msg mid w =
     (case tick w of (now, w1) \<Rightarrow>
     (case on_store (append_message now uid msg) w1 of
        (Inr meta, w2) \<Rightarrow>
          (Inr meta, if sk_events k then w2\<lparr>w_events := w_events w2 @ [MessageAppended uid]\<rparr> else w2)
      | (Inl (DuplicateMessage _), w2) \<Rightarrow> (Inl (Rejected (''duplicate message id: '' @ mid)), w2)
      | (Inl _, w2) \<Rightarrow> (Inl (RetryLater ''storage error''), w2)))"

definition inbound_tx :: "rstr \<Rightarrow> rstr \<Rightarrow> rstr \<Rightarrow> rstr \<Rightarrow> new_transaction" where
  "inbound_tx sender recipient amount mid =
     \<lparr>nt_direction = TxIn, nt_state = TxOpaque, nt_sender_mailbox = sender, nt_recipient_mailbox = recipient,
      nt_amount = amount, nt_binding = None, nt_message_id = mid, nt_outbound_body = None, nt_payload = ''sealed''\<rparr>"

definition record_inbound_tx :: "rstr \<Rightarrow> rstr \<Rightarrow> rstr \<Rightarrow> rstr \<Rightarrow> int \<Rightarrow> world \<Rightarrow> world" where
  "record_inbound_tx sender recipient amount mid row_id w =
     (case tick w of (now, w1) \<Rightarrow>
     (case on_store (tx_create now (inbound_tx sender recipient amount mid)) w1 of
        (Inr tx, w2) \<Rightarrow>
          (case tick w2 of (now', w3) \<Rightarrow> snd (on_store (tx_link_message now' (tx_id tx) row_id) w3))
      | (Inl _, w2) \<Rightarrow> w2))"

definition store_delivery ::
    "sink_cfg \<Rightarrow> user \<Rightarrow> rstr \<Rightarrow> rstr \<Rightarrow> rstr \<Rightarrow> rstr \<Rightarrow> rstr \<Rightarrow> bytes \<Rightarrow> world \<Rightarrow> delivery_outcome \<times> world" where
  "store_delivery k user sender recipient amount mid subject body w =
     (let trust = trust_str (keyring_state (user_id user) sender w);
          msg = \<lparr>nm_message_id = mid, nm_subject = subject, nm_body = body, nm_flags = flags_default,
                 nm_sender = sender, nm_trust_state = trust\<rparr>
      in case append_and_broadcast k (user_id user) msg mid w of
           (Inr meta, w1) \<Rightarrow> (Accepted mid, record_inbound_tx sender recipient amount mid (mm_id meta) w1)
         | (Inl out, w1) \<Rightarrow> (out, w1))"

definition deliver_emulated ::
    "sink_cfg \<Rightarrow> rstr \<Rightarrow> rstr \<Rightarrow> rstr \<Rightarrow> rstr \<Rightarrow> rstr \<Rightarrow> bytes \<Rightarrow> world \<Rightarrow> delivery_outcome \<times> world" where
  "deliver_emulated k recipient sender_label amount mid subject body w =
     (case recipient_user recipient w of
        Inl out \<Rightarrow> (out, w)
      | Inr user \<Rightarrow> store_delivery k user sender_label recipient amount mid subject body w)"

definition deliver :: "template_ext \<Rightarrow> sink_cfg \<Rightarrow> world delivery_sink" where
  "deliver T k sender mid recipient_mailbox p body w =
     (case recipient_user recipient_mailbox w of
        Inl out \<Rightarrow> (out, w)
      | Inr user \<Rightarrow>
          (case render_delivery T k sender p body w of
             ((subject, stored_body), w1) \<Rightarrow>
               store_delivery k user sender recipient_mailbox [] mid subject stored_body w1))"

subsection \<open>What a delivery may change\<close>

text \<open>
  The messages of a store with their flags and bodies, and what deliveries leave alone: users,
  keyring, shares, settings, the mailboxes and their owners, and every message there is.
\<close>

definition box_owner :: "mailbox_row \<Rightarrow> int \<times> int \<times> rstr" where
  "box_owner b = (mb_id b, mb_user_id b, mb_name b)"

lemma box_owner_update [simp]:
  "(\<And>b. box_owner (f b) = box_owner b) \<Longrightarrow> map box_owner (update_where P f bs) = map box_owner bs"
  by (simp add: update_where_def map_update_same)

lemma box_owner_uidnext [simp]: "box_owner (b\<lparr>mb_uidnext := n\<rparr>) = box_owner b"
  by (simp add: box_owner_def)

definition only_delivers :: "world \<Rightarrow> world \<Rightarrow> bool" where
  "only_delivers w w' \<longleftrightarrow>
     (store_inv (w_store w) \<longrightarrow> store_inv (w_store w')) \<and>
     users (w_store w') = users (w_store w) \<and> keyring_entries (w_store w') = keyring_entries (w_store w) \<and>
     shares (w_store w') = shares (w_store w) \<and> settings (w_store w') = settings (w_store w) \<and>
     poisoned (w_store w') = poisoned (w_store w) \<and> w_files w' = w_files w \<and>
     map box_owner (mailboxes (w_store w')) = map box_owner (mailboxes (w_store w)) \<and>
     (\<exists>new. messages (w_store w') = messages (w_store w) @ new) \<and>
     (\<exists>new. w_events w' = w_events w @ new)"

lemma only_delivers_refl: "only_delivers w w"
  by (simp add: only_delivers_def)

lemma only_delivers_trans: "only_delivers u v \<Longrightarrow> only_delivers v w \<Longrightarrow> only_delivers u w"
  by (auto simp: only_delivers_def)

lemma only_delivers_tick: "only_delivers w (snd (tick w))"
  by (simp add: only_delivers_def tick_def)

lemma only_delivers_draw: "only_delivers w (snd (draw n w))"
  by (simp add: only_delivers_def draw_def)

lemma only_delivers_events: "only_delivers w (w\<lparr>w_events := w_events w @ new\<rparr>)"
  by (simp add: only_delivers_def)

lemma append_message_tables:
  "users (snd (append_message now uid msg st)) = users st"
  "keyring_entries (snd (append_message now uid msg st)) = keyring_entries st"
  "shares (snd (append_message now uid msg st)) = shares st"
  "settings (snd (append_message now uid msg st)) = settings st"
  "poisoned (snd (append_message now uid msg st)) = poisoned st"
  "map box_owner (mailboxes (snd (append_message now uid msg st))) = map box_owner (mailboxes st)"
  "\<exists>new. messages (snd (append_message now uid msg st)) = messages st @ new"
  by (auto simp: append_message_def append_message_to_def bind_op_def mailbox_named_def append_locked_def locked_def
      Let_def split: option.splits)

lemma only_delivers_append: "only_delivers w (snd (on_store (append_message now uid msg) w))"
  using append_message_tables[of now uid msg "w_store w"] keeps_append_message(2)[of now uid msg]
  by (auto simp: only_delivers_def on_store_def keeps_def split: prod.splits)

lemma only_delivers_tx:
  "only_delivers w (snd (on_store (tx_create now t) w))" "only_delivers w (snd (on_store (tx_link_message now i r) w))"
proof -
  have "keeps store_inv (tx_create now t)" "keeps store_inv (tx_link_message now i r)" by (rule inv_intros)+
  then show "only_delivers w (snd (on_store (tx_create now t) w))" "only_delivers w (snd (on_store (tx_link_message now i r) w))"
    by (auto simp: only_delivers_def on_store_def keeps_def split: prod.splits;
        auto simp: tx_create_def tx_link_message_def locked_def Let_def split: if_splits)+
qed

lemma only_delivers_record: "only_delivers w (record_inbound_tx sender recipient amount mid r w)"
proof -
  obtain now w1 where w1: "tick w = (now, w1)" by fastforce
  obtain x w2 where w2: "on_store (tx_create now (inbound_tx sender recipient amount mid)) w1 = (x, w2)" by fastforce
  have a: "only_delivers w w1" using only_delivers_tick[of w] w1 by simp
  have b: "only_delivers w1 w2" using only_delivers_tx(1)[of w1 now] w2 by (metis snd_conv)
  show ?thesis
  proof (cases x)
    case (Inl e)
    with a b w1 w2 show ?thesis by (simp add: record_inbound_tx_def) (blast intro: only_delivers_trans)
  next
    case (Inr tx)
    obtain now' w3 where w3: "tick w2 = (now', w3)" by fastforce
    have "only_delivers w2 w3" using only_delivers_tick[of w2] w3 by simp
    with a b only_delivers_tx(2)[of w3 now' "tx_id tx" r] Inr w1 w2 w3 show ?thesis
      by (simp add: record_inbound_tx_def) (blast intro: only_delivers_trans)
  qed
qed

lemma only_delivers_broadcast: "only_delivers w (snd (append_and_broadcast k uid msg mid w))"
proof -
  obtain now w1 where w1: "tick w = (now, w1)" by fastforce
  obtain x w2 where w2: "on_store (append_message now uid msg) w1 = (x, w2)" by fastforce
  have "only_delivers w w1" using only_delivers_tick[of w] w1 by simp
  moreover have "only_delivers w1 w2" using only_delivers_append[of w1 now uid msg] w2 by simp
  ultimately have a: "only_delivers w w2" by (rule only_delivers_trans)
  show ?thesis
  proof (cases x)
    case (Inl e)
    with a w1 w2 show ?thesis by (cases e) (simp_all add: append_and_broadcast_def)
  next
    case (Inr meta)
    with a w1 w2 only_delivers_events[of w2 "[MessageAppended uid]"] show ?thesis
      by (simp add: append_and_broadcast_def) (blast intro: only_delivers_trans)
  qed
qed

lemma only_delivers_store: "only_delivers w (snd (store_delivery k user sender recipient amount mid subject body w))"
proof -
  let ?msg = "\<lparr>nm_message_id = mid, nm_subject = subject, nm_body = body, nm_flags = flags_default,
                 nm_sender = sender, nm_trust_state = trust_str (keyring_state (user_id user) sender w)\<rparr>"
  obtain x w1 where w1: "append_and_broadcast k (user_id user) ?msg mid w = (x, w1)" by fastforce
  have a: "only_delivers w w1" using only_delivers_broadcast[of w k "user_id user" ?msg mid] w1 by simp
  show ?thesis
  proof (cases x)
    case (Inl out)
    with a w1 show ?thesis by (simp add: store_delivery_def Let_def)
  next
    case (Inr meta)
    with w1 only_delivers_trans[OF a only_delivers_record] show ?thesis
      by (simp add: store_delivery_def Let_def)
  qed
qed

lemma only_delivers_render: "only_delivers w (snd (render_delivery T k sender p body w))"
  using only_delivers_tick[of w]
  by (auto simp: render_delivery_def Let_def only_delivers_refl split: sum.splits prod.splits)

lemma only_delivers_deliver: "only_delivers w (snd (deliver T k sender mid recipient p body w))"
proof (cases "recipient_user recipient w")
  case (Inl out)
  then show ?thesis by (simp add: deliver_def only_delivers_refl)
next
  case (Inr user)
  obtain s b w1 where r: "render_delivery T k sender p body w = ((s, b), w1)" by (metis prod.collapse)
  have "only_delivers w w1" using only_delivers_render[of w T k sender p body] r by simp
  from only_delivers_trans[OF this only_delivers_store] Inr r show ?thesis by (simp add: deliver_def)
qed

lemma only_delivers_mint: "only_delivers w (snd (placeholder_mint (draw 32) m w))"
  using only_delivers_draw[of w 32] by (simp add: placeholder_mint_def Let_def case_prod_beta)

text \<open>The daemon's sink and address provider meet the contract of the sessions.\<close>

interpretation daemon: delivery_world home "deliver T k" "placeholder_mint (draw 32)" only_delivers
  for home T k
  by unfold_locales (blast intro: only_delivers_refl only_delivers_trans only_delivers_deliver only_delivers_mint)+

subsection \<open>The outcome of a delivery\<close>

lemma recipient_user_local:
  assumes "CHR ''@'' \<notin> set u" "u \<noteq> []" "\<not> poisoned (w_store w)"
  shows "recipient_user (u @ CHR ''@'' # d) w =
    (case find (\<lambda>r. u_username r = u) (users (w_store w)) of
       None \<Rightarrow> Inl (Rejected (''no such recipient: '' @ u)) | Some r \<Rightarrow> Inr (user_of_row r))"
  using assms by (simp add: recipient_user_def get_user_def query_def locked_def split: option.splits)

lemma tick_sel [simp]:
  "w_store (snd (tick w)) = w_store w" "w_events (snd (tick w)) = w_events w"
  by (simp_all add: tick_def)

lemma render_delivery_store: "w_store (snd (render_delivery T k sender p body w)) = w_store w"
  "w_events (snd (render_delivery T k sender p body w)) = w_events w"
  by (auto simp: render_delivery_def Let_def tick_def split: sum.splits)

lemma keyring_state_iff:
  "\<not> poisoned (w_store w) \<Longrightarrow> keyring_state uid s w = (if s \<noteq> [] \<and> pin_of uid (w_store w) s \<noteq> None then Trusted else Unverified)"
  by (simp add: keyring_state_def pin_of_def keyring_sender_key_def query_def locked_def split: option.splits)

lemma inbox_of_user:
  assumes "store_inv st" "r \<in> set (users st)"
  obtains b where "b \<in> set (mailboxes st)" "mb_user_id b = u_id r" "mb_name b = INBOX"
  using assms unfolding store_inv_def schema_inv_def standard_mailboxes_def by fastforce

lemma record_inbound_tx_mail:
  "messages (w_store (record_inbound_tx s r a m i w)) = messages (w_store w)"
  "mailboxes (w_store (record_inbound_tx s r a m i w)) = mailboxes (w_store w)"
  "poisoned (w_store (record_inbound_tx s r a m i w)) = poisoned (w_store w)"
  "w_events (record_inbound_tx s r a m i w) = w_events w"
  by (simp_all add: record_inbound_tx_def tick_def on_store_def tx_create_def tx_link_message_def locked_def Let_def
      split: prod.splits sum.splits)

lemma record_inbound_tx_ledger:
  assumes "\<not> poisoned (w_store w)"
  shows "if (''in'', m) \<in> (\<lambda>t. (t_direction t, t_message_id t)) ` set (transactions (w_store w))
    then transactions (w_store (record_inbound_tx s r a m i w)) = transactions (w_store w)
    else \<exists>t. transactions (w_store (record_inbound_tx s r a m i w)) = transactions (w_store w) @ [t] \<and>
      t_message_row_id t = Some i \<and> t_state t = ''opaque'' \<and> t_sender_mailbox t = s \<and>
      t_recipient_mailbox t = r \<and> t_amount t = a \<and> t_message_id t = m \<and> t_direction t = ''in''"
proof -
  let ?j = "next_rowid (map t_id (transactions (w_store w)))"
  have n: "\<And>x. x \<in> set (transactions (w_store w)) \<Longrightarrow> t_id x \<noteq> ?j" by (rule next_rowid_neq)
  show ?thesis
  proof (cases "(''in'', m) \<in> (\<lambda>t. (t_direction t, t_message_id t)) ` set (transactions (w_store w))")
    case True
    with assms show ?thesis
      by (simp add: record_inbound_tx_def tick_def on_store_def tx_create_def locked_def inbound_tx_def
          tx_direction_str_def)
  next
    case False
    with assms n show ?thesis
      by (simp add: record_inbound_tx_def tick_def on_store_def tx_create_def tx_link_message_def locked_def
          inbound_tx_def tx_direction_str_def tx_state_str_def Let_def update_where_last)
  qed
qed

lemma join_new_tx:
  assumes "t_message_row_id t = Some i" "\<And>x. x \<in> set txs \<Longrightarrow> t_message_row_id x \<noteq> Some i"
  shows "join_tx (txs @ [t]) m = map (\<lambda>(m, x). (m, if m_id m = i then Some t else x)) (join_tx txs m)"
proof (cases "m_id m = i")
  case True
  then have "filter (\<lambda>t. t_message_row_id t = Some (m_id m)) txs = []" using assms(2) by (simp add: filter_empty_conv)
  with True assms(1) show ?thesis by (simp add: join_tx_def)
next
  case False
  with assms(1) show ?thesis by (auto simp: join_tx_def split: list.splits)
qed

lemma mailbox_rows_new_tx:
  assumes "t_message_row_id t = Some i" "\<And>x. x \<in> set (transactions st) \<Longrightarrow> t_message_row_id x \<noteq> Some i"
    and "messages st' = messages st" "transactions st' = transactions st @ [t]"
  shows "mailbox_rows bid st' = map (\<lambda>(m, x). (m, if m_id m = i then Some t else x)) (mailbox_rows bid st)"
proof -
  have "concat (map (join_tx (transactions st @ [t])) ms) =
      map (\<lambda>(m, x). (m, if m_id m = i then Some t else x)) (concat (map (join_tx (transactions st)) ms))" for ms
    using join_new_tx[OF assms(1,2)] by (induction ms) auto
  then show ?thesis
    unfolding mailbox_rows_def assms(3,4) by (simp add: sort_key_map_same case_prod_beta)
qed

lemma trust_str_eqs [simp]: "trust_str Trusted = ''trusted''" "trust_str Unverified = ''unverified''"
  by (simp_all add: trust_str_def)

text \<open>Storing a message for a known user, row by row.\<close>

lemma store_delivery_known:
  assumes inv: "store_inv (w_store w)" and np: "\<not> poisoned (w_store w)"
    and b: "b \<in> set (mailboxes (w_store w))" "mb_user_id b = user_id user" "mb_name b = INBOX"
    and out: "store_delivery k user sender rcpt amount mid subject body w = (out, w')"
  defines "msg \<equiv> \<lparr>nm_message_id = mid, nm_subject = subject, nm_body = body, nm_flags = flags_default,
                 nm_sender = sender, nm_trust_state = trust_str (keyring_state (user_id user) sender w)\<rparr>"
  shows "if (mb_id b, mid) \<in> (\<lambda>m. (m_mailbox_id m, m_message_id m)) ` set (messages (w_store w))
    then out = Rejected (''duplicate message id: '' @ mid) \<and> w_store w' = w_store w \<and> w_events w' = w_events w
    else out = Accepted mid \<and>
      (\<exists>now w1. w' = record_inbound_tx sender rcpt amount mid (next_rowid (map m_id (messages (w_store w)))) w1 \<and>
        w_events w1 = w_events w @ (if sk_events k then [MessageAppended (user_id user)] else []) \<and>
        w_store w1 = (w_store w)\<lparr>messages := messages (w_store w) @ [new_message_row now msg (mb_id b) (mb_uidnext b) (w_store w)],
          mailboxes := bump (mb_id b) (mailboxes (w_store w))\<rparr>)"
proof -
  obtain now w0 where t: "tick w = (now, w0)" by fastforce
  then have w0: "w_store w0 = w_store w" "w_events w0 = w_events w" using tick_sel[of w] by auto
  note app = append_message_to_eq[OF inv np b(1), of now msg, unfolded b(2,3)]
  have mid: "nm_message_id msg = mid" by (simp add: msg_def)
  show ?thesis
  proof (cases "(mb_id b, mid) \<in> (\<lambda>m. (m_mailbox_id m, m_message_id m)) ` set (messages (w_store w))")
    case True
    with out t w0 app show ?thesis
      by (auto simp: store_delivery_def Let_def append_and_broadcast_def on_store_def append_message_def mid
          simp flip: msg_def)
  next
    case False
    let ?st = "(w_store w)\<lparr>messages := messages (w_store w) @ [new_message_row now msg (mb_id b) (mb_uidnext b) (w_store w)],
          mailboxes := bump (mb_id b) (mailboxes (w_store w))\<rparr>"
    let ?w1 = "if sk_events k then w0\<lparr>w_store := ?st, w_events := w_events w0 @ [MessageAppended (user_id user)]\<rparr>
      else w0\<lparr>w_store := ?st\<rparr>"
    have "append_and_broadcast k (user_id user) msg mid w =
        (Inr (row_to_meta (new_message_row now msg (mb_id b) (mb_uidnext b) (w_store w)) None (mb_uidvalidity b)), ?w1)"
      using False t w0 app by (simp add: append_and_broadcast_def on_store_def append_message_def mid)
    then have "out = Accepted mid \<and>
        w' = record_inbound_tx sender rcpt amount mid (next_rowid (map m_id (messages (w_store w)))) ?w1"
      using out by (auto simp: store_delivery_def Let_def row_to_meta_def simp flip: msg_def)
    moreover have "w_events ?w1 = w_events w @ (if sk_events k then [MessageAppended (user_id user)] else [])"
      "w_store ?w1 = ?st" using w0 by simp_all
    ultimately show ?thesis using False by (simp only: if_False) blast
  qed
qed

text \<open>The listing of the recipient after a delivery was stored.\<close>

lemma listing_after_delivery:
  assumes inv: "store_inv (w_store w)" and np: "\<not> poisoned (w_store w)" and nl: "no_stale_link (w_store w)"
    and b: "b \<in> set (mailboxes (w_store w))"
    and w1: "w_store w1 = (w_store w)\<lparr>messages := messages (w_store w) @ [row], mailboxes := bump (mb_id b) (mailboxes (w_store w))\<rparr>"
    and row: "m_id row = next_rowid (map m_id (messages (w_store w)))" "m_mailbox_id row = mb_id b" "m_uid row = mb_uidnext b"
    and w': "w' = record_inbound_tx sender rcpt amount mid (m_id row) w1"
  shows "\<exists>tx. fst (list_messages_in (mb_user_id b) (mb_name b) (w_store w')) =
      Inr (row_to_meta row tx (mb_uidvalidity b) # metas (mb_uidvalidity b) (mailbox_rows (mb_id b) (w_store w))) \<and>
    map_option t_state tx =
      (if (''in'', mid) \<in> (\<lambda>t. (t_direction t, t_message_id t)) ` set (transactions (w_store w)) then None else Some ''opaque'')"
proof -
  let ?st = "w_store w" and ?i = "m_id row"
  have tx1: "transactions (w_store w1) = transactions ?st" "\<not> poisoned (w_store w1)" using np by (simp_all add: w1)
  have rows1: "mailbox_rows (mb_id b) (w_store w1) = (row, None) # mailbox_rows (mb_id b) ?st"
    unfolding w1 using row nl uids_below[OF inv b] by (intro mailbox_rows_append) (auto simp: no_stale_link_def)
  have mail: "messages (w_store w') = messages (w_store w1)" "mailboxes (w_store w') = bump (mb_id b) (mailboxes ?st)" "\<not> poisoned (w_store w')"
    using np by (simp_all add: w' record_inbound_tx_mail w1)
  obtain c where c: "c \<in> set (bump (mb_id b) (mailboxes ?st))" "mb_user_id c = mb_user_id b" "mb_name c = mb_name b"
    "mb_id c = mb_id b" "mb_uidvalidity c = mb_uidvalidity b" by (rule bump_row[OF b])
  have "mailboxes_ok (users ?st) (mailboxes (w_store w'))" using mailboxes_ok_bump store_inv_boxes[OF inv] by (simp add: mail)
  from list_messages_in_eq[OF this, of c] c mail(2,3)
  have lst: "fst (list_messages_in (mb_user_id b) (mb_name b) (w_store w')) =
      Inr (metas (mb_uidvalidity b) (mailbox_rows (mb_id b) (w_store w')))" by simp
  note led = record_inbound_tx_ledger[OF tx1(2), of mid sender rcpt amount ?i, unfolded tx1(1), folded w']
  show ?thesis
  proof (cases "(''in'', mid) \<in> (\<lambda>t. (t_direction t, t_message_id t)) ` set (transactions ?st)")
    case True
    with led mail(1) tx1(1) have "mailbox_rows (mb_id b) (w_store w') = mailbox_rows (mb_id b) (w_store w1)"
      by (simp add: mailbox_rows_def)
    with True lst rows1 show ?thesis by (intro exI[of _ None]) (simp add: metas_def)
  next
    case False
    with led obtain t where t: "transactions (w_store w') = transactions ?st @ [t]" "t_message_row_id t = Some ?i" "t_state t = ''opaque''"
      by auto
    have "mailbox_rows (mb_id b) (w_store w') =
        map (\<lambda>(m, x). (m, if m_id m = ?i then Some t else x)) (mailbox_rows (mb_id b) (w_store w1))"
      using t mail(1) tx1(1) nl row(1) by (intro mailbox_rows_new_tx) (auto simp: no_stale_link_def)
    moreover have "map (\<lambda>(m, x). (m, if m_id m = ?i then Some t else x)) (mailbox_rows (mb_id b) ?st) = mailbox_rows (mb_id b) ?st"
      using row(1) next_rowid_neq[of _ "messages ?st" m_id] by (intro map_idI) (auto dest!: mailbox_rows_in)
    ultimately show ?thesis using False lst rows1 t(3) by (intro exI[of _ "Some t"]) (simp add: metas_def)
  qed
qed

lemma inbox_unique:
  assumes "store_inv st" "b \<in> set (mailboxes st)" "mb_user_id b = uid" "mb_name b = INBOX"
  shows "{c \<in> set (mailboxes st). mb_user_id c = uid \<and> mb_name c = INBOX} = {b}"
proof (intro equalityI subsetI)
  fix c assume "c \<in> {c \<in> set (mailboxes st). mb_user_id c = uid \<and> mb_name c = INBOX}"
  then have "c = b" by (intro mailbox_key_unique[OF assms(1,2)]) (simp_all add: assms)
  then show "c \<in> {b}" by simp
qed (simp add: assms)

text \<open>A delivery to a local user.\<close>

lemma deliver_known:
  assumes "store_reach (w_store w)" "\<not> poisoned (w_store w)" "no_stale_link (w_store w)"
    and "CHR ''@'' \<notin> set u" "u \<noteq> []"
    and "deliver T k sender mid (u @ ''@'' @ d) p body w = (out, w')"
    and Some: "find (\<lambda>r. u_username r = u) (users (w_store w)) = Some r"
  shows "\<exists>l. fst (list_messages (u_id r) (w_store w)) = Inr l \<and>
    (if \<exists>m \<in> set (messages (w_store w)). m_message_id m = mid \<and> m_mailbox_id m \<in>
        mb_id ` {b \<in> set (mailboxes (w_store w)). mb_user_id b = u_id r \<and> mb_name b = INBOX}
        then out = Rejected (''duplicate message id: '' @ mid) \<and> w_store w' = w_store w \<and> w_events w' = w_events w
        else out = Accepted mid \<and>
     w_events w' = w_events w @ (if sk_events k then [MessageAppended (u_id r)] else []) \<and>
     (\<exists>meta. fst (list_messages (u_id r) (w_store w')) = Inr (meta # l) \<and>
        mm_message_id meta = mid \<and> mm_sender meta = sender \<and>
        mm_trust_state meta = (if sender \<noteq> [] \<and> pin_of (u_id r) (w_store w) sender \<noteq> None then ''trusted'' else ''unverified'') \<and>
        mm_tx_state meta = (if (''in'', mid) \<in> (\<lambda>t. (t_direction t, t_message_id t)) ` set (transactions (w_store w))
          then None else Some ''opaque'')))"
proof -
  note inv = store_reach_inv[OF assms(1)]
  have "r \<in> set (users (w_store w))" using find_Some_in[OF Some] by simp
  then obtain b where b: "b \<in> set (mailboxes (w_store w))" "mb_user_id b = u_id r" "mb_name b = INBOX"
    by (rule inbox_of_user[OF inv])
  note uniq = inbox_unique[OF inv b]
  obtain s bd w0 where rd: "render_delivery T k sender p body w = ((s, bd), w0)" by (metis prod.collapse)
  then have w0: "w_store w0 = w_store w" "w_events w0 = w_events w" using render_delivery_store[of T k sender p body w] by auto
  have out: "store_delivery k (user_of_row r) sender (u @ ''@'' @ d) [] mid s bd w0 = (out, w')"
    using assms(2,4-6) Some rd by (simp add: deliver_def recipient_user_local)
  have uid: "user_id (user_of_row r) = u_id r" by (simp add: user_of_row_def)
  note sd = store_delivery_known[of w0 b "user_of_row r", unfolded w0 uid, OF inv assms(2) b out]
  have trust: "trust_str (keyring_state (u_id r) sender w0) =
      (if sender \<noteq> [] \<and> pin_of (u_id r) (w_store w) sender \<noteq> None then ''trusted'' else ''unverified'')"
    using assms(2) by (simp add: keyring_state_iff w0)
  have l: "fst (list_messages (u_id r) (w_store w)) = Inr (metas (mb_uidvalidity b) (mailbox_rows (mb_id b) (w_store w)))"
    using list_messages_in_eq[OF store_inv_boxes[OF inv] b(1) assms(2)] b(2,3) by (simp add: list_messages_def)
  have dup: "(mb_id b, mid) \<in> (\<lambda>m. (m_mailbox_id m, m_message_id m)) ` set (messages (w_store w)) \<longleftrightarrow>
      (\<exists>m \<in> set (messages (w_store w)). m_message_id m = mid \<and> m_mailbox_id m \<in>
        mb_id ` {b \<in> set (mailboxes (w_store w)). mb_user_id b = u_id r \<and> mb_name b = INBOX})"
    unfolding uniq by force
  show ?thesis
  proof (cases "(mb_id b, mid) \<in> (\<lambda>m. (m_mailbox_id m, m_message_id m)) ` set (messages (w_store w))")
    case True
    with sd l dup Some show ?thesis by simp
  next
    case False
    with sd obtain now w1 where o: "out = Accepted mid"
      and w': "w' = record_inbound_tx sender (u @ ''@'' @ d) [] mid (next_rowid (map m_id (messages (w_store w)))) w1"
      and ev: "w_events w1 = w_events w @ (if sk_events k then [MessageAppended (u_id r)] else [])"
      and w1: "w_store w1 = (w_store w)\<lparr>messages := messages (w_store w) @
          [new_message_row now \<lparr>nm_message_id = mid, nm_subject = s, nm_body = bd, nm_flags = flags_default,
             nm_sender = sender, nm_trust_state = trust_str (keyring_state (u_id r) sender w0)\<rparr> (mb_id b) (mb_uidnext b) (w_store w)],
          mailboxes := bump (mb_id b) (mailboxes (w_store w))\<rparr>" by auto
    from listing_after_delivery[OF inv assms(2,3) b(1) w1, of w' sender "u @ ''@'' @ d" "[]" mid] obtain tx
      where "fst (list_messages (u_id r) (w_store w')) =
        Inr (row_to_meta (new_message_row now \<lparr>nm_message_id = mid, nm_subject = s, nm_body = bd, nm_flags = flags_default,
             nm_sender = sender, nm_trust_state = trust_str (keyring_state (u_id r) sender w0)\<rparr> (mb_id b) (mb_uidnext b) (w_store w))
           tx (mb_uidvalidity b) # metas (mb_uidvalidity b) (mailbox_rows (mb_id b) (w_store w)))"
      and "map_option t_state tx = (if (''in'', mid) \<in> (\<lambda>t. (t_direction t, t_message_id t)) ` set (transactions (w_store w))
        then None else Some ''opaque'')"
      using b(2,3) by (auto simp: w' list_messages_def)
    moreover have "w_events w' = w_events w1" by (simp add: w' record_inbound_tx_mail)
    ultimately show ?thesis
      using False o ev l dup Some trust by (simp add: row_to_meta_def new_message_row_def)
  qed
qed

subsection \<open>Properties\<close>

text \<open>
  C6. A delivery to a local user name: an unknown user and a message id already in the INBOX are
  rejected and neither the store nor the events change; otherwise the invoice is accepted, the new
  message is the first entry of the recipient's INBOX and the rest of the INBOX is unchanged, it
  names the sender, it is marked trusted exactly when the recipient has pinned that sender, one
  event is broadcast, and it carries the ledger state \<open>opaque\<close> unless the ledger already had an
  inbound entry with this message id (of any recipient), in which case it has no ledger entry.
\<close>

theorem delivery_exact:
  assumes "store_reach (w_store w)" "\<not> poisoned (w_store w)" "no_stale_link (w_store w)"
    and "CHR ''@'' \<notin> set u" "u \<noteq> []"
    and "deliver T k sender mid (u @ ''@'' @ d) p body w = (out, w')"
  shows "case find (\<lambda>r. u_username r = u) (users (w_store w)) of
      None \<Rightarrow> out = Rejected (''no such recipient: '' @ u) \<and> w' = w
    | Some r \<Rightarrow> (\<exists>l. fst (list_messages (u_id r) (w_store w)) = Inr l \<and>
       (if \<exists>m \<in> set (messages (w_store w)). m_message_id m = mid \<and> m_mailbox_id m \<in>
             mb_id ` {b \<in> set (mailboxes (w_store w)). mb_user_id b = u_id r \<and> mb_name b = INBOX}
        then out = Rejected (''duplicate message id: '' @ mid) \<and> w_store w' = w_store w \<and> w_events w' = w_events w
        else out = Accepted mid \<and>
          w_events w' = w_events w @ (if sk_events k then [MessageAppended (u_id r)] else []) \<and>
          (\<exists>meta. fst (list_messages (u_id r) (w_store w')) = Inr (meta # l) \<and>
             mm_message_id meta = mid \<and> mm_sender meta = sender \<and>
             mm_trust_state meta = (if sender \<noteq> [] \<and> pin_of (u_id r) (w_store w) sender \<noteq> None then ''trusted'' else ''unverified'') \<and>
             mm_tx_state meta = (if (''in'', mid) \<in> (\<lambda>t. (t_direction t, t_message_id t)) ` set (transactions (w_store w))
               then None else Some ''opaque''))))"
proof (cases "find (\<lambda>r. u_username r = u) (users (w_store w))")
  case None
  with assms show ?thesis by (simp add: deliver_def recipient_user_local)
next
  case (Some r)
  show ?thesis unfolding Some option.case using deliver_known[OF assms Some] .
qed

definition demo_templates :: template_ext where
  "demo_templates = \<lparr>toml_templates = (\<lambda>_. Inl []), tera_one_off = (\<lambda>_ _. Inr ''rendered''), rfc3339 = (\<lambda>_. ''now'')\<rparr>"

definition demo_world :: "store \<Rightarrow> world" where
  "demo_world st = \<lparr>w_store = st, w_events = [], w_clock = (\<lambda>i. 2000 + int i), w_rng = (\<lambda>_. CHR 0x07), w_files = (\<lambda>_. None)\<rparr>"

theorem delivery_exact_witness:
  "\<exists>w' meta. deliver demo_templates (with_events sink_new) ''x@y'' ''m1'' (''bob'' @ ''@'' @ ''home'') Sealed ''hi'' (demo_world bob_store) =
       (Accepted ''m1'', w') \<and>
     w_events w' = [MessageAppended 1] \<and> fst (list_messages 1 (w_store w')) = Inr [meta] \<and>
     mm_trust_state meta = ''unverified'' \<and> mm_tx_state meta = Some ''opaque''"
proof -
  obtain out w' where d: "deliver demo_templates (with_events sink_new) ''x@y'' ''m1'' (''bob'' @ ''@'' @ ''home'') Sealed ''hi''
      (demo_world bob_store) = (out, w')" by fastforce
  have st: "w_store (demo_world bob_store) = bob_store" by (simp add: demo_world_def)
  have f: "map_option u_id (find (\<lambda>r. u_username r = ''bob'') (users bob_store)) = Some 1" by code_simp
  then obtain r where r: "find (\<lambda>r. u_username r = ''bob'') (users bob_store) = Some r" "u_id r = 1" by auto
  have e: "messages bob_store = []" "transactions bob_store = []" "fst (list_messages 1 bob_store) = Inr []"
    "pin_of 1 bob_store ''x@y'' = None" by code_simp+
  from delivery_exact[of "demo_world bob_store" "''bob''" demo_templates "with_events sink_new" "''x@y''" "''m1''" "''home''" Sealed "''hi''" out w']
    d bob_reach demo_ready r e
  show ?thesis by (auto simp: st demo_world_def with_events_def)
qed

text \<open>
  C14. Whatever bytes a peer sends over a whole connection, the daemon only adds mail: no existing
  message is changed or removed, users, their mailboxes, keyrings, shares, settings and files stay as they are, and
  the store invariant is kept.
\<close>

theorem connection_only_adds_mail:
  fixes E :: ext and J :: json_ext
  shows "only_delivers w (cn_world (snd (serve_connection E J (draw 32) home key (deliver T k) user_exists inp w)))"
proof -
  let ?c = "\<lparr>cn_session = daemon_session (draw 32) home key (deliver T k) user_exists, cn_world = w, cn_in = inp, cn_out = []\<rparr>"
  obtain r c' where run: "run E J ?c = (r, c')" by fastforce
  have "daemon.uses home T k (cn_session ?c)" by (simp add: daemon.uses_def)
  from daemon.run_R[OF this run] show ?thesis by (simp add: serve_connection_run run)
qed

text \<open>
  The domain key is stable: once it was loaded or created, loading it again gives the same key
  and changes nothing, so attestations signed in one run of the daemon verify in the next.
\<close>

theorem domain_key_stable:
  assumes "load_or_create_domain_key dir w = (Inr key, w')"
  shows "length key = 32 \<and> load_or_create_domain_key dir w' = (Inr key, w')"
  using assms by (auto simp: load_or_create_domain_key_def Let_def draw_def split: option.splits if_splits)

theorem domain_key_stable_witness:
  "\<exists>key w'. load_or_create_domain_key ''d'' (demo_world bob_store) = (Inr key, w') \<and>
     load_or_create_domain_key ''d'' w' = (Inr key, w')"
proof -
  obtain r w' where l: "load_or_create_domain_key ''d'' (demo_world bob_store) = (r, w')" by fastforce
  then obtain key where "r = Inr key"
    by (auto simp: load_or_create_domain_key_def demo_world_def draw_def Let_def)
  with domain_key_stable[of "''d''" "demo_world bob_store" key w'] l show ?thesis by blast
qed

text \<open>
  The sink takes the user name up to the first \<open>@\<close> of the mailbox, while ADDR looks the whole
  name up in the directory and registration accepts names that contain \<open>@\<close>: an invoice addressed
  to a registered user \<open>u\<close> is delivered to the user named by the part of \<open>u\<close> before its first \<open>@\<close>.
\<close>

theorem qualified_name_aliases:
  "recipient_user (u @ ''@'' @ d) w = recipient_user (takeWhile (\<lambda>c. c \<noteq> CHR ''@'') u @ ''@'' @ d') w"
proof -
  have first: "(case split_on (CHR ''@'') s of [] \<Rightarrow> [] | x # _ \<Rightarrow> x) = takeWhile (\<lambda>c. c \<noteq> CHR ''@'') s" for s
    using hd_split_on[of "CHR ''@''" s] split_on_nonempty[of "CHR ''@''" s] by (cases "split_on (CHR ''@'') s") auto
  have "takeWhile (\<lambda>c. c \<noteq> CHR ''@'') (x @ ''@'' @ y) = takeWhile (\<lambda>c. c \<noteq> CHR ''@'') x" for x y
    by (induction x) auto
  moreover have "takeWhile P (takeWhile P u) = takeWhile P u" for P :: "char \<Rightarrow> bool"
    by (auto simp: takeWhile_eq_all_conv dest: set_takeWhileD)
  ultimately show ?thesis unfolding recipient_user_def first by simp
qed

end
