(* ===== verification/Client.thy ===== *)
theory Client
  imports Session
begin

text \<open>
  The outbound side of a ZSMTP connection (\<^verbatim>\<open>talk-protocol/src/client.rs\<close>). A client keeps the bytes
  the peer sends and the bytes it has written beside its own state; opening the socket and the TLS
  session is a parameter that gives those bytes or an error. The clock readings and the nonce are
  arguments of the operations that use them. The replies are read with the same framing as the
  server's commands.
\<close>

subsection \<open>Data\<close>

datatype client_state = Connected | ClAwaitingAuth | ClAuthenticated | Addressed

datatype client_error =
    ClFraming framing_error
  | ClIo rstr
  | BadGreeting rstr
  | ClRejected rstr
  | ClRetryLater rstr
  | ClAuth rstr
  | BadAttestation rstr
  | ClOrder rstr

record client =
  cl_in :: bytes
  cl_out :: bytes
  cl_state :: client_state
  cl_sender_domain :: rstr
  cl_receiver_domain :: rstr
  cl_addr_user :: "rstr option"

type_synonym 'a client_op = "client \<Rightarrow> (client_error, 'a) result \<times> client"

text \<open>The messages of the errors the client passes on (\<^verbatim>\<open>Display\<close> by \<^verbatim>\<open>thiserror\<close>).\<close>

definition show_handshake_error :: "handshake_error \<Rightarrow> rstr" where
  "show_handshake_error e =
     (case e of
        BadSignature \<Rightarrow> ''signature verification failed''
      | Stale n \<Rightarrow> ''challenge is stale (older than '' @ show_int n @ '' seconds)''
      | Replay \<Rightarrow> ''challenge nonce replayed''
      | DomainMismatch \<Rightarrow> ''challenge domain mismatch''
      | InvalidKey \<Rightarrow> ''invalid key bytes'')"

definition show_attestation_error :: "attestation_error \<Rightarrow> rstr" where
  "show_attestation_error e =
     (case e of
        AttBadSignature \<Rightarrow> ''signature verification failed''
      | AttInvalidKey \<Rightarrow> ''invalid key bytes''
      | AttDomainMismatch \<Rightarrow> ''attestation domain mismatch'')"

subsection \<open>Operations\<close>

definition cl_rd :: "'a reader \<Rightarrow> 'a client_op" where
  "cl_rd f c =
     (case f (cl_in c) of
        (Inl e, rest) \<Rightarrow> (Inl (ClFraming e), c\<lparr>cl_in := rest\<rparr>)
      | (Inr a, rest) \<Rightarrow> (Inr a, c\<lparr>cl_in := rest\<rparr>))"

definition cl_wr :: "writer \<Rightarrow> unit client_op" where
  "cl_wr f c =
     (case f (cl_out c) of
        (Inl e, out') \<Rightarrow> (Inl (ClFraming e), c\<lparr>cl_out := out'\<rparr>)
      | (Inr _, out') \<Rightarrow> (Inr (), c\<lparr>cl_out := out'\<rparr>))"

definition status_error :: "rstr \<Rightarrow> client_error" where
  "status_error line =
     (let n = (case nth_opt (split_whitespace line) 0 of
                 None \<Rightarrow> 0
               | Some t \<Rightarrow> unwrap_or 0 (parse_uint u16_max t))
      in if is_transient (StatusCode (of_nat n)) then ClRetryLater line else ClRejected line)"

text \<open>Reading a status line and refusing what does not start with the expected code.\<close>

definition expect_status :: "rstr \<Rightarrow> unit client_op" where
  "expect_status pre =
     bind_s (cl_rd read_line) (\<lambda>line. lift_r (if starts_with line pre then Inr () else Inl (status_error line)))"

definition client_connect :: "bytes \<Rightarrow> rstr \<Rightarrow> (client_error, client) result" where
  "client_connect inp sender =
     (case cl_rd read_line \<lparr>cl_in = inp, cl_out = [], cl_state = Connected, cl_sender_domain = sender,
                            cl_receiver_domain = [], cl_addr_user = None\<rparr> of
        (Inl e, _) \<Rightarrow> Inl e
      | (Inr g, c) \<Rightarrow>
          (case strip_prefix ''ZSMTP 1.0 '' g of
             None \<Rightarrow> Inl (BadGreeting g)
           | Some receiver \<Rightarrow>
               if receiver = [] then Inl (BadGreeting g) else Inr (c\<lparr>cl_receiver_domain := receiver\<rparr>)))"

definition client_hello :: "unit client_op" where
  "client_hello c =
     (if cl_state c \<noteq> Connected then (Inl (ClOrder ''hello already sent''), c)
      else bind_s (cl_wr (write_line (''HELLO '' @ cl_sender_domain c))) (\<lambda>_.
           bind_s (expect_status ''250 '') (\<lambda>_ c. (Inr (), c\<lparr>cl_state := ClAwaitingAuth\<rparr>))) c)"

text \<open>The check of an AUTH reply: the blob holds the challenge and the signature.\<close>

definition auth_reply :: "ext \<Rightarrow> bytes \<Rightarrow> int \<Rightarrow> bytes \<Rightarrow> (client_error, unit) result" where
  "auth_reply E pub now blob =
     bind_r (ok_or (ClAuth ''malformed auth response'') (rsplit_once BAR (from_utf8_lossy blob)))
       (\<lambda>(chal_wire, sig_hex).
     bind_r (ok_or (ClAuth ''malformed challenge'') (from_wire chal_wire)) (\<lambda>ch.
     bind_r (ok_or (ClAuth ''malformed signature'') (hex_decode E sig_hex)) (\<lambda>sig.
     case verify E \<lparr>resp_challenge = ch, resp_signature = sig\<rparr> pub MAX_CHALLENGE_AGE now of
       Inl e \<Rightarrow> Inl (ClAuth (show_handshake_error e))
     | Inr _ \<Rightarrow> Inr ())))"

definition client_authenticate :: "ext \<Rightarrow> bytes \<Rightarrow> int \<Rightarrow> int \<Rightarrow> bytes \<Rightarrow> unit client_op" where
  "client_authenticate E rnd issued now pub c =
     (if cl_state c \<noteq> ClAwaitingAuth then (Inl (ClOrder ''authenticate out of sequence''), c)
      else
        (let ch = challenge_issue (cl_sender_domain c) (cl_receiver_domain c) rnd issued in
         bind_s (cl_wr (write_line (''AUTH '' @ b64_encode E (to_wire ch)))) (\<lambda>_.
         bind_s (expect_status ''250 '') (\<lambda>_.
         bind_s (cl_rd read_blob) (\<lambda>blob.
         bind_s (lift_r (auth_reply E pub now blob)) (\<lambda>_ c. (Inr (), c\<lparr>cl_state := ClAuthenticated\<rparr>))))) c))"

definition addr_reply :: "ext \<Rightarrow> json_ext \<Rightarrow> bytes \<Rightarrow> rstr \<Rightarrow> bytes \<Rightarrow> (client_error, attestation) result" where
  "addr_reply E J pub receiver blob =
     (case att_from_json J (from_utf8_lossy blob) of
        Inl e \<Rightarrow> Inl (BadAttestation (show_attestation_error e))
      | Inr att \<Rightarrow>
          (case att_verify E att pub receiver of
             Inl e \<Rightarrow> Inl (BadAttestation (show_attestation_error e))
           | Inr _ \<Rightarrow> Inr att))"

definition client_request_address ::
    "ext \<Rightarrow> json_ext \<Rightarrow> rstr \<Rightarrow> attestation_mode \<Rightarrow> bytes \<Rightarrow> attestation client_op" where
  "client_request_address E J user mode pub c =
     (if cl_state c \<noteq> ClAuthenticated then (Inl (ClOrder ''request_address out of sequence''), c)
      else
        (let mode_s = (case mode of Ephemeral \<Rightarrow> ''ephemeral'' | Attested \<Rightarrow> ''attested'') in
         bind_s (cl_wr (write_line (''ADDR '' @ mode_s @ '' '' @ user))) (\<lambda>_.
         bind_s (expect_status ''250 '') (\<lambda>_.
         bind_s (cl_rd read_blob) (\<lambda>blob.
         bind_s (lift_r (addr_reply E J pub (cl_receiver_domain c) blob)) (\<lambda>att c.
           (Inr att, c\<lparr>cl_addr_user := Some user, cl_state := Addressed\<rparr>))))) c))"

definition client_send_invoice :: "rstr \<Rightarrow> rstr \<Rightarrow> payload \<Rightarrow> bytes \<Rightarrow> unit client_op" where
  "client_send_invoice sender mid p body c =
     (if cl_state c \<noteq> Addressed then (Inl (ClOrder ''send_invoice out of sequence''), c)
      else
        bind_s (cl_wr (write_line (''INVOICE '' @ sender @ '' '' @ mid @ '' '' @ payload_str p))) (\<lambda>_.
        bind_s (cl_wr (write_blob body)) (\<lambda>_.
        expect_status ''250 '')) c)"

definition client_quit :: "unit client_op" where
  "client_quit = bind_s (cl_wr (write_line ''QUIT'')) (\<lambda>_. expect_status ''221 '')"

definition send_invoice_over ::
    "ext \<Rightarrow> json_ext \<Rightarrow> bytes \<Rightarrow> int \<Rightarrow> int \<Rightarrow> rstr \<Rightarrow> rstr \<Rightarrow> bytes \<Rightarrow> rstr \<Rightarrow> payload \<Rightarrow> bytes \<Rightarrow> unit client_op" where
  "send_invoice_over E J rnd issued now sender user pub mid p body =
     bind_s client_hello (\<lambda>_.
     bind_s (client_authenticate E rnd issued now pub) (\<lambda>_.
     bind_s (client_request_address E J user Ephemeral pub) (\<lambda>_.
     bind_s (client_send_invoice sender mid p body) (\<lambda>_ c.
       (Inr (), snd (client_quit c))))))"

record send_invoice =
  si_endpoint :: rstr
  si_receiver_domain :: rstr
  si_sender_domain :: rstr
  si_sender_username :: rstr
  si_recipient_user :: rstr
  si_receiver_pub :: bytes
  si_message_id :: rstr
  si_payload :: payload
  si_body :: bytes

text \<open>The network: dialling an endpoint over TLS gives the bytes its peer sends, or an error.\<close>

type_synonym network = "rstr \<Rightarrow> rstr \<Rightarrow> (client_error, bytes) result"

definition connect_tcp_tls :: "network \<Rightarrow> rstr \<Rightarrow> rstr \<Rightarrow> rstr \<Rightarrow> (client_error, client) result" where
  "connect_tcp_tls net addr server_name sender = bind_r (net addr server_name) (\<lambda>inp. client_connect inp sender)"

definition send_invoice_deliver ::
    "ext \<Rightarrow> json_ext \<Rightarrow> network \<Rightarrow> bytes \<Rightarrow> int \<Rightarrow> int \<Rightarrow> send_invoice \<Rightarrow> (client_error, unit) result" where
  "send_invoice_deliver E J net rnd issued now si =
     bind_r (connect_tcp_tls net (si_endpoint si) (si_receiver_domain si) (si_sender_domain si)) (\<lambda>c.
       fst (send_invoice_over E J rnd issued now (si_sender_username si) (si_recipient_user si)
              (si_receiver_pub si) (si_message_id si) (si_payload si) (si_body si) c))"

subsection \<open>Single steps\<close>

lemma cl_rd_line:
  "line_fits l \<Longrightarrow> cl_in c = line_bytes l @ rest \<Longrightarrow> cl_rd read_line c = (Inr l, c\<lparr>cl_in := rest\<rparr>)"
  using line_frame.rd_wr[of l rest] by (simp add: cl_rd_def)

lemma cl_rd_blob:
  "length b \<le> MAX_BLOB \<Longrightarrow> cl_in c = blob_bytes b @ rest \<Longrightarrow> cl_rd read_blob c = (Inr b, c\<lparr>cl_in := rest\<rparr>)"
  using blob_frame.rd_wr[of b rest] by (simp add: cl_rd_def blob_fits_def)

lemma cl_wr_line:
  "length l \<le> MAX_LINE \<Longrightarrow> cl_wr (write_line l) c = (Inr (), c\<lparr>cl_out := cl_out c @ line_bytes l\<rparr>)"
  by (simp add: cl_wr_def write_line_def line_bytes_eq)

lemma cl_wr_blob:
  "length b \<le> MAX_BLOB \<Longrightarrow> cl_wr (write_blob b) c = (Inr (), c\<lparr>cl_out := cl_out c @ blob_bytes b\<rparr>)"
  by (simp add: cl_wr_def write_blob_ok blob_bytes_eq)

lemma expect_status_line:
  assumes "line_fits l" "cl_in c = line_bytes l @ rest"
  shows "expect_status pre c = (if starts_with l pre then Inr () else Inl (status_error l), c\<lparr>cl_in := rest\<rparr>)"
  using cl_rd_line[OF assms] by (simp add: expect_status_def bind_s_ok lift_r_def)

text \<open>What a step does to the client whatever the peer sends.\<close>

lemma cl_rd_any: "cl_rd f c = (r, c') \<Longrightarrow> \<exists>i. c' = c\<lparr>cl_in := i\<rparr>"
  by (auto simp: cl_rd_def split: prod.splits sum.splits)

lemma expect_status_any: "expect_status pre c = (r, c') \<Longrightarrow> \<exists>i. c' = c\<lparr>cl_in := i\<rparr>"
  unfolding expect_status_def by (erule bind_s_cases) (use cl_rd_any in \<open>fastforce simp: lift_r_def\<close>)+

lemma cl_wr_line_any:
  assumes "cl_wr (write_line l) c = (r, c')"
  shows "if MAX_LINE < length l then r = Inl (ClFraming (LineTooLong MAX_LINE)) \<and> c' = c
    else r = Inr () \<and> c' = c\<lparr>cl_out := cl_out c @ line_bytes l\<rparr>"
  using assms by (auto simp: cl_wr_def write_line_def line_bytes_eq)

lemma cl_wr_blob_any:
  assumes "cl_wr (write_blob b) c = (r, c')"
  shows "if MAX_BLOB < length b then (\<exists>e. r = Inl e) \<and> c' = c
    else r = Inr () \<and> c' = c\<lparr>cl_out := cl_out c @ blob_bytes b\<rparr>"
  using assms cl_wr_blob[of b c] by (auto simp: cl_wr_def write_blob_def)

text \<open>What an operation adds to the bytes written.\<close>

definition emits :: "client \<Rightarrow> client \<Rightarrow> bytes \<Rightarrow> bool" where
  "emits c c' q \<longleftrightarrow> cl_out c' = cl_out c @ q \<and> cl_sender_domain c' = cl_sender_domain c \<and>
     cl_receiver_domain c' = cl_receiver_domain c"

lemma emits_trans: "emits a b p \<Longrightarrow> emits b c q \<Longrightarrow> emits a c (p @ q)"
  by (simp add: emits_def)

lemma emits_simps [simp]:
  "emits c c []" "emits c (c\<lparr>cl_in := i\<rparr>) []" "emits c (c\<lparr>cl_out := cl_out c @ q\<rparr>) q"
  "emits c (c'\<lparr>cl_state := t\<rparr>) q = emits c c' q" "emits c (c'\<lparr>cl_addr_user := u\<rparr>) q = emits c c' q"
  "emits c (c'\<lparr>cl_in := i\<rparr>) q = emits c c' q"
  by (simp_all add: emits_def)

text \<open>The shape of every exchange: one line, a status, and a continuation that writes nothing more.\<close>

lemma exchange_emits:
  assumes "bind_s (cl_wr (write_line l)) (\<lambda>_. bind_s (expect_status pre) (\<lambda>_. g)) c = (r, c')"
    and g: "\<And>i c1 r c'. emits c c1 (line_bytes l) \<Longrightarrow> g c1 = (r, c') \<Longrightarrow>
      emits c c' (line_bytes l) \<and> (is_ok r \<longrightarrow> Q)"
  shows "\<exists>q. (q = [] \<or> q = line_bytes l) \<and> emits c c' q \<and> (is_ok r \<longrightarrow> q = line_bytes l \<and> Q)"
  using assms(1)
proof (rule bind_s_cases)
  fix e assume "cl_wr (write_line l) c = (Inl e, c')" "r = Inl e"
  then show ?thesis using cl_wr_line_any[of l c] by (auto simp: is_ok_def split: if_splits)
next
  fix a c1 assume w: "cl_wr (write_line l) c = (Inr a, c1)"
    and k: "bind_s (expect_status pre) (\<lambda>_. g) c1 = (r, c')"
  have e1: "emits c c1 (line_bytes l)" using cl_wr_line_any[OF w] by (auto split: if_splits)
  from k show ?thesis
  proof (rule bind_s_cases)
    fix e assume "expect_status pre c1 = (Inl e, c')" "r = Inl e"
    then show ?thesis using expect_status_any e1 by (fastforce simp: is_ok_def)
  next
    fix a c2 assume "expect_status pre c1 = (Inr a, c2)" and g2: "g c2 = (r, c')"
    then have "emits c c2 (line_bytes l)" using expect_status_any e1 by fastforce
    with g g2 show ?thesis by blast
  qed
qed

text \<open>A continuation that reads a blob and checks it.\<close>

lemma checked_blob_emits:
  assumes "emits c c1 q" "bind_s (cl_rd read_blob) (\<lambda>b. bind_s (lift_r (check b)) h) c1 = (r, c')"
    and "\<And>a c2 r' c3. h a c2 = (r', c3) \<Longrightarrow> emits c2 c3 []"
  shows "emits c c' q \<and> (is_ok r \<longrightarrow> (\<exists>b a. check b = Inr a))"
  using assms(2)
proof (rule bind_s_cases)
  fix e assume "cl_rd read_blob c1 = (Inl e, c')" "r = Inl e"
  then show ?thesis using assms(1) cl_rd_any by (fastforce simp: is_ok_def)
next
  fix b c2 assume rd: "cl_rd read_blob c1 = (Inr b, c2)" and k: "bind_s (lift_r (check b)) h c2 = (r, c')"
  have e2: "emits c c2 q" using cl_rd_any[OF rd] assms(1) by auto
  show ?thesis
  proof (cases "check b")
    case (Inl e)
    with k e2 show ?thesis by (auto simp: is_ok_def)
  next
    case (Inr a)
    with k have "h a c2 = (r, c')" by simp
    with assms(3) emits_trans[OF e2, of c' "[]"] Inr show ?thesis by auto
  qed
qed

subsection \<open>What each operation writes\<close>

definition hello_line :: "client \<Rightarrow> rstr" where
  "hello_line c = ''HELLO '' @ cl_sender_domain c"

definition auth_line :: "ext \<Rightarrow> bytes \<Rightarrow> int \<Rightarrow> client \<Rightarrow> rstr" where
  "auth_line E rnd issued c =
     ''AUTH '' @ b64_encode E (to_wire (challenge_issue (cl_sender_domain c) (cl_receiver_domain c) rnd issued))"

definition addr_line :: "rstr \<Rightarrow> rstr" where
  "addr_line user = ''ADDR ephemeral '' @ user"

definition invoice_line :: "rstr \<Rightarrow> rstr \<Rightarrow> payload \<Rightarrow> rstr" where
  "invoice_line sender mid p = ''INVOICE '' @ sender @ '' '' @ mid @ '' '' @ payload_str p"

lemmas flow_lines = hello_line_def auth_line_def addr_line_def invoice_line_def

text \<open>What a successful AUTH and ADDR of the client rest on.\<close>

definition peer_signed_challenge :: "ext \<Rightarrow> bytes \<Rightarrow> int \<Rightarrow> bool" where
  "peer_signed_challenge E pub now \<longleftrightarrow>
     (\<exists>ch sig. verify E \<lparr>resp_challenge = ch, resp_signature = sig\<rparr> pub MAX_CHALLENGE_AGE now = Inr ())"

definition peer_signed_address :: "ext \<Rightarrow> bytes \<Rightarrow> rstr \<Rightarrow> bool" where
  "peer_signed_address E pub receiver \<longleftrightarrow> (\<exists>att. att_verify E att pub receiver = Inr ())"

lemma case_unit_Inr_iff [simp]:
  "(case r of Inl e \<Rightarrow> Inl (f e) | Inr (_ :: unit) \<Rightarrow> Inr ()) = (Inr a :: 'e + unit) \<longleftrightarrow> r = Inr ()"
  by (cases r) auto

lemma auth_reply_signed: "auth_reply E pub now b = Inr a \<Longrightarrow> peer_signed_challenge E pub now"
  by (auto simp: auth_reply_def peer_signed_challenge_def bind_r_Inr_iff split: prod.splits)

lemma addr_reply_signed: "addr_reply E J pub d b = Inr a \<Longrightarrow> peer_signed_address E pub d"
  by (auto simp: addr_reply_def peer_signed_address_def split: sum.splits)

lemma client_hello_emits:
  assumes "client_hello c = (r, c')"
  shows "\<exists>q. (q = [] \<or> q = line_bytes (hello_line c)) \<and> emits c c' q \<and>
    (is_ok r \<longrightarrow> q = line_bytes (hello_line c) \<and> True)"
proof (cases "cl_state c = Connected")
  case True
  show ?thesis
    by (rule exchange_emits) (use assms True in \<open>auto simp: client_hello_def hello_line_def\<close>)
qed (use assms in \<open>auto simp: client_hello_def is_ok_def\<close>)

lemma client_authenticate_emits:
  assumes "client_authenticate E rnd issued now pub c = (r, c')"
  shows "\<exists>q. (q = [] \<or> q = line_bytes (auth_line E rnd issued c)) \<and> emits c c' q \<and>
    (is_ok r \<longrightarrow> q = line_bytes (auth_line E rnd issued c) \<and> peer_signed_challenge E pub now)"
proof (cases "cl_state c = ClAwaitingAuth")
  case True
  show ?thesis
  proof (rule exchange_emits)
    show "bind_s (cl_wr (write_line (auth_line E rnd issued c))) (\<lambda>_. bind_s (expect_status ''250 '') (\<lambda>_.
      bind_s (cl_rd read_blob) (\<lambda>b. bind_s (lift_r (auth_reply E pub now b))
        (\<lambda>_ c. (Inr (), c\<lparr>cl_state := ClAuthenticated\<rparr>))))) c = (r, c')"
      using assms True by (simp add: client_authenticate_def auth_line_def Let_def)
  qed (drule (1) checked_blob_emits, use auth_reply_signed in auto)
qed (use assms in \<open>auto simp: client_authenticate_def is_ok_def\<close>)

lemma client_request_address_emits:
  assumes "client_request_address E J user Ephemeral pub c = (r, c')"
  shows "\<exists>q. (q = [] \<or> q = line_bytes (addr_line user)) \<and> emits c c' q \<and>
    (is_ok r \<longrightarrow> q = line_bytes (addr_line user) \<and> peer_signed_address E pub (cl_receiver_domain c))"
proof (cases "cl_state c = ClAuthenticated")
  case True
  show ?thesis
  proof (rule exchange_emits)
    show "bind_s (cl_wr (write_line (addr_line user))) (\<lambda>_. bind_s (expect_status ''250 '') (\<lambda>_.
      bind_s (cl_rd read_blob) (\<lambda>b. bind_s (lift_r (addr_reply E J pub (cl_receiver_domain c) b))
        (\<lambda>att c. (Inr att, c\<lparr>cl_addr_user := Some user, cl_state := Addressed\<rparr>))))) c = (r, c')"
      using assms True by (simp add: client_request_address_def addr_line_def Let_def)
  qed (drule (1) checked_blob_emits, use addr_reply_signed in auto)
qed (use assms in \<open>auto simp: client_request_address_def is_ok_def\<close>)

lemma client_send_invoice_emits:
  assumes "client_send_invoice sender mid p body c = (r, c')"
  shows "\<exists>q. emits c c' q \<and> (is_ok r \<longrightarrow> q = line_bytes (invoice_line sender mid p) @ blob_bytes body)"
proof (cases "cl_state c = Addressed")
  case True
  with assms have "bind_s (cl_wr (write_line (invoice_line sender mid p))) (\<lambda>_.
      bind_s (cl_wr (write_blob body)) (\<lambda>_. expect_status ''250 '')) c = (r, c')"
    by (simp add: client_send_invoice_def invoice_line_def)
  then show ?thesis
  proof (rule bind_s_cases)
    fix e assume "cl_wr (write_line (invoice_line sender mid p)) c = (Inl e, c')" "r = Inl e"
    then show ?thesis using cl_wr_line_any[of "invoice_line sender mid p" c] emits_simps(1)[of c]
      by (metis Inl_Inr_False is_ok_def sum.simps(5))
  next
    fix u c1 assume w: "cl_wr (write_line (invoice_line sender mid p)) c = (Inr u, c1)"
      and k: "bind_s (cl_wr (write_blob body)) (\<lambda>_. expect_status ''250 '') c1 = (r, c')"
    have e1: "emits c c1 (line_bytes (invoice_line sender mid p))"
      using cl_wr_line_any[OF w] by (auto split: if_splits)
    from k show ?thesis
    proof (rule bind_s_cases)
      fix e assume "cl_wr (write_blob body) c1 = (Inl e, c')" "r = Inl e"
      with e1 show ?thesis using cl_wr_blob_any[of body c1] by (auto simp: is_ok_def split: if_splits)
    next
      fix u c2 assume w2: "cl_wr (write_blob body) c1 = (Inr u, c2)" and s: "expect_status ''250 '' c2 = (r, c')"
      have "emits c1 c2 (blob_bytes body)" using cl_wr_blob_any[OF w2] by (auto split: if_splits)
      from emits_trans[OF e1 this] expect_status_any[OF s] show ?thesis by fastforce
    qed
  qed
qed (use assms in \<open>auto simp: client_send_invoice_def is_ok_def intro: exI[of _ "[]"]\<close>)

lemma client_quit_emits: "emits c (snd (client_quit c)) (line_bytes ''QUIT'')"
proof -
  have "client_quit c = expect_status ''221 '' (c\<lparr>cl_out := cl_out c @ line_bytes ''QUIT''\<rparr>)"
    unfolding client_quit_def by (rule bind_s_ok, rule cl_wr_line) (simp add: MAX_LINE_def)
  then obtain i where "snd (client_quit c) = (c\<lparr>cl_out := cl_out c @ line_bytes ''QUIT''\<rparr>)\<lparr>cl_in := i\<rparr>"
    using expect_status_any by (metis prod.collapse)
  then show ?thesis by simp
qed

text \<open>Composing operations: the flow stops with what was written so far, or goes on.\<close>

lemma bind_emits:
  assumes "bind_s f g c = (r, c')" "emits c0 c q0"
    and "\<And>r c'. f c = (r, c') \<Longrightarrow> \<exists>q. (q = [] \<or> q = L) \<and> emits c c' q \<and> (is_ok r \<longrightarrow> q = L \<and> P)"
  obtains "\<not> is_ok r" "emits c0 c' q0 \<or> emits c0 c' (q0 @ L)"
  | a c1 where "emits c0 c1 (q0 @ L)" "P" "g a c1 = (r, c')"
proof -
  from assms(1) show thesis
  proof (rule bind_s_cases)
    fix e assume "f c = (Inl e, c')" "r = Inl e"
    with assms(2) assms(3)[of "Inl e" c'] that(1) show thesis
      using emits_trans[of c0 c q0 c' "[]"] emits_trans[of c0 c q0 c' L] by (auto simp: is_ok_def)
  next
    fix a c1 assume "f c = (Inr a, c1)" "g a c1 = (r, c')"
    with assms(2) assms(3)[of "Inr a" c1] that(2) show thesis
      using emits_trans[of c0 c q0 c1] by (auto simp: is_ok_def)
  qed
qed

text \<open>The whole flow from a fresh client.\<close>

lemma send_invoice_over_emits:
  assumes "send_invoice_over E J rnd issued now sender user pub mid p body c = (r, c')"
  defines "H \<equiv> line_bytes (hello_line c)" and "A \<equiv> line_bytes (auth_line E rnd issued c)"
    and "R \<equiv> line_bytes (addr_line user)"
  shows "(\<exists>q \<in> {[], H, H @ A, (H @ A) @ R}. \<not> is_ok r \<and> emits c c' q) \<or>
    peer_signed_challenge E pub now \<and> peer_signed_address E pub (cl_receiver_domain c) \<and>
    (is_ok r \<longrightarrow> emits c c' (((H @ A) @ R) @ (line_bytes (invoice_line sender mid p) @ blob_bytes body) @ line_bytes ''QUIT''))"
    (is "?stop \<or> ?go")
  using assms(1) emits_simps(1)[of c] client_hello_emits[of c] unfolding send_invoice_over_def H_def[symmetric]
proof (rule bind_emits)
  fix u c1 assume e1: "emits c c1 ([] @ H)"
    and k1: "bind_s (client_authenticate E rnd issued now pub) (\<lambda>_.
        bind_s (client_request_address E J user Ephemeral pub) (\<lambda>_.
        bind_s (client_send_invoice sender mid p body) (\<lambda>_ c. (Inr (), snd (client_quit c))))) c1 = (r, c')"
  from e1 have A: "line_bytes (auth_line E rnd issued c1) = A" by (simp add: A_def auth_line_def emits_def)
  from k1 e1 client_authenticate_emits[of E rnd issued now pub c1, unfolded A] show ?thesis
  proof (rule bind_emits)
    fix u c2 assume e2: "emits c c2 (([] @ H) @ A)" and sc: "peer_signed_challenge E pub now"
      and k2: "bind_s (client_request_address E J user Ephemeral pub) (\<lambda>_.
          bind_s (client_send_invoice sender mid p body) (\<lambda>_ c. (Inr (), snd (client_quit c)))) c2 = (r, c')"
    from k2 e2 client_request_address_emits[of E J user pub c2, folded R_def] show ?thesis
    proof (rule bind_emits)
      fix att c3 assume e3: "emits c c3 ((([] @ H) @ A) @ R)" and sa: "peer_signed_address E pub (cl_receiver_domain c2)"
        and k3: "bind_s (client_send_invoice sender mid p body) (\<lambda>_ c. (Inr (), snd (client_quit c))) c3 = (r, c')"
      have sa': "peer_signed_address E pub (cl_receiver_domain c)" using sa e2 by (simp add: emits_def)
      from k3 have ?go
      proof (rule bind_s_cases)
        fix u c4 assume i: "client_send_invoice sender mid p body c3 = (Inr u, c4)"
          and "(Inr (), snd (client_quit c4)) = (r, c')"
        with client_send_invoice_emits[OF i] client_quit_emits[of c4] e3 sc sa' show ?go
          by (auto simp: is_ok_def emits_def)
      qed (use sc sa' in \<open>auto simp: is_ok_def\<close>)
      then show ?thesis ..
    qed auto
  qed auto
qed auto

lemma client_connect_fresh:
  assumes "client_connect inp d = Inr c"
  shows "cl_out c = []" "cl_sender_domain c = d" "cl_state c = Connected" "cl_addr_user c = None"
  using assms cl_rd_any
  by (fastforce simp: client_connect_def split: prod.splits sum.splits option.splits if_splits)+

subsection \<open>The flow against given replies\<close>

lemma client_hello_ok:
  assumes "cl_state c = Connected" "cl_in c = line_bytes l @ rest" "line_fits l" "starts_with l ''250 ''"
    and "length (hello_line c) \<le> MAX_LINE"
  shows "client_hello c = (Inr (), c\<lparr>cl_out := cl_out c @ line_bytes (hello_line c), cl_in := rest, cl_state := ClAwaitingAuth\<rparr>)"
proof -
  let ?c = "c\<lparr>cl_out := cl_out c @ line_bytes (hello_line c)\<rparr>"
  have "cl_wr (write_line (hello_line c)) c = (Inr (), ?c)" using assms(5) by (rule cl_wr_line)
  moreover have "expect_status ''250 '' ?c = (Inr (), ?c\<lparr>cl_in := rest\<rparr>)"
    using expect_status_line[of l ?c rest] assms(2-4) by simp
  ultimately show ?thesis using assms(1) by (simp add: client_hello_def hello_line_def bind_s_ok)
qed

lemma client_authenticate_ok:
  assumes "cl_state c = ClAwaitingAuth" "cl_in c = line_bytes l @ blob_bytes b @ rest" "line_fits l"
    and "starts_with l ''250 ''" "length b \<le> MAX_BLOB" "auth_reply E pub now b = Inr ()"
    and "length (auth_line E rnd issued c) \<le> MAX_LINE"
  shows "client_authenticate E rnd issued now pub c =
    (Inr (), c\<lparr>cl_out := cl_out c @ line_bytes (auth_line E rnd issued c), cl_in := rest, cl_state := ClAuthenticated\<rparr>)"
proof -
  let ?c = "c\<lparr>cl_out := cl_out c @ line_bytes (auth_line E rnd issued c)\<rparr>"
  let ?c2 = "?c\<lparr>cl_in := blob_bytes b @ rest\<rparr>"
  have "cl_wr (write_line (auth_line E rnd issued c)) c = (Inr (), ?c)" using assms(7) by (rule cl_wr_line)
  moreover have "expect_status ''250 '' ?c = (Inr (), ?c2)"
    using expect_status_line[of l ?c "blob_bytes b @ rest"] assms(2-4) by simp
  moreover have "cl_rd read_blob ?c2 = (Inr b, ?c2\<lparr>cl_in := rest\<rparr>)" using assms(5) by (rule cl_rd_blob) simp
  ultimately show ?thesis using assms(1,6) by (simp add: client_authenticate_def auth_line_def Let_def bind_s_ok)
qed

lemma client_request_address_ok:
  assumes "cl_state c = ClAuthenticated" "cl_in c = line_bytes l @ blob_bytes b @ rest" "line_fits l"
    and "starts_with l ''250 ''" "length b \<le> MAX_BLOB" "addr_reply E J pub (cl_receiver_domain c) b = Inr att"
    and "length (addr_line user) \<le> MAX_LINE"
  shows "client_request_address E J user Ephemeral pub c =
    (Inr att, c\<lparr>cl_out := cl_out c @ line_bytes (addr_line user), cl_in := rest, cl_addr_user := Some user, cl_state := Addressed\<rparr>)"
proof -
  let ?c = "c\<lparr>cl_out := cl_out c @ line_bytes (addr_line user)\<rparr>"
  let ?c2 = "?c\<lparr>cl_in := blob_bytes b @ rest\<rparr>"
  have "cl_wr (write_line (addr_line user)) c = (Inr (), ?c)" using assms(7) by (rule cl_wr_line)
  moreover have "expect_status ''250 '' ?c = (Inr (), ?c2)"
    using expect_status_line[of l ?c "blob_bytes b @ rest"] assms(2-4) by simp
  moreover have "cl_rd read_blob ?c2 = (Inr b, ?c2\<lparr>cl_in := rest\<rparr>)" using assms(5) by (rule cl_rd_blob) simp
  ultimately show ?thesis using assms(1,6) by (simp add: client_request_address_def addr_line_def Let_def bind_s_ok)
qed

lemma client_send_invoice_reply:
  assumes "cl_state c = Addressed" "cl_in c = line_bytes l @ rest" "line_fits l"
    and "length (invoice_line sender mid p) \<le> MAX_LINE" "length body \<le> MAX_BLOB"
  shows "client_send_invoice sender mid p body c =
    (if starts_with l ''250 '' then Inr () else Inl (status_error l),
     c\<lparr>cl_out := cl_out c @ line_bytes (invoice_line sender mid p) @ blob_bytes body, cl_in := rest\<rparr>)"
proof -
  let ?c = "c\<lparr>cl_out := cl_out c @ line_bytes (invoice_line sender mid p)\<rparr>"
  let ?c2 = "c\<lparr>cl_out := cl_out c @ line_bytes (invoice_line sender mid p) @ blob_bytes body\<rparr>"
  have "cl_wr (write_line (invoice_line sender mid p)) c = (Inr (), ?c)" using assms(4) by (rule cl_wr_line)
  moreover have "cl_wr (write_blob body) ?c = (Inr (), ?c2)" using cl_wr_blob[OF assms(5), of ?c] by simp
  moreover have "expect_status ''250 '' ?c2 = (if starts_with l ''250 '' then Inr () else Inl (status_error l), ?c2\<lparr>cl_in := rest\<rparr>)"
    using assms(2,3) by (intro expect_status_line) simp_all
  ultimately show ?thesis using assms(1) by (simp add: client_send_invoice_def invoice_line_def bind_s_ok)
qed

text \<open>The lines and the body the client will write fit their frames.\<close>

definition flow_fits :: "ext \<Rightarrow> bytes \<Rightarrow> int \<Rightarrow> rstr \<Rightarrow> rstr \<Rightarrow> rstr \<Rightarrow> payload \<Rightarrow> bytes \<Rightarrow> client \<Rightarrow> bool" where
  "flow_fits E rnd issued sender user mid p body c \<longleftrightarrow>
     length (hello_line c) \<le> MAX_LINE \<and> length (auth_line E rnd issued c) \<le> MAX_LINE \<and>
     length (addr_line user) \<le> MAX_LINE \<and> length (invoice_line sender mid p) \<le> MAX_LINE \<and> length body \<le> MAX_BLOB"

text \<open>Four replies of a peer: to HELLO, AUTH, ADDR and INVOICE.\<close>

definition replies_bytes :: "rstr \<Rightarrow> rstr \<Rightarrow> bytes \<Rightarrow> rstr \<Rightarrow> bytes \<Rightarrow> rstr \<Rightarrow> bytes" where
  "replies_bytes l1 l2 b2 l3 b3 l4 =
     line_bytes l1 @ line_bytes l2 @ blob_bytes b2 @ line_bytes l3 @ blob_bytes b3 @ line_bytes l4"

definition replies_fit :: "rstr \<Rightarrow> rstr \<Rightarrow> bytes \<Rightarrow> rstr \<Rightarrow> bytes \<Rightarrow> rstr \<Rightarrow> bool" where
  "replies_fit l1 l2 b2 l3 b3 l4 \<longleftrightarrow>
     line_fits l1 \<and> line_fits l2 \<and> line_fits l3 \<and> line_fits l4 \<and> length b2 \<le> MAX_BLOB \<and> length b3 \<le> MAX_BLOB \<and>
     starts_with l1 ''250 '' \<and> starts_with l2 ''250 '' \<and> starts_with l3 ''250 ''"

lemma send_invoice_over_replies:
  assumes "cl_state c = Connected" "cl_in c = replies_bytes l1 l2 b2 l3 b3 l4 @ rest"
    and "replies_fit l1 l2 b2 l3 b3 l4" "flow_fits E rnd issued sender user mid p body c"
    and "auth_reply E pub now b2 = Inr ()" "addr_reply E J pub (cl_receiver_domain c) b3 = Inr att"
    and "send_invoice_over E J rnd issued now sender user pub mid p body c = (r, c')"
  shows "r = (if starts_with l4 ''250 '' then Inr () else Inl (status_error l4))"
    and "cl_out c' = cl_out c @ line_bytes (hello_line c) @ line_bytes (auth_line E rnd issued c) @
      line_bytes (addr_line user) @ line_bytes (invoice_line sender mid p) @ blob_bytes body @
      (if starts_with l4 ''250 '' then line_bytes ''QUIT'' else [])"
proof -
  note fit = assms(3)[unfolded replies_fit_def] assms(4)[unfolded flow_fits_def]
  define i1 where "i1 = line_bytes l2 @ blob_bytes b2 @ line_bytes l3 @ blob_bytes b3 @ line_bytes l4 @ rest"
  define i2 where "i2 = line_bytes l3 @ blob_bytes b3 @ line_bytes l4 @ rest"
  define c1 where "c1 = c\<lparr>cl_out := cl_out c @ line_bytes (hello_line c), cl_in := i1, cl_state := ClAwaitingAuth\<rparr>"
  define c2 where "c2 = c1\<lparr>cl_out := cl_out c1 @ line_bytes (auth_line E rnd issued c1), cl_in := i2, cl_state := ClAuthenticated\<rparr>"
  define c3 where "c3 = c2\<lparr>cl_out := cl_out c2 @ line_bytes (addr_line user), cl_in := line_bytes l4 @ rest,
      cl_addr_user := Some user, cl_state := Addressed\<rparr>"
  define c4 where "c4 = c3\<lparr>cl_out := cl_out c3 @ line_bytes (invoice_line sender mid p) @ blob_bytes body, cl_in := rest\<rparr>"
  have a1: "auth_line E rnd issued c1 = auth_line E rnd issued c" by (simp add: c1_def auth_line_def)
  have "client_hello c = (Inr (), c1)"
    unfolding c1_def by (rule client_hello_ok[where l = l1]) (use assms(1,2) fit in \<open>simp_all add: replies_bytes_def i1_def\<close>)
  moreover have "client_authenticate E rnd issued now pub c1 = (Inr (), c2)"
    unfolding c2_def by (rule client_authenticate_ok[where l = l2 and b = b2]) (use assms(5) fit a1 in \<open>simp_all add: c1_def i1_def i2_def\<close>)
  moreover have "client_request_address E J user Ephemeral pub c2 = (Inr att, c3)"
    unfolding c3_def by (rule client_request_address_ok[where l = l3 and b = b3]) (use assms(6) fit in \<open>simp_all add: c2_def c1_def i2_def\<close>)
  moreover have "client_send_invoice sender mid p body c3 =
      (if starts_with l4 ''250 '' then Inr () else Inl (status_error l4), c4)"
    unfolding c4_def by (rule client_send_invoice_reply) (use fit in \<open>simp_all add: c3_def\<close>)
  ultimately have "(r, c') = (if starts_with l4 ''250 '' then (Inr (), snd (client_quit c4)) else (Inl (status_error l4), c4))"
    using assms(7) by (auto simp: send_invoice_over_def bind_s_ok bind_s_err)
  moreover have "cl_out (snd (client_quit c4)) = cl_out c4 @ line_bytes ''QUIT''"
    using client_quit_emits[of c4] by (simp add: emits_def)
  moreover have "cl_out c4 = cl_out c @ line_bytes (hello_line c) @ line_bytes (auth_line E rnd issued c) @
      line_bytes (addr_line user) @ line_bytes (invoice_line sender mid p) @ blob_bytes body"
    by (simp add: c4_def c3_def c2_def c1_def a1[unfolded c1_def])
  ultimately show "r = (if starts_with l4 ''250 '' then Inr () else Inl (status_error l4))"
    and "cl_out c' = cl_out c @ line_bytes (hello_line c) @ line_bytes (auth_line E rnd issued c) @
      line_bytes (addr_line user) @ line_bytes (invoice_line sender mid p) @ blob_bytes body @
      (if starts_with l4 ''250 '' then line_bytes ''QUIT'' else [])"
    by (simp_all split: if_splits)
qed

lemma client_connect_greeting:
  assumes "line_fits (''ZSMTP 1.0 '' @ d)" "d \<noteq> []"
  shows "client_connect (line_bytes (''ZSMTP 1.0 '' @ d) @ rest) sd =
    Inr \<lparr>cl_in = rest, cl_out = [], cl_state = Connected, cl_sender_domain = sd, cl_receiver_domain = d, cl_addr_user = None\<rparr>"
proof -
  have "cl_rd read_line \<lparr>cl_in = line_bytes (''ZSMTP 1.0 '' @ d) @ rest, cl_out = [], cl_state = Connected,
      cl_sender_domain = sd, cl_receiver_domain = [], cl_addr_user = None\<rparr> =
    (Inr (''ZSMTP 1.0 '' @ d), \<lparr>cl_in = rest, cl_out = [], cl_state = Connected,
      cl_sender_domain = sd, cl_receiver_domain = [], cl_addr_user = None\<rparr>)"
    by (subst cl_rd_line[OF assms(1)]) simp_all
  then show ?thesis using assms(2) by (simp add: client_connect_def strip_prefix_append del: append_Cons)
qed

end
