(* ===== verification/Exchange.thy ===== *)
theory Exchange
  imports Client
begin

text \<open>
  Client and server together. The bytes one side writes are the bytes the other side reads: an
  exchange is a pair of byte strings such that each is what one side writes when it reads the
  other. The theorems here say what the invoice flow of the client does against the daemon's own
  server, and what it does against a peer that only repeats recorded replies.
\<close>

subsection \<open>Replies the client accepts\<close>

lemma auth_reply_wire:
  assumes "hex_ok E" "challenge_ok ch" "bar_free ch" "utf8_valid (sender_domain ch)" "utf8_valid (receiver_domain ch)"
  shows "auth_reply E pub now (to_wire ch @ BAR # hex sig) =
    (case verify E \<lparr>resp_challenge = ch, resp_signature = sig\<rparr> pub MAX_CHALLENGE_AGE now of
       Inl e \<Rightarrow> Inl (ClAuth (show_handshake_error e)) | Inr _ \<Rightarrow> Inr ())"
proof -
  have "BAR \<notin> set (hex sig)" using hex_printable by blast
  moreover have "utf8_valid (to_wire ch @ BAR # hex sig)"
  proof -
    have tail: "utf8_valid (BAR # hex (nonce ch) @ BAR # show_int (issued_at ch) @ BAR # hex sig)"
      by (rule ascii_utf8_valid) (simp add: BAR_def)
    have b: "utf8_valid (BAR # x) \<longleftrightarrow> utf8_valid x" for x
      using utf8_valid_append[of "[BAR]" x] by (simp add: BAR_def)
    have "to_wire ch @ BAR # hex sig = sender_domain ch @ BAR # receiver_domain ch @
        BAR # hex (nonce ch) @ BAR # show_int (issued_at ch) @ BAR # hex sig"
      by (simp add: to_wire_def BAR_def)
    then show ?thesis using assms(4,5) tail by (simp only: utf8_valid_append b)
  qed
  moreover have "hex_decode E (hex sig) = Some sig" using hex_ok_decode[OF assms(1)] by (simp add: hex_def)
  ultimately show ?thesis
    using from_wire_to_wire[OF assms(2,3)] by (simp add: auth_reply_def)
qed

lemma addr_reply_json:
  assumes "json_ok J" "att_utf8 att" "att_verify E att pub d = Inr ()"
  shows "addr_reply E J pub d (att_to_json J att) = Inr att"
  using assms by (simp add: addr_reply_def att_to_json_def att_from_json_def json_ok_def)

lemma show_codes:
  "show_nat 250 = ''250''" "show_nat 221 = ''221''" "show_nat 550 = ''550''" "show_nat 450 = ''450''"
  by code_simp+

lemma render_codes [simp]:
  "render (mk_status OK m) = ''250 '' @ m" "render (mk_status OK_QUEUED m) = ''250 '' @ m"
  "render (mk_status (StatusCode 221) m) = ''221 '' @ m"
  "render (mk_status PERM_REJECT m) = ''550 '' @ m" "render (mk_status TRY_LATER m) = ''450 '' @ m"
  by (simp_all add: render_def show_code_def status_code_defs show_codes)

lemma status_error_token:
  assumes "token t" "ascii r" "parse_uint u16_max t = Some n"
  shows "status_error (t @ CHR '' '' # r) =
    (if is_transient (StatusCode (of_nat n)) then ClRetryLater (t @ CHR '' '' # r) else ClRejected (t @ CHR '' '' # r))"
proof -
  have "split_whitespace (t @ CHR '' '' # r) = t # split_whitespace r"
    using split_whitespace_cons[OF assms(1,2)] by simp
  with assms(3) show ?thesis by (simp add: status_error_def unwrap_or_def Let_def)
qed

lemma status_error_codes:
  assumes "ascii r"
  shows "status_error (''550 '' @ r) = ClRejected (''550 '' @ r)"
    and "status_error (''450 '' @ r) = ClRetryLater (''450 '' @ r)"
proof -
  have p: "parse_uint u16_max ''550'' = Some 550" "parse_uint u16_max ''450'' = Some 450"
    using parse_uint_show_nat[of 550 u16_max] parse_uint_show_nat[of 450 u16_max] by (simp_all add: show_codes)
  have t: "token ''550''" "token ''450''" using token_show_nat[of 550] token_show_nat[of 450] by (simp_all only: show_codes)
  have "\<not> is_transient (StatusCode (of_nat 550))" "is_transient (StatusCode (of_nat 450))"
    by (simp_all add: is_transient_def)
  then show "status_error (''550 '' @ r) = ClRejected (''550 '' @ r)"
    and "status_error (''450 '' @ r) = ClRetryLater (''450 '' @ r)"
    using status_error_token[OF t(1) assms p(1)] status_error_token[OF t(2) assms p(2)] by simp_all
qed

subsection \<open>The invoice flow at the server\<close>

text \<open>Names as hosts and users use them on the wire: one printable word without bars.\<close>

definition wire_name :: "rstr \<Rightarrow> bool" where
  "wire_name s \<longleftrightarrow> token s \<and> BAR \<notin> set s \<and> length s \<le> 255"

text \<open>The commands of the flow; QUIT follows an accepted invoice only.\<close>

definition flow_commands :: "challenge \<Rightarrow> rstr \<Rightarrow> rstr \<Rightarrow> rstr \<Rightarrow> rstr \<Rightarrow> payload \<Rightarrow> bytes \<Rightarrow> bool \<Rightarrow> command list" where
  "flow_commands ch sd user sender mid p body accepted =
     [Hello sd, Auth (to_wire ch), Addr AddrEphemeral user, Invoice sender mid p body] @ (if accepted then [Quit] else [])"

definition outcome_line :: "delivery_outcome \<Rightarrow> rstr" where
  "outcome_line out = (case out of Accepted m \<Rightarrow> ''250 accepted into inbox ('' @ m @ '')''
     | Rejected r \<Rightarrow> ''550 '' @ r | RetryLater r \<Rightarrow> ''450 '' @ r)"

definition is_accepted :: "delivery_outcome \<Rightarrow> bool" where
  "is_accepted out = (case out of Accepted _ \<Rightarrow> True | _ \<Rightarrow> False)"

text \<open>What the client makes of the daemon's answer to the invoice.\<close>

definition client_outcome :: "delivery_outcome \<Rightarrow> (client_error, unit) result" where
  "client_outcome out = (case out of Accepted _ \<Rightarrow> Inr () | Rejected r \<Rightarrow> Inl (ClRejected (''550 '' @ r))
     | RetryLater r \<Rightarrow> Inl (ClRetryLater (''450 '' @ r)))"

lemma outcome_reply_line: "\<exists>st. outcome_reply out = Inr (ReplyStatus st) \<and> render st = outcome_line out"
  by (cases out) (simp_all add: outcome_reply_def outcome_line_def reply_ok_def)

lemma outcome_line_code: "starts_with (outcome_line out) ''250 '' \<longleftrightarrow> is_accepted out"
  by (cases out) (simp_all add: outcome_line_def is_accepted_def starts_with_iff)

lemma outcome_status_error:
  "ascii (outcome_line out) \<Longrightarrow> \<not> is_accepted out \<Longrightarrow> Inl (status_error (outcome_line out)) = client_outcome out"
  using status_error_codes by (cases out) (simp_all add: outcome_line_def is_accepted_def client_outcome_def)

text \<open>The daemon's side: the five replies and the one delivery.\<close>

lemma converse_flow:
  assumes "wire_name sd" "user \<noteq> []" "mid \<noteq> []"
    and ch: "challenge_ok ch" "bar_free ch" "sender_domain ch = sd" "utf8_valid (to_wire ch)"
    and "dir user w" "placeholder_mint rng Ephemeral w = (minted, w1)"
    and "k (sender @ ''@'' @ sd) mid (user @ ''@'' @ d) p body w1 = (out, w2)"
  shows "\<exists>rs s'. converse E J (flow_commands ch sd user sender mid p body (is_accepted out))
      (daemon_session rng d key k dir) w = (rs, s', w2) \<and>
    rs = [ReplyStatus (mk_status OK (''Hello '' @ sd)),
      StatusWithBlob (mk_status OK ''authenticated'') (to_wire ch @ BAR # hex (ed_sign E key (digest E ch))),
      StatusWithBlob (mk_status OK ''address attestation'')
        (att_to_json J (att_sign E d user Ephemeral (ma_address minted) (ma_pubkey minted) key)),
      (case outcome_reply out of Inr r \<Rightarrow> r | Inl _ \<Rightarrow> undefined)] @
      (if is_accepted out then [ReplyStatus (mk_status (StatusCode 221) (d @ '' closing connection''))] else [])"
proof -
  let ?s = "daemon_session rng d key k dir"
  have sd: "sd \<noteq> []" using assms(1) by (simp add: wire_name_def token_nonempty)
  have h1: "handle E J (Hello sd) ?s w = (reply_ok OK (''Hello '' @ sd), ?s\<lparr>state := AwaitingAuth\<rparr>, w)"
    using sd by (simp add: handle_def on_hello_def)
  have h2: "handle E J (Auth (to_wire ch)) (?s\<lparr>state := AwaitingAuth\<rparr>) w =
      (Inr (StatusWithBlob (mk_status OK ''authenticated'') (to_wire ch @ BAR # hex (ed_sign E key (digest E ch)))),
       ?s\<lparr>state := Authenticated, peer_domain := Some sd\<rparr>, w)"
    using from_wire_to_wire[OF ch(1,2)] ch(3,4)
    by (simp add: handle_def on_auth_def Let_def respond_def sess_hex_def hex_def BAR_def)
  have h3: "handle E J (Addr AddrEphemeral user) (?s\<lparr>state := Authenticated, peer_domain := Some sd\<rparr>) w =
      (Inr (StatusWithBlob (mk_status OK ''address attestation'')
        (att_to_json J (att_sign E d user Ephemeral (ma_address minted) (ma_pubkey minted) key))),
       ?s\<lparr>state := Authenticated, peer_domain := Some sd, addr_user := Some user\<rparr>, w1)"
    using assms(2,8,9) by (simp add: handle_def on_addr_def user_known_def attestation_mode_of_def Let_def)
  have h4: "handle E J (Invoice sender mid p body)
      (?s\<lparr>state := Authenticated, peer_domain := Some sd, addr_user := Some user\<rparr>) w1 =
      (outcome_reply out, ?s\<lparr>state := Authenticated, peer_domain := Some sd, addr_user := Some user\<rparr>, w2)"
    using assms(3,10) by (simp add: handle_def on_invoice_def)
  have h5: "handle E J Quit s x = (reply_ok (StatusCode 221) (domain s @ '' closing connection''), s, x)" for s x
    by (simp add: handle_def)
  obtain st where o: "outcome_reply out = Inr (ReplyStatus st)" using outcome_reply_line by blast
  show ?thesis
    by (cases "is_accepted out") (simp_all add: flow_commands_def h1 h2 h3 h4 h5 o reply_of_def reply_ok_def)
qed

lemma wire_name_facts:
  assumes "wire_name s"
  shows "s \<noteq> []" "ascii s" "utf8_valid s" "CHR '' '' \<notin> set s" "LF \<notin> set s" "BAR \<notin> set s" "length s \<le> 255" "token s"
  using assms token_nonempty token_no_space token_no_newline token_ascii ascii_utf8_valid
  by (auto simp: wire_name_def LF_def)

text \<open>A line that starts with a literal and goes on with an ASCII text.\<close>

lemma line_fitsI: "ascii l \<Longrightarrow> LF \<notin> set l \<Longrightarrow> length l + 2 \<le> MAX_LINE \<Longrightarrow> line_fits l"
  by (simp add: line_fits_def line_ok_def)

lemma issued_challenge:
  assumes "wire_name sd" "wire_name d" "length rnd = 16" "0 \<le> issued" "issued \<le> int i64_max"
  defines "ch \<equiv> challenge_issue sd d rnd issued"
  shows "challenge_ok ch" "bar_free ch" "sender_domain ch = sd" "receiver_domain ch = d" "issued_at ch = issued"
    "ascii (to_wire ch)" "length (to_wire ch) \<le> 600"
proof -
  have "length (show_int issued) \<le> 20"
    using show_nat_length[of "nat issued" 20] assms(4,5) by (simp add: show_int_def nat_less_iff)
  then show "challenge_ok ch" "bar_free ch" "sender_domain ch = sd" "receiver_domain ch = d" "issued_at ch = issued"
    "ascii (to_wire ch)" "length (to_wire ch) \<le> 600"
    using assms wire_name_facts[OF assms(1)] wire_name_facts[OF assms(2)]
    by (simp_all add: ch_def challenge_issue_def challenge_ok_def i64_range_def bar_free_def to_wire_def)
qed

lemma minted_utf8:
  assumes "placeholder_mint rng m w = (minted, w1)"
  shows "utf8_valid (ma_address minted)" "utf8_valid (ma_pubkey minted)"
proof -
  obtain b where "ma_address minted = ''taddr-'' @ hex b" "ma_pubkey minted = hex b"
    using assms by (auto simp: placeholder_mint_def mint_pair_def hex_def Let_def split: prod.splits)
  moreover have "ascii (''taddr-'' @ hex b)" by (simp add: byte_def)
  ultimately show "utf8_valid (ma_address minted)" "utf8_valid (ma_pubkey minted)"
    using ascii_utf8_valid ascii_hex by metis+
qed

lemma flow_commands_fit:
  assumes names: "wire_name sd" "wire_name user" "wire_name sender" "wire_name mid" and "b64_ok E"
    and b64: "length (b64_encode E (to_wire ch)) \<le> 4000" and "length body \<le> MAX_BLOB"
  shows "list_all (command_fits E) (flow_commands ch sd user sender mid p body acc)"
proof -
  note w = wire_name_facts
  have e: "ascii (b64_encode E (to_wire ch))" "LF \<notin> set (b64_encode E (to_wire ch))"
    using b64_ok_ascii[OF assms(5)] b64_ok_printable[OF assms(5)] by (fastforce simp: LF_def)+
  have p: "ascii (payload_str p)" "LF \<notin> set (payload_str p)" "length (payload_str p) \<le> 9"
    by (cases p; simp add: payload_str_def LF_def byte_def)+
  have m: "mode_str AddrEphemeral = ''ephemeral''" by (simp add: mode_str_def)
  have "line_fits (''HELLO '' @ sd)" "line_fits (''AUTH '' @ b64_encode E (to_wire ch))"
    "line_fits (''ADDR '' @ ''ephemeral'' @ '' '' @ user)"
    "line_fits (''INVOICE '' @ sender @ '' '' @ mid @ '' '' @ payload_str p)" "line_fits ''QUIT''"
    using w(2,5,7)[OF names(1)] w(2,5,7)[OF names(2)] w(2,5,7)[OF names(3)] w(2,5,7)[OF names(4)] e b64 p
    by (auto intro!: line_fitsI simp: MAX_LINE_def LF_def)
  with w(4)[OF names(1)] w(8)[OF names(3)] w(8)[OF names(4)] assms(7) show ?thesis
    by (auto simp: flow_commands_def command_fits_def without_body_def body_of_def command_line_def encode_line_def m)
qed

text \<open>The bytes of the flow: what the client writes and what the daemon answers.\<close>

lemma flow_commands_bytes:
  fixes c :: client
  assumes "cl_sender_domain c = sd" "ch = challenge_issue sd (cl_receiver_domain c) rnd issued"
  shows "concat (map (command_bytes E) (flow_commands ch sd user sender mid p body acc)) =
    line_bytes (hello_line c) @ line_bytes (auth_line E rnd issued c) @ line_bytes (addr_line user) @
    line_bytes (invoice_line sender mid p) @ blob_bytes body @ (if acc then line_bytes ''QUIT'' else [])"
proof -
  have m: "mode_str AddrEphemeral = ''ephemeral''" by (simp add: mode_str_def)
  have "command_bytes E (Hello sd) = line_bytes (hello_line c)"
    using assms(1) by (simp add: command_bytes_def command_line_def encode_line_def hello_line_def)
  moreover have "command_bytes E (Auth (to_wire ch)) = line_bytes (auth_line E rnd issued c)"
    using assms by (simp add: command_bytes_def command_line_def encode_line_def auth_line_def)
  moreover have "command_bytes E (Addr AddrEphemeral user) = line_bytes (addr_line user)"
    by (simp add: command_bytes_def command_line_def encode_line_def addr_line_def m)
  moreover have "command_bytes E (Invoice sender mid p body) = line_bytes (invoice_line sender mid p) @ blob_bytes body"
    by (simp add: command_bytes_def command_line_def encode_line_def invoice_line_def)
  moreover have "command_bytes E Quit = line_bytes ''QUIT''"
    by (simp add: command_bytes_def command_line_def encode_line_def)
  ultimately show ?thesis by (simp add: flow_commands_def)
qed

text \<open>The assumptions on one exchange: names, sizes and times.\<close>

definition exchange_ok :: "ext \<Rightarrow> rstr \<Rightarrow> rstr \<Rightarrow> rstr \<Rightarrow> rstr \<Rightarrow> rstr \<Rightarrow> bytes \<Rightarrow> int \<Rightarrow> int \<Rightarrow> bytes \<Rightarrow> bool" where
  "exchange_ok E sd d user sender mid rnd issued now body \<longleftrightarrow>
     wire_name sd \<and> wire_name d \<and> wire_name user \<and> wire_name sender \<and> wire_name mid \<and>
     length rnd = 16 \<and> 0 \<le> issued \<and> issued \<le> now \<and> now \<le> issued + 300 \<and> now \<le> int i64_max \<and>
     length (b64_encode E (to_wire (challenge_issue sd d rnd issued))) \<le> 4000 \<and> length body \<le> MAX_BLOB"

lemma issued_challenge_verifies:
  assumes "ed_ok E" "exchange_ok E sd d user sender mid rnd issued now body"
  shows "verify E \<lparr>resp_challenge = challenge_issue sd d rnd issued,
      resp_signature = ed_sign E key (digest E (challenge_issue sd d rnd issued))\<rparr> (ed_public E key) MAX_CHALLENGE_AGE now = Inr ()"
proof -
  have "issued \<le> int i64_max" "wire_name sd" "wire_name d" "length rnd = 16" "0 \<le> issued"
    using assms(2) by (auto simp: exchange_ok_def)
  note ic = issued_challenge[OF this(2-5,1)]
  show ?thesis
    using assms ic(1,3-5) wire_name_facts(1)
    by (subst verify_ok_iff) (auto simp: exchange_ok_def MAX_CHALLENGE_AGE_def challenge_ok_def ed_ok_def)
qed

text \<open>The daemon's replies to HELLO, AUTH, ADDR and INVOICE, as bytes.\<close>

definition daemon_replies :: "ext \<Rightarrow> json_ext \<Rightarrow> bytes \<Rightarrow> rstr \<Rightarrow> challenge \<Rightarrow> attestation \<Rightarrow> delivery_outcome \<Rightarrow> bytes" where
  "daemon_replies E J key sd ch att oc =
     replies_bytes (''250 Hello '' @ sd) ''250 authenticated'' (to_wire ch @ BAR # hex (ed_sign E key (digest E ch)))
       ''250 address attestation'' (att_to_json J att) (outcome_line oc)"

lemma daemon_replies_fit:
  assumes "exchange_ok E sd d user sender mid rnd issued now body" "ed_ok E" "length (att_to_json J att) \<le> MAX_BLOB"
    and "line_fits (outcome_line oc)"
  shows "replies_fit (''250 Hello '' @ sd) ''250 authenticated''
      (to_wire (challenge_issue sd d rnd issued) @ BAR # hex (ed_sign E key (digest E (challenge_issue sd d rnd issued))))
      ''250 address attestation'' (att_to_json J att) (outcome_line oc)"
    and "line_fits (''221 '' @ d @ '' closing connection'')" "line_fits (''ZSMTP 1.0 '' @ d)"
proof -
  have n: "wire_name sd" "wire_name d" "length rnd = 16" "0 \<le> issued" "issued \<le> int i64_max"
    using assms(1) by (auto simp: exchange_ok_def)
  note w = wire_name_facts(2,5,7)
  have "line_fits (''250 Hello '' @ sd)" "line_fits ''250 authenticated''" "line_fits ''250 address attestation''"
    using w[OF n(1)] by (auto intro!: line_fitsI simp: MAX_LINE_def LF_def)
  moreover have "length (to_wire (challenge_issue sd d rnd issued) @
      BAR # hex (ed_sign E key (digest E (challenge_issue sd d rnd issued)))) \<le> MAX_BLOB"
    using issued_challenge(7)[OF n] assms(2) by (simp add: MAX_BLOB_def ed_ok_def)
  ultimately show "replies_fit (''250 Hello '' @ sd) ''250 authenticated''
      (to_wire (challenge_issue sd d rnd issued) @ BAR # hex (ed_sign E key (digest E (challenge_issue sd d rnd issued))))
      ''250 address attestation'' (att_to_json J att) (outcome_line oc)"
    using assms(3,4) by (simp add: replies_fit_def starts_with_iff)
  show "line_fits (''221 '' @ d @ '' closing connection'')" "line_fits (''ZSMTP 1.0 '' @ d)"
    using w[OF n(2)] by (auto intro!: line_fitsI simp: MAX_LINE_def LF_def)
qed

lemma daemon_flow:
  fixes w :: 'w
  assumes ext: "b64_ok E" "ed_ok E" and ok: "exchange_ok E sd d user sender mid rnd issued now body"
    and dir: "dir user w" and mint: "placeholder_mint rng Ephemeral w = (minted, w1)"
    and del: "k (sender @ ''@'' @ sd) mid (user @ ''@'' @ d) p body w1 = (oc, w2)"
    and att: "att = att_sign E d user Ephemeral (ma_address minted) (ma_pubkey minted) key"
    and fit: "length (att_to_json J att) \<le> MAX_BLOB" "line_fits (outcome_line oc)"
    and ch: "ch = challenge_issue sd d rnd issued"
  shows "\<exists>s' rest tail. serve_connection E J rng d key k dir
      (concat (map (command_bytes E) (flow_commands ch sd user sender mid p body (is_accepted oc)))) w =
      (Inr (), \<lparr>cn_session = s', cn_world = w2, cn_in = rest,
        cn_out = line_bytes (''ZSMTP 1.0 '' @ d) @ daemon_replies E J key sd ch att oc @ tail\<rparr>)"
proof -
  have n: "wire_name sd" "wire_name d" "length rnd = 16" "0 \<le> issued" "issued \<le> int i64_max"
    and ne: "user \<noteq> []" "mid \<noteq> []"
    using ok wire_name_facts(1) by (auto simp: exchange_ok_def)
  note ic = issued_challenge[OF n, folded ch]
  obtain st where st: "outcome_reply oc = Inr (ReplyStatus st)" "render st = outcome_line oc"
    using outcome_reply_line by blast
  obtain rs s' where conv: "converse E J (flow_commands ch sd user sender mid p body (is_accepted oc))
      (daemon_session rng d key k dir) w = (rs, s', w2)"
    and rs: "rs = [ReplyStatus (mk_status OK (''Hello '' @ sd)),
      StatusWithBlob (mk_status OK ''authenticated'') (to_wire ch @ BAR # hex (ed_sign E key (digest E ch))),
      StatusWithBlob (mk_status OK ''address attestation'') (att_to_json J att), ReplyStatus st] @
      (if is_accepted oc then [ReplyStatus (mk_status (StatusCode 221) (d @ '' closing connection''))] else [])"
    using converse_flow[OF n(1) ne ic(1-3) ascii_utf8_valid[OF ic(6)], where dir = dir and k = k and w = w and E = E and J = J
        and key = key, OF dir mint del] st(1) att by auto
  note dfit = daemon_replies_fit(1)[OF ok ext(2) fit, of key, folded ch] daemon_replies_fit(2,3)[OF ok ext(2) fit]
  have rfit: "list_all reply_fits rs"
    using dfit fit(1) by (auto simp: rs st reply_fits_def line_fits_def replies_fit_def)
  have cfit: "list_all (command_fits E) (flow_commands ch sd user sender mid p body (is_accepted oc))"
    by (rule flow_commands_fit) (use ok ext in \<open>simp_all add: ch exchange_ok_def\<close>)
  show ?thesis
    using run_converse[OF ext(1) cfit conv rfit] dfit(3)
    by (auto simp: rs st daemon_replies_def replies_bytes_def reply_bytes_def greeting_def line_fits_def)
qed

lemma client_flow:
  assumes ext: "hex_ok E" "ed_ok E" "json_ok J" and ok: "exchange_ok E sd d user sender mid rnd issued now body"
    and att: "att_utf8 att" "att_verify E att (ed_public E key) d = Inr ()" "length (att_to_json J att) \<le> MAX_BLOB"
    and oc: "line_fits (outcome_line oc)" "ascii (outcome_line oc)" and b64: "b64_ok E"
    and ch: "ch = challenge_issue sd d rnd issued"
  shows "\<exists>c c'. client_connect (line_bytes (''ZSMTP 1.0 '' @ d) @ daemon_replies E J key sd ch att oc @ tail) sd = Inr c \<and>
    send_invoice_over E J rnd issued now sender user (ed_public E key) mid p body c = (client_outcome oc, c') \<and>
    cl_out c' = concat (map (command_bytes E) (flow_commands ch sd user sender mid p body (is_accepted oc)))"
proof -
  let ?b = "to_wire ch @ BAR # hex (ed_sign E key (digest E ch))"
  define c where "c = \<lparr>cl_in = daemon_replies E J key sd ch att oc @ tail, cl_out = [], cl_state = Connected,
      cl_sender_domain = sd, cl_receiver_domain = d, cl_addr_user = None\<rparr>"
  have n: "wire_name sd" "wire_name d" "length rnd = 16" "0 \<le> issued" "issued \<le> int i64_max"
    using ok by (auto simp: exchange_ok_def)
  note ic = issued_challenge[OF n, folded ch]
  note dfit = daemon_replies_fit(1)[OF ok ext(2) att(3) oc(1), of key, folded ch]
    daemon_replies_fit(2,3)[OF ok ext(2) att(3) oc(1)]
  have con: "client_connect (line_bytes (''ZSMTP 1.0 '' @ d) @ daemon_replies E J key sd ch att oc @ tail) sd = Inr c"
    using client_connect_greeting[OF dfit(3) wire_name_facts(1)[OF n(2)]] by (simp only: c_def)
  have cfit: "list_all (command_fits E) (flow_commands ch sd user sender mid p body True)"
    by (rule flow_commands_fit) (use ok b64 in \<open>simp_all add: ch exchange_ok_def\<close>)
  have c_sel: "cl_sender_domain c = sd" "cl_receiver_domain c = d" "cl_state c = Connected" "cl_out c = []"
    by (simp_all add: c_def)
  have ff: "flow_fits E rnd issued sender user mid p body c"
    using cfit c_sel by (auto simp: flow_fits_def flow_lines flow_commands_def command_fits_def command_line_def
        encode_line_def line_fits_def body_of_def mode_str_def ch)
  have au: "auth_reply E (ed_public E key) now ?b = Inr ()"
    using issued_challenge_verifies[OF ext(2) ok, of key] auth_reply_wire[OF ext(1) ic(1,2)] ic(3,4)
      wire_name_facts(3)[OF n(1)] wire_name_facts(3)[OF n(2)] by (simp add: ch)
  have ad: "addr_reply E J (ed_public E key) (cl_receiver_domain c) (att_to_json J att) = Inr att"
    unfolding c_sel using ext(3) att(1,2) by (rule addr_reply_json)
  obtain r c' where run: "send_invoice_over E J rnd issued now sender user (ed_public E key) mid p body c = (r, c')" by fastforce
  have inp: "cl_in c = replies_bytes (''250 Hello '' @ sd) ''250 authenticated'' ?b ''250 address attestation''
      (att_to_json J att) (outcome_line oc) @ tail" by (simp add: c_def daemon_replies_def)
  note res = send_invoice_over_replies[OF c_sel(3) inp dfit(1) ff au ad run]
  have "r = client_outcome oc"
    using res(1) outcome_status_error[OF oc(2)] by (cases oc) (auto simp: outcome_line_code is_accepted_def client_outcome_def)
  moreover have "cl_out c' = concat (map (command_bytes E) (flow_commands ch sd user sender mid p body (is_accepted oc)))"
    using res(2) flow_commands_bytes[of c sd ch rnd issued E] c_sel by (simp add: outcome_line_code ch)
  ultimately show ?thesis using con run by blast
qed

text \<open>Both sides together.\<close>

lemma exchange_flow:
  assumes ext: "b64_ok E" "hex_ok E" "ed_ok E" "json_ok J"
    and ok: "exchange_ok E sd d user sender mid rnd issued now body"
    and dir: "dir user w" and mint: "placeholder_mint rng Ephemeral w = (minted, w1)"
    and del: "k (sender @ ''@'' @ sd) mid (user @ ''@'' @ d) p body w1 = (oc, w2)"
    and jfit: "length (att_to_json J (att_sign E d user Ephemeral (ma_address minted) (ma_pubkey minted) key)) \<le> MAX_BLOB"
    and ofit: "line_fits (outcome_line oc)" "ascii (outcome_line oc)"
  shows "\<exists>to_server to_client s' rest c c'.
    serve_connection E J rng d key k dir to_server w =
      (Inr (), \<lparr>cn_session = s', cn_world = w2, cn_in = rest, cn_out = to_client\<rparr>) \<and>
    client_connect to_client sd = Inr c \<and>
    send_invoice_over E J rnd issued now sender user (ed_public E key) mid p body c = (client_outcome oc, c') \<and>
    cl_out c' = to_server"
proof -
  define ch where "ch = challenge_issue sd d rnd issued"
  define att where "att = att_sign E d user Ephemeral (ma_address minted) (ma_pubkey minted) key"
  have u: "att_utf8 att"
    using minted_utf8[OF mint] ok wire_name_facts(3) by (auto simp: att_utf8_def att_def exchange_ok_def)
  have v: "att_verify E att (ed_public E key) d = Inr ()" unfolding att_def using ext(3) by (rule att_sign_verify)
  obtain s' rest tail where "serve_connection E J rng d key k dir
      (concat (map (command_bytes E) (flow_commands ch sd user sender mid p body (is_accepted oc)))) w =
      (Inr (), \<lparr>cn_session = s', cn_world = w2, cn_in = rest,
        cn_out = line_bytes (''ZSMTP 1.0 '' @ d) @ daemon_replies E J key sd ch att oc @ tail\<rparr>)"
    using daemon_flow[where dir = dir and k = k and w = w, OF ext(1,3) ok dir mint del att_def jfit[folded att_def] ofit(1) ch_def]
    by blast
  with client_flow[OF ext(2-4) ok u v jfit[folded att_def] ofit ext(1) ch_def, of tail p] show ?thesis by blast
qed

text \<open>A concrete exchange.\<close>

definition demo_nonce :: bytes where "demo_nonce = replicate 16 CHR 0x01"

definition demo_att :: attestation where
  "demo_att = att_sign demo_ext ''b'' ''bob'' Ephemeral ''taddr-'' [] []"

lemma demo_names: "wire_name ''a''" "wire_name ''b''" "wire_name ''bob''" "wire_name ''al''" "wire_name ''m1''"
  by (auto intro!: printable_token simp: wire_name_def byte_def BAR_def)

lemma demo_b64_length: "length (b64_encode demo_ext x) = 2 * length x"
  by (induction x) (simp_all add: demo_ext_def)

lemma demo_exchange: "exchange_ok demo_ext ''a'' ''b'' ''bob'' ''al'' ''m1'' demo_nonce 1000 1100 ''hi''"
proof -
  have n: "length demo_nonce = 16" "(0::int) \<le> 1000" "1000 \<le> int i64_max" by (simp_all add: demo_nonce_def)
  show ?thesis
    using demo_names issued_challenge(7)[OF demo_names(1,2) n] n
    by (simp add: exchange_ok_def demo_b64_length MAX_BLOB_def)
qed

lemma demo_outcome: "line_fits (outcome_line (Accepted ''m1''))" "ascii (outcome_line (Accepted ''m1''))"
proof -
  show "ascii (outcome_line (Accepted ''m1''))" by (simp add: outcome_line_def)
  then show "line_fits (outcome_line (Accepted ''m1''))"
    by (intro line_fitsI) (simp_all add: outcome_line_def LF_def MAX_LINE_def)
qed

lemma demo_att_facts:
  "att_utf8 demo_att" "att_verify demo_ext demo_att (ed_public demo_ext []) ''b'' = Inr ()"
  "length (att_to_json demo_json demo_att) \<le> MAX_BLOB"
proof -
  show "att_verify demo_ext demo_att (ed_public demo_ext []) ''b'' = Inr ()"
    unfolding demo_att_def by (rule att_sign_verify[OF demo_ed_ok])
  show "att_utf8 demo_att" by (simp add: att_utf8_def demo_att_def)
  have "length (att_signature demo_att) = 64"
    using demo_ed_ok by (simp add: demo_att_def att_sign_def Let_def ed_ok_def)
  then show "length (att_to_json demo_json demo_att) \<le> MAX_BLOB"
    by (simp add: att_to_json_def demo_json_def demo_fields_def demo_att_def att_mode_bytes_def MAX_BLOB_def)
qed

subsection \<open>Properties\<close>



text \<open>
  C7. End to end: the invoice flow of the client against the daemon's own server, over bytes. For
  every delivery sink and user directory there is an exchange in which each side reads exactly what
  the other writes; the server ends without an error after exactly one delivery, from the sender at
  the client's domain to the user at the server's domain with the client's message id, payload and
  body; and the client reports success exactly when the sink accepted, a permanent failure when it
  rejected, and a transient one when it asked to retry.
\<close>

theorem invoice_end_to_end:
  assumes ext: "b64_ok E" "hex_ok E" "ed_ok E" "json_ok J"
    and ok: "exchange_ok E sd d user sender mid rnd issued now body"
    and dir: "dir user w" and mint: "placeholder_mint rng Ephemeral w = (minted, w1)"
    and del: "k (sender @ ''@'' @ sd) mid (user @ ''@'' @ d) p body w1 = (oc, w2)"
    and jfit: "length (att_to_json J (att_sign E d user Ephemeral (ma_address minted) (ma_pubkey minted) key)) \<le> MAX_BLOB"
    and ofit: "line_fits (outcome_line oc)" "ascii (outcome_line oc)"
  shows "\<exists>to_server to_client s' rest c c'.
    serve_connection E J rng d key k dir to_server w =
      (Inr (), \<lparr>cn_session = s', cn_world = w2, cn_in = rest, cn_out = to_client\<rparr>) \<and>
    client_connect to_client sd = Inr c \<and>
    send_invoice_over E J rnd issued now sender user (ed_public E key) mid p body c = (client_outcome oc, c') \<and>
    cl_out c' = to_server"
  using assms by (rule exchange_flow)

theorem invoice_end_to_end_witness:
  "\<exists>to_server to_client s' rest c c'.
    serve_connection demo_ext demo_json (\<lambda>w. ([], w)) ''b'' [] (\<lambda>_ mid _ _ b w. (Accepted mid, b # w)) (\<lambda>u _. u = ''bob'') to_server [] =
      (Inr (), \<lparr>cn_session = s', cn_world = [''hi''], cn_in = rest, cn_out = to_client\<rparr>) \<and>
    client_connect to_client ''a'' = Inr c \<and>
    send_invoice_over demo_ext demo_json demo_nonce 1000 1100 ''al'' ''bob'' (ed_public demo_ext []) ''m1'' Sealed ''hi'' c =
      (client_outcome (Accepted ''m1''), c') \<and>
    cl_out c' = to_server"
proof -
  have m: "placeholder_mint (\<lambda>w. ([], w)) Ephemeral [] =
      (\<lparr>ma_address = ''taddr-'', ma_pubkey = [], ma_diversifier = None\<rparr>, [])"
    by (simp add: placeholder_mint_def mint_pair_def)
  show ?thesis
    by (rule invoice_end_to_end[OF demo_b64_ok demo_hex_ok demo_ed_ok demo_json_ok demo_exchange _ m, where p = Sealed])
       (use demo_att_facts(3) demo_outcome in \<open>simp_all add: demo_att_def\<close>)
qed

text \<open>
  C34. The client does not compare the signed challenge with the one it issued, nor the attested user
  with the one it asked for: a peer that does not hold the domain key and only repeats one recorded
  AUTH reply (for as long as its challenge is fresh) and one recorded attestation of any user is
  accepted by every client, whatever nonce, sender, recipient and body it uses, and is handed the
  invoice.
\<close>

theorem replayed_replies_accepted:
  assumes "hex_ok E" "json_ok J"
    and ch: "challenge_ok ch" "bar_free ch" "utf8_valid (sender_domain ch)" "utf8_valid (receiver_domain ch)"
    and sig: "verify E \<lparr>resp_challenge = ch, resp_signature = sig\<rparr> pub MAX_CHALLENGE_AGE now = Inr ()"
    and att: "att_utf8 att" "att_verify E att pub d = Inr ()"
    and fit: "length (to_wire ch @ BAR # hex sig) \<le> MAX_BLOB" "length (att_to_json J att) \<le> MAX_BLOB" "wire_name d"
  shows "\<exists>recorded. \<forall>sd rnd issued sender user mid p body. \<exists>c. client_connect recorded sd = Inr c \<and>
    (flow_fits E rnd issued sender user mid p body c \<longrightarrow>
      (\<exists>c'. send_invoice_over E J rnd issued now sender user pub mid p body c = (Inr (), c')))"
proof (intro exI[of _ "line_bytes (''ZSMTP 1.0 '' @ d) @ replies_bytes ''250 x'' ''250 x'' (to_wire ch @ BAR # hex sig)
    ''250 x'' (att_to_json J att) ''250 x''"] allI)
  fix sd rnd issued sender user mid p body
  let ?reps = "replies_bytes ''250 x'' ''250 x'' (to_wire ch @ BAR # hex sig) ''250 x'' (att_to_json J att) ''250 x''"
  define c where "c = \<lparr>cl_in = ?reps, cl_out = [], cl_state = Connected, cl_sender_domain = sd, cl_receiver_domain = d,
    cl_addr_user = None\<rparr>"
  have g: "line_fits (''ZSMTP 1.0 '' @ d)" "line_fits ''250 x''"
    using wire_name_facts(2,5,7)[OF fit(3)] by (auto intro!: line_fitsI simp: MAX_LINE_def LF_def)
  have con: "client_connect (line_bytes (''ZSMTP 1.0 '' @ d) @ ?reps) sd = Inr c"
    using client_connect_greeting[OF g(1) wire_name_facts(1)[OF fit(3)]] by (simp only: c_def)
  have r: "replies_fit ''250 x'' ''250 x'' (to_wire ch @ BAR # hex sig) ''250 x'' (att_to_json J att) ''250 x''"
    using g(2) fit by (simp add: replies_fit_def starts_with_iff)
  have a: "auth_reply E pub now (to_wire ch @ BAR # hex sig) = Inr ()"
    using auth_reply_wire[OF assms(1) ch] sig by simp
  have b: "addr_reply E J pub (cl_receiver_domain c) (att_to_json J att) = Inr att"
    using addr_reply_json[OF assms(2) att] by (simp add: c_def)
  obtain x c' where run: "send_invoice_over E J rnd issued now sender user pub mid p body c = (x, c')" by fastforce
  have "x = Inr ()" if "flow_fits E rnd issued sender user mid p body c"
    using send_invoice_over_replies(1)[OF _ _ r that a b run, where rest = "[]"] by (simp add: c_def starts_with_iff)
  with con run show "\<exists>c. client_connect (line_bytes (''ZSMTP 1.0 '' @ d) @ ?reps) sd = Inr c \<and>
    (flow_fits E rnd issued sender user mid p body c \<longrightarrow>
      (\<exists>c'. send_invoice_over E J rnd issued now sender user pub mid p body c = (Inr (), c')))" by blast
qed

theorem replayed_replies_accepted_witness:
  "\<exists>recorded. \<forall>sd rnd issued sender user mid p body. \<exists>c. client_connect recorded sd = Inr c \<and>
    (flow_fits demo_ext rnd issued sender user mid p body c \<longrightarrow>
      (\<exists>c'. send_invoice_over demo_ext demo_json rnd issued 1100 sender user (ed_public demo_ext []) mid p body c = (Inr (), c')))"
proof -
  let ?ch = "challenge_issue ''a'' ''b'' demo_nonce 1000"
  let ?sig = "ed_sign demo_ext [] (digest demo_ext ?ch)"
  have n: "length demo_nonce = 16" "(0::int) \<le> 1000" "1000 \<le> int i64_max" by (simp_all add: demo_nonce_def)
  note ic = issued_challenge[OF demo_names(1,2) n]
  have "utf8_valid (sender_domain ?ch)" "utf8_valid (receiver_domain ?ch)"
    using demo_names(1,2)[THEN wire_name_facts(3)] by (simp_all only: ic(3,4))
  moreover have "length (to_wire ?ch @ BAR # hex ?sig) \<le> MAX_BLOB"
    using ic(7) demo_ed_ok by (simp add: MAX_BLOB_def ed_ok_def)
  ultimately show ?thesis
    using replayed_replies_accepted[OF demo_hex_ok demo_json_ok ic(1,2) _ _ issued_challenge_verifies[OF demo_ed_ok demo_exchange]
      demo_att_facts(1,2) _ demo_att_facts(3) demo_names(2)] by blast
qed

end
