(* ===== verification/Dns.thy ===== *)
theory Dns
  imports Zsmtp_Types Externals
begin

text \<open>
  Discovery of a receiver's domain key and endpoint (\<^verbatim>\<open>talk-protocol/src/dns.rs\<close>). The process
  environment is a map from names to values. The HTTP agent, the JSON reader of the DNS answer, the
  check of a key's bytes and the texts of the crates' errors are functions of a record.
\<close>

subsection \<open>Data\<close>

definition SRV_SERVICE :: rstr where "SRV_SERVICE = ''_zpayments._tcp''"
definition COUNTERPARTY_DOMAIN :: rstr where "COUNTERPARTY_DOMAIN = ''example.com''"
definition COUNTERPARTY_DOMAIN_ENV :: rstr where "COUNTERPARTY_DOMAIN_ENV = ''COUNTERPARTY_DOMAIN''"
definition COUNTERPARTY_PORT_SMTP :: rstr where "COUNTERPARTY_PORT_SMTP = ''COUNTERPARTY_PORT_SMTP''"
definition COUNTERPARTY_DOMAINKEY_HEX :: rstr where "COUNTERPARTY_DOMAINKEY_HEX = ''COUNTERPARTY_DOMAINKEY_HEX''"

datatype resolver_error =
    NotFound rstr
  | MalformedTxt rstr
  | InvalidDomainKey rstr
  | NoSrv rstr
  | Http rstr

record dns_answer =
  an_type :: int
  an_data :: rstr

record dns_response =
  dr_status :: int
  dr_answer :: "dns_answer list"

record dns_ext =
  http_get :: "rstr \<Rightarrow> (rstr, rstr) result"
  dns_json :: "rstr \<Rightarrow> (rstr, dns_response) result"
  key_bytes_err :: "bytes \<Rightarrow> rstr option"
  hex_err :: "rstr \<Rightarrow> rstr"
  b64_err :: "rstr \<Rightarrow> rstr"

type_synonym env = "rstr \<Rightarrow> rstr option"

subsection \<open>The designated counterparty\<close>

definition counterparty_domain :: "env \<Rightarrow> rstr" where
  "counterparty_domain v = (case v COUNTERPARTY_DOMAIN_ENV of Some d \<Rightarrow> d | None \<Rightarrow> COUNTERPARTY_DOMAIN)"

definition is_counterparty :: "env \<Rightarrow> rstr \<Rightarrow> bool" where
  "is_counterparty v domain = eq_ignore_ascii_case domain (counterparty_domain v)"

definition counterparty_endpoint :: "env \<Rightarrow> rstr option" where
  "counterparty_endpoint v =
     (case v COUNTERPARTY_PORT_SMTP of
        None \<Rightarrow> None
      | Some p \<Rightarrow> map_option (\<lambda>port. ''127.0.0.1:'' @ show_nat port) (parse_uint u16_max (trim p)))"

text \<open>Thirty-two bytes that are a point of the curve.\<close>

definition key_from_bytes :: "dns_ext \<Rightarrow> bytes \<Rightarrow> (resolver_error, bytes) result" where
  "key_from_bytes X b =
     (if length b \<noteq> 32 then Inl (InvalidDomainKey ''expected 32 bytes'')
      else (case key_bytes_err X b of None \<Rightarrow> Inr b | Some e \<Rightarrow> Inl (InvalidDomainKey e)))"

definition counterparty_key :: "ext \<Rightarrow> dns_ext \<Rightarrow> env \<Rightarrow> (resolver_error, bytes) result" where
  "counterparty_key E X v =
     bind_r (ok_or (NotFound (counterparty_domain v)) (v COUNTERPARTY_DOMAINKEY_HEX)) (\<lambda>raw.
     bind_r (ok_or (InvalidDomainKey (hex_err X (trim raw))) (hex_decode E (trim raw))) (key_from_bytes X))"

subsection \<open>Static resolvers\<close>

type_synonym static_keys = "rstr \<Rightarrow> bytes option"
type_synonym static_endpoints = "rstr \<Rightarrow> rstr option"

definition static_key_insert :: "static_keys \<Rightarrow> rstr \<Rightarrow> bytes \<Rightarrow> static_keys" where
  "static_key_insert m domain key = m(domain \<mapsto> key)"

definition static_resolving_key :: "static_keys \<Rightarrow> rstr \<Rightarrow> (resolver_error, bytes) result" where
  "static_resolving_key m domain = ok_or (NotFound domain) (m domain)"

definition static_endpoint_insert :: "static_endpoints \<Rightarrow> rstr \<Rightarrow> rstr \<Rightarrow> static_endpoints" where
  "static_endpoint_insert m domain ep = m(domain \<mapsto> ep)"

definition static_resolve_endpoint :: "static_endpoints \<Rightarrow> rstr \<Rightarrow> (resolver_error, rstr) result" where
  "static_resolve_endpoint m domain = ok_or (NoSrv domain) (m domain)"

subsection \<open>DNS over HTTPS\<close>

definition trim_char :: "char \<Rightarrow> rstr \<Rightarrow> rstr" where
  "trim_char c s = rev (dropWhile (\<lambda>x. x = c) (rev (dropWhile (\<lambda>x. x = c) s)))"

definition doh_query :: "dns_ext \<Rightarrow> rstr \<Rightarrow> rstr \<Rightarrow> rstr \<Rightarrow> (resolver_error, rstr list) result" where
  "doh_query X endpoint name ty =
     (case http_get X (endpoint @ ''?name='' @ name @ ''&type='' @ ty) of
        Inl e \<Rightarrow> Inl (Http e)
      | Inr body \<Rightarrow>
          (case dns_json X body of
             Inl e \<Rightarrow> Inl (MalformedTxt e)
           | Inr parsed \<Rightarrow>
               if dr_status parsed \<noteq> 0 then Inl (NotFound name)
               else Inr (map (\<lambda>a. trim_char (CHR 0x27) (trim_char (CHR 0x22) (an_data a)))
                          (filter (\<lambda>a. an_type a = 16 \<or> an_type a = 33) (dr_answer parsed)))))"

definition doh_resolving_key :: "ext \<Rightarrow> dns_ext \<Rightarrow> env \<Rightarrow> rstr \<Rightarrow> rstr \<Rightarrow> (resolver_error, bytes) result" where
  "doh_resolving_key E X v endpoint domain =
     (if is_counterparty v domain then counterparty_key E X v
      else
        bind_r (doh_query X endpoint (SRV_SERVICE @ ''.'' @ domain) ''TXT'') (\<lambda>records.
        bind_r (ok_or (NotFound domain) (nth_opt records 0)) (\<lambda>record.
        bind_r (ok_or (InvalidDomainKey (b64_err X record)) (b64_decode E record)) (key_from_bytes X))))"

record srv =
  srv_priority :: nat
  srv_weight :: nat
  srv_port :: nat
  srv_target :: rstr

definition parse_srv :: "rstr \<Rightarrow> srv option" where
  "parse_srv data =
     (let parts = split_whitespace data in
      case Option.bind (nth_opt parts 0) (parse_uint u16_max) of None \<Rightarrow> None | Some priority \<Rightarrow>
     (case Option.bind (nth_opt parts 1) (parse_uint u16_max) of None \<Rightarrow> None | Some weight \<Rightarrow>
     (case Option.bind (nth_opt parts 2) (parse_uint u16_max) of None \<Rightarrow> None | Some port \<Rightarrow>
     (case nth_opt parts 3 of None \<Rightarrow> None | Some target \<Rightarrow>
      if target = [] then None
      else Some \<lparr>srv_priority = priority, srv_weight = weight, srv_port = port, srv_target = target\<rparr>))))"

text \<open>The loop over the records: the first record of the lowest priority seen so far.\<close>

fun best_srv :: "srv option \<Rightarrow> rstr list \<Rightarrow> srv option" where
  "best_srv best [] = best"
| "best_srv best (data # records) =
     (case parse_srv data of
        None \<Rightarrow> best_srv best records
      | Some parsed \<Rightarrow>
          (let better = (case best of None \<Rightarrow> True | Some b \<Rightarrow> srv_priority parsed < srv_priority b)
           in best_srv (if better then Some parsed else best) records))"

definition doh_resolve_endpoint :: "dns_ext \<Rightarrow> env \<Rightarrow> rstr \<Rightarrow> rstr \<Rightarrow> (resolver_error, rstr) result" where
  "doh_resolve_endpoint X v endpoint domain =
     (if is_counterparty v domain then ok_or (NoSrv domain) (counterparty_endpoint v)
      else
        bind_r (doh_query X endpoint (SRV_SERVICE @ ''.'' @ domain) ''SRV'') (\<lambda>records.
        bind_r (ok_or (NoSrv domain) (best_srv None records)) (\<lambda>s.
          Inr (srv_target s @ '':'' @ show_nat (srv_port s)))))"

subsection \<open>Choice of the record\<close>

definition srvs :: "rstr list \<Rightarrow> srv list" where
  "srvs records = List.map_filter parse_srv records"

lemma srvs_Nil [simp]: "srvs [] = []"
  by (simp add: srvs_def List.map_filter_simps)

lemma srvs_Cons [simp]: "srvs (d # ds) = (case parse_srv d of None \<Rightarrow> srvs ds | Some s \<Rightarrow> s # srvs ds)"
  by (simp add: srvs_def List.map_filter_simps split: option.splits)

text \<open>\<open>first_min f xs = Some x\<close>: the first element of \<open>xs\<close> where \<open>f\<close> is least.\<close>

definition is_first_min :: "('a \<Rightarrow> nat) \<Rightarrow> 'a list \<Rightarrow> 'a \<Rightarrow> bool" where
  "is_first_min f xs x \<longleftrightarrow> (\<exists>as bs. xs = as @ x # bs \<and> (\<forall>y \<in> set as. f x < f y) \<and> (\<forall>y \<in> set bs. f x \<le> f y))"

lemma is_first_min_le: "is_first_min f xs x \<Longrightarrow> y \<in> set xs \<Longrightarrow> f x \<le> f y"
  by (fastforce simp: is_first_min_def)

lemma is_first_min_unique: "is_first_min f xs x \<Longrightarrow> is_first_min f xs y \<Longrightarrow> x = y"
proof -
  assume x: "is_first_min f xs x" and y: "is_first_min f xs y"
  from x obtain as bs where a: "xs = as @ x # bs" "\<forall>z \<in> set as. f x < f z" by (auto simp: is_first_min_def)
  from y obtain cs ds where c: "xs = cs @ y # ds" "\<forall>z \<in> set cs. f y < f z" by (auto simp: is_first_min_def)
  have "y \<in> set xs" unfolding c(1) by simp
  moreover have "x \<in> set xs" unfolding a(1) by simp
  ultimately have "f x = f y" using is_first_min_le[OF x] is_first_min_le[OF y] by (meson antisym)
  with a(2) c(2) have n: "x \<notin> set cs" "y \<notin> set as" by (metis less_irrefl)+
  have "as @ x # bs = cs @ y # ds" using a(1) c(1) by simp
  then obtain us where "as = cs @ us \<and> us @ x # bs = y # ds \<or> as @ us = cs \<and> x # bs = us @ y # ds"
    unfolding append_eq_append_conv2 by blast
  with n show "x = y" by (cases us) auto
qed

lemma is_first_min_better: "is_first_min f (p # xs) x \<Longrightarrow> f p < f b \<Longrightarrow> is_first_min f (b # p # xs) x"
proof -
  assume m: "is_first_min f (p # xs) x" and "f p < f b"
  moreover have "f x \<le> f p" using is_first_min_le[OF m] by simp
  moreover obtain as bs where "p # xs = as @ x # bs" "\<forall>y \<in> set as. f x < f y" "\<forall>y \<in> set bs. f x \<le> f y"
    using m by (auto simp: is_first_min_def)
  ultimately show ?thesis unfolding is_first_min_def by (intro exI[of _ "b # as"] exI[of _ bs]) auto
qed

lemma is_first_min_worse:
  assumes "is_first_min f (b # xs) x" "f b \<le> f p" shows "is_first_min f (b # p # xs) x"
proof -
  obtain as bs where m: "b # xs = as @ x # bs" "\<forall>y \<in> set as. f x < f y" "\<forall>y \<in> set bs. f x \<le> f y"
    using assms(1) by (auto simp: is_first_min_def)
  show ?thesis
  proof (cases as)
    case Nil
    with m assms(2) show ?thesis unfolding is_first_min_def by (intro exI[of _ "[]"] exI[of _ "p # bs"]) auto
  next
    case (Cons z zs)
    with m assms(2) show ?thesis unfolding is_first_min_def by (intro exI[of _ "b # p # zs"] exI[of _ bs]) auto
  qed
qed

lemma best_srv_Some: "\<exists>x. best_srv (Some b) rs = Some x \<and> is_first_min srv_priority (b # srvs rs) x"
proof (induction rs arbitrary: b)
  case Nil
  have "is_first_min srv_priority [b] b" unfolding is_first_min_def by (intro exI[of _ "[]"]) simp
  then show ?case by simp
next
  case (Cons d ds)
  show ?case
  proof (cases "parse_srv d")
    case None
    with Cons[of b] show ?thesis by simp
  next
    case (Some p)
    with Cons[of p] Cons[of b] show ?thesis
      by (auto simp: not_less intro: is_first_min_better is_first_min_worse)
  qed
qed

lemma best_srv_None: "best_srv None rs = None \<and> srvs rs = [] \<or>
    (\<exists>x. best_srv None rs = Some x \<and> is_first_min srv_priority (srvs rs) x)"
proof (induction rs)
  case (Cons d ds)
  then show ?case using best_srv_Some by (cases "parse_srv d") auto
qed simp

lemma parse_srv_print:
  assumes "p \<le> u16_max" "w \<le> u16_max" "port \<le> u16_max" "token t"
  shows "parse_srv (show_nat p @ '' '' @ show_nat w @ '' '' @ show_nat port @ '' '' @ t) =
    Some \<lparr>srv_priority = p, srv_weight = w, srv_port = port, srv_target = t\<rparr>"
proof -
  have a: "ascii t" "ascii (show_nat n)" for n using assms(4) token_ascii token_show_nat by blast+
  have sp: "ascii ('' '' @ r) \<longleftrightarrow> ascii r" for r by (simp add: byte_def)
  have c: "split_whitespace (show_nat n @ '' '' @ r) = show_nat n # split_whitespace r" if "ascii r" for n r
    using split_whitespace_cons[OF token_show_nat that] by simp
  have "split_whitespace (show_nat p @ '' '' @ show_nat w @ '' '' @ show_nat port @ '' '' @ t) =
      [show_nat p, show_nat w, show_nat port, t]"
    using a sp by (simp add: c split_whitespace_token[OF assms(4)] del: append_Cons)
  then show ?thesis using assms token_nonempty[OF assms(4)] by (simp add: parse_srv_def Let_def)
qed

definition print_srv :: "srv \<Rightarrow> rstr" where
  "print_srv s = show_nat (srv_priority s) @ '' '' @ show_nat (srv_weight s) @ '' '' @ show_nat (srv_port s) @ '' '' @ srv_target s"

definition srv_ok :: "srv \<Rightarrow> bool" where
  "srv_ok s \<longleftrightarrow> srv_priority s \<le> u16_max \<and> srv_weight s \<le> u16_max \<and> srv_port s \<le> u16_max \<and> token (srv_target s)"

lemma srvs_print: "list_all srv_ok ss \<Longrightarrow> srvs (map print_srv ss) = ss"
proof (induction ss)
  case (Cons s ss)
  then have "parse_srv (print_srv s) = Some s"
    using parse_srv_print[of "srv_priority s" "srv_weight s" "srv_port s" "srv_target s"]
    by (simp add: print_srv_def srv_ok_def)
  with Cons show ?case by simp
qed simp

subsection \<open>Properties\<close>

text \<open>
  C36. Endpoint discovery: of the SRV records the query returned, unreadable ones are skipped and the
  first one of the lowest priority decides; there is an error exactly when no record can be read.
  Well-formed records \<open>priority weight port target\<close> are all read, as what they say.
\<close>

theorem endpoint_is_first_lowest_priority:
  assumes "\<not> is_counterparty v domain"
    and "doh_query X endpoint (SRV_SERVICE @ ''.'' @ domain) ''SRV'' = Inr records"
  shows "(doh_resolve_endpoint X v endpoint domain = Inr ep \<longleftrightarrow>
      (\<exists>s. is_first_min srv_priority (srvs records) s \<and> ep = srv_target s @ '':'' @ show_nat (srv_port s))) \<and>
    (doh_resolve_endpoint X v endpoint domain = Inl e \<longleftrightarrow> srvs records = [] \<and> e = NoSrv domain) \<and>
    (list_all srv_ok ss \<longrightarrow> srvs (map print_srv ss) = ss)"
proof -
  have r: "doh_resolve_endpoint X v endpoint domain =
      (case best_srv None records of None \<Rightarrow> Inl (NoSrv domain) | Some s \<Rightarrow> Inr (srv_target s @ '':'' @ show_nat (srv_port s)))"
    using assms by (simp add: doh_resolve_endpoint_def split: option.splits)
  have n: "\<not> is_first_min srv_priority [] s" for s by (simp add: is_first_min_def)
  have "doh_resolve_endpoint X v endpoint domain = Inr ep \<longleftrightarrow>
      (\<exists>s. is_first_min srv_priority (srvs records) s \<and> ep = srv_target s @ '':'' @ show_nat (srv_port s))"
    using best_srv_None[of records]
  proof (elim disjE conjE exE)
    fix x assume x: "best_srv None records = Some x" "is_first_min srv_priority (srvs records) x"
    then have "is_first_min srv_priority (srvs records) s \<longleftrightarrow> s = x" for s using is_first_min_unique by metis
    with x(1) show ?thesis by (auto simp: r)
  qed (simp add: r n)
  moreover have "doh_resolve_endpoint X v endpoint domain = Inl e \<longleftrightarrow> srvs records = [] \<and> e = NoSrv domain"
    using best_srv_None[of records] n by (cases "srvs records") (auto simp: r)
  ultimately show ?thesis using srvs_print by blast
qed

definition demo_srvs :: "srv list" where
  "demo_srvs = [\<lparr>srv_priority = 20, srv_weight = 0, srv_port = 25, srv_target = ''old.example''\<rparr>,
     \<lparr>srv_priority = 10, srv_weight = 0, srv_port = 465, srv_target = ''new.example''\<rparr>]"

definition demo_dns :: dns_ext where
  "demo_dns = \<lparr>http_get = (\<lambda>_. Inr []), dns_json = (\<lambda>_. Inr \<lparr>dr_status = 0,
      dr_answer = map (\<lambda>s. \<lparr>an_type = 33, an_data = print_srv s\<rparr>) demo_srvs\<rparr>),
      key_bytes_err = (\<lambda>_. None), hex_err = (\<lambda>_. []), b64_err = (\<lambda>_. [])\<rparr>"

theorem endpoint_is_first_lowest_priority_witness:
  "doh_resolve_endpoint demo_dns (\<lambda>_. None) [] ''b.org'' = Inr (''new.example'' @ '':'' @ show_nat 465)"
proof -
  let ?rs = "map print_srv demo_srvs"
  have c: "\<not> is_counterparty (\<lambda>_. None) ''b.org''" by code_simp
  have q: "doh_query demo_dns [] (SRV_SERVICE @ ''.'' @ ''b.org'') ''SRV'' = Inr ?rs" by code_simp
  have "token ''old.example''" "token ''new.example''" by (auto intro!: printable_token simp: byte_def)
  then have ok: "list_all srv_ok demo_srvs" by (simp add: demo_srvs_def srv_ok_def)
  note th = endpoint_is_first_lowest_priority[OF c q, of "''new.example'' @ '':'' @ show_nat 465" "NoSrv []" demo_srvs]
  have s: "srvs ?rs = demo_srvs" using th ok by blast
  have "is_first_min srv_priority demo_srvs (demo_srvs ! 1)"
    unfolding is_first_min_def by (intro exI[of _ "[demo_srvs ! 0]"] exI[of _ "[]"]) (simp add: demo_srvs_def)
  then have "\<exists>s. is_first_min srv_priority (srvs ?rs) s \<and>
      ''new.example'' @ '':'' @ show_nat 465 = srv_target s @ '':'' @ show_nat (srv_port s)"
    unfolding s by (intro exI[of _ "demo_srvs ! 1"]) (simp add: demo_srvs_def)
  with th show ?thesis by blast
qed

end
