(* ===== verification/Mailbox_Proto.thy ===== *)
theory Mailbox_Proto
  imports Framing Codec Attestation
begin

text \<open>
  The local control channel of the daemon (\<^verbatim>\<open>talk-protocol/src/mailbox.rs\<close>) and the payload of its
  EMULATE command (\<^verbatim>\<open>talk-protocol/src/emulate.rs\<close>). The handler is a record of functions on a world
  that is threaded through the loop, as for the ZSMTP session. JSON reading and writing of the
  payload (crate \<^verbatim>\<open>serde_json\<close>) are parameters.
\<close>

subsection \<open>Data\<close>

datatype send_result = SendOk rstr | SendError rstr
datatype attest_result = AttestOk bytes | AttestError rstr
datatype register_result = RegisterOk | RegisterError rstr
datatype emulate_result = EmulateOk rstr | EmulateError rstr

record emulate_payload =
  ep_sender_name :: rstr
  ep_sender_address :: rstr
  ep_amount :: rstr
  ep_invoice :: bytes

record emulate_json =
  emu_write :: "emulate_payload \<Rightarrow> rstr"
  emu_read :: "rstr \<Rightarrow> emulate_payload option"

definition emu_to_json :: "emulate_json \<Rightarrow> emulate_payload \<Rightarrow> rstr" where
  "emu_to_json M p = emu_write M p"

definition emu_from_json :: "emulate_json \<Rightarrow> rstr \<Rightarrow> emulate_payload option" where
  "emu_from_json M s = emu_read M s"

record 'w mailbox_handler =
  h_send :: "rstr \<Rightarrow> rstr \<Rightarrow> rstr \<Rightarrow> payload \<Rightarrow> bytes \<Rightarrow> 'w \<Rightarrow> send_result \<times> 'w"
  h_attest :: "rstr \<Rightarrow> attestation_mode \<Rightarrow> 'w \<Rightarrow> attest_result \<times> 'w"
  h_register :: "rstr \<Rightarrow> rstr \<Rightarrow> rstr \<Rightarrow> rstr option \<Rightarrow> 'w \<Rightarrow> register_result \<times> 'w"
  h_status :: rstr
  h_emulate :: "rstr \<Rightarrow> emulate_payload \<Rightarrow> 'w \<Rightarrow> emulate_result \<times> 'w"

subsection \<open>The server loop\<close>

record 'w mconn =
  mc_world :: 'w
  mc_in :: bytes
  mc_out :: bytes

type_synonym 'w mturn = "(framing_error, unit) result option \<times> 'w mconn"

text \<open>Write one line and go on with the loop, or stop with the error.\<close>

definition mb_line :: "rstr \<Rightarrow> 'w mconn \<Rightarrow> 'w mturn" where
  "mb_line l c =
     (case write_line l (mc_out c) of
        (Inl e, out') \<Rightarrow> (Some (Inl e), c\<lparr>mc_out := out'\<rparr>)
      | (Inr _, out') \<Rightarrow> (None, c\<lparr>mc_out := out'\<rparr>))"

definition arg :: "rstr list \<Rightarrow> nat \<Rightarrow> rstr" where
  "arg parts i = unwrap_or [] (nth_opt parts i)"

definition mb_payload :: "rstr option \<Rightarrow> payload option" where
  "mb_payload p = (if p = Some ''sealed'' then Some Sealed else if p = Some ''plaintext'' then Some Plaintext else None)"

definition mb_mode :: "rstr option \<Rightarrow> attestation_mode option" where
  "mb_mode m = (if m = Some ''ephemeral'' then Some Ephemeral else if m = Some ''attested'' then Some Attested else None)"

definition on_send :: "'w mailbox_handler \<Rightarrow> rstr list \<Rightarrow> 'w mconn \<Rightarrow> 'w mturn" where
  "on_send h parts c =
     (case mb_payload (nth_opt parts 4) of
        None \<Rightarrow> mb_line ''ERR malformed SEND'' c
      | Some p \<Rightarrow>
          (case read_blob (mc_in c) of
             (Inl _, rest) \<Rightarrow> mb_line ''ERR missing SEND blob'' (c\<lparr>mc_in := rest\<rparr>)
           | (Inr body, rest) \<Rightarrow>
               (case h_send h (arg parts 1) (arg parts 2) (arg parts 3) p body (mc_world c) of
                  (SendOk t, w') \<Rightarrow> mb_line (''OK '' @ t) (c\<lparr>mc_in := rest, mc_world := w'\<rparr>)
                | (SendError t, w') \<Rightarrow> mb_line (''ERR '' @ t) (c\<lparr>mc_in := rest, mc_world := w'\<rparr>))))"

definition on_register :: "'w mailbox_handler \<Rightarrow> rstr list \<Rightarrow> 'w mconn \<Rightarrow> 'w mturn" where
  "on_register h parts c =
     (if arg parts 1 = [] \<or> arg parts 2 = [] \<or> arg parts 3 = [] then
        mb_line ''ERR REGISTER requires username, password, and pubkey'' c
      else
        (case h_register h (arg parts 1) (arg parts 2) (arg parts 3) (nth_opt parts 4) (mc_world c) of
           (RegisterOk, w') \<Rightarrow> mb_line ''OK registered'' (c\<lparr>mc_world := w'\<rparr>)
         | (RegisterError t, w') \<Rightarrow> mb_line (''ERR '' @ t) (c\<lparr>mc_world := w'\<rparr>)))"

definition on_attest :: "'w mailbox_handler \<Rightarrow> rstr list \<Rightarrow> 'w mconn \<Rightarrow> 'w mturn" where
  "on_attest h parts c =
     (case mb_mode (nth_opt parts 2) of
        None \<Rightarrow> mb_line ''ERR malformed ATTEST'' c
      | Some m \<Rightarrow>
          (case h_attest h (arg parts 1) m (mc_world c) of
             (AttestOk blob, w') \<Rightarrow>
               (case mb_line ''OK attestation'' (c\<lparr>mc_world := w'\<rparr>) of
                  (Some r, c') \<Rightarrow> (Some r, c')
                | (None, c') \<Rightarrow>
                    (case write_blob blob (mc_out c') of
                       (Inl e, out') \<Rightarrow> (Some (Inl e), c'\<lparr>mc_out := out'\<rparr>)
                     | (Inr _, out') \<Rightarrow> (None, c'\<lparr>mc_out := out'\<rparr>)))
           | (AttestError t, w') \<Rightarrow> mb_line (''ERR '' @ t) (c\<lparr>mc_world := w'\<rparr>)))"

definition on_emulate :: "emulate_json \<Rightarrow> 'w mailbox_handler \<Rightarrow> rstr list \<Rightarrow> 'w mconn \<Rightarrow> 'w mturn" where
  "on_emulate M h parts c =
     (if arg parts 1 = [] then mb_line ''ERR EMULATE requires a recipient user'' c
      else
        (case read_blob (mc_in c) of
           (Inl _, rest) \<Rightarrow> mb_line ''ERR missing EMULATE blob'' (c\<lparr>mc_in := rest\<rparr>)
         | (Inr blob, rest) \<Rightarrow>
             (case emu_from_json M (from_utf8_lossy blob) of
                None \<Rightarrow> mb_line ''ERR malformed EMULATE payload'' (c\<lparr>mc_in := rest\<rparr>)
              | Some p \<Rightarrow>
                  (case h_emulate h (arg parts 1) p (mc_world c) of
                     (EmulateOk t, w') \<Rightarrow> mb_line (''OK '' @ t) (c\<lparr>mc_in := rest, mc_world := w'\<rparr>)
                   | (EmulateError t, w') \<Rightarrow> mb_line (''ERR '' @ t) (c\<lparr>mc_in := rest, mc_world := w'\<rparr>)))))"

definition serve_turn :: "emulate_json \<Rightarrow> 'w mailbox_handler \<Rightarrow> 'w mconn \<Rightarrow> 'w mturn" where
  "serve_turn M h c =
     (case read_line (mc_in c) of
        (Inl _, rest) \<Rightarrow> (Some (Inr ()), c\<lparr>mc_in := rest\<rparr>)
      | (Inr line, rest) \<Rightarrow>
          (let parts = splitn 5 (CHR '' '') line; verb = to_ascii_uppercase (arg parts 0); c = c\<lparr>mc_in := rest\<rparr> in
           if verb = ''SEND'' then on_send h parts c
           else if verb = ''REGISTER'' then on_register h parts c
           else if verb = ''ATTEST'' then on_attest h parts c
           else if verb = ''EMULATE'' then on_emulate M h parts c
           else if verb = ''STATUS'' then mb_line (''OK '' @ h_status h) c
           else if verb = ''QUIT'' then
             (case mb_line ''OK bye'' c of (None, c') \<Rightarrow> (Some (Inr ()), c') | (Some r, c') \<Rightarrow> (Some r, c'))
           else mb_line ''ERR unknown command'' c))"

lemma mb_line_in [simp]: "mc_in (snd (mb_line l c)) = mc_in c" "mc_world (snd (mb_line l c)) = mc_world c"
  by (simp_all add: mb_line_def split: prod.splits sum.splits)

lemma mb_line_eq: "mb_line l c = (t, c') \<Longrightarrow> mc_in c' = mc_in c \<and> mc_world c' = mc_world c"
  using mb_line_in[of l c] by simp

lemma handlers_in:
  "length (mc_in (snd (on_send h parts c))) \<le> length (mc_in c)"
  "length (mc_in (snd (on_register h parts c))) \<le> length (mc_in c)"
  "length (mc_in (snd (on_attest h parts c))) \<le> length (mc_in c)"
  "length (mc_in (snd (on_emulate M h parts c))) \<le> length (mc_in c)"
  by (auto simp: on_send_def on_register_def on_attest_def on_emulate_def
      split: option.splits prod.splits sum.splits send_result.splits register_result.splits
        attest_result.splits emulate_result.splits dest!: read_blob_rest mb_line_eq)

lemma serve_turn_consumes:
  assumes "serve_turn M h c = (None, c')" shows "length (mc_in c') < length (mc_in c)"
proof -
  obtain r rest where r: "read_line (mc_in c) = (r, rest)" by fastforce
  have "mc_in c \<noteq> []" using assms by (auto simp: serve_turn_def)
  with read_line_rest[OF r] have lt: "length rest < length (mc_in c)" by simp
  have "length (mc_in (snd (serve_turn M h c))) \<le> length rest"
    using r handlers_in(1)[of h _ "c\<lparr>mc_in := rest\<rparr>"] handlers_in(2)[of h _ "c\<lparr>mc_in := rest\<rparr>"]
      handlers_in(3)[of h _ "c\<lparr>mc_in := rest\<rparr>"] handlers_in(4)[of M h _ "c\<lparr>mc_in := rest\<rparr>"]
    by (auto simp: serve_turn_def Let_def split: sum.splits prod.splits option.splits dest: mb_line_eq)
  with lt show ?thesis using assms by simp
qed

function serve_loop :: "emulate_json \<Rightarrow> 'w mailbox_handler \<Rightarrow> 'w mconn \<Rightarrow> (framing_error, unit) result \<times> 'w mconn" where
  "serve_loop M h c =
     (case serve_turn M h c of
        (Some r, c') \<Rightarrow> (r, c')
      | (None, c') \<Rightarrow> serve_loop M h c')"
  by pat_completeness auto
termination
  by (relation "measure (\<lambda>(M, h, c). length (mc_in c))") (simp_all, metis serve_turn_consumes)

declare serve_loop.simps [simp del]

definition mailbox_serve ::
    "emulate_json \<Rightarrow> 'w mailbox_handler \<Rightarrow> bytes \<Rightarrow> 'w \<Rightarrow> (framing_error, unit) result \<times> 'w mconn" where
  "mailbox_serve M h inp w = serve_loop M h \<lparr>mc_world = w, mc_in = inp, mc_out = []\<rparr>"

subsection \<open>The client\<close>

record mclient =
  mk_in :: bytes
  mk_out :: bytes

type_synonym 'a mclient_op = "mclient \<Rightarrow> (framing_error, 'a) result \<times> mclient"

definition mk_rd :: "'a reader \<Rightarrow> 'a mclient_op" where
  "mk_rd f c = (case f (mk_in c) of (r, rest) \<Rightarrow> (r, c\<lparr>mk_in := rest\<rparr>))"

definition mk_wr :: "writer \<Rightarrow> unit mclient_op" where
  "mk_wr f c = (case f (mk_out c) of (r, out') \<Rightarrow> (r, c\<lparr>mk_out := out'\<rparr>))"

definition mbc_send :: "rstr \<Rightarrow> rstr \<Rightarrow> rstr \<Rightarrow> payload \<Rightarrow> bytes \<Rightarrow> rstr mclient_op" where
  "mbc_send sender recipient mid p body =
     bind_s (mk_wr (write_line (''SEND '' @ sender @ '' '' @ recipient @ '' '' @ mid @ '' '' @ payload_str p))) (\<lambda>_.
     bind_s (mk_wr (write_blob body)) (\<lambda>_. mk_rd read_line))"

definition mbc_status :: "rstr mclient_op" where
  "mbc_status = bind_s (mk_wr (write_line ''STATUS'')) (\<lambda>_. mk_rd read_line)"

definition mbc_register :: "rstr \<Rightarrow> rstr \<Rightarrow> rstr \<Rightarrow> rstr option \<Rightarrow> rstr mclient_op" where
  "mbc_register username password pubkey ivk_hex =
     (let ivk = (case ivk_hex of None \<Rightarrow> [] | Some s \<Rightarrow> '' '' @ s) in
      bind_s (mk_wr (write_line (''REGISTER '' @ username @ '' '' @ password @ '' '' @ pubkey @ ivk))) (\<lambda>_. mk_rd read_line))"

definition mbc_quit :: "rstr mclient_op" where
  "mbc_quit = bind_s (mk_wr (write_line ''QUIT'')) (\<lambda>_. mk_rd read_line)"

definition mbc_emulate :: "emulate_json \<Rightarrow> rstr \<Rightarrow> rstr \<Rightarrow> rstr \<Rightarrow> rstr \<Rightarrow> bytes \<Rightarrow> rstr mclient_op" where
  "mbc_emulate M user sender_name sender_address amount invoice =
     (let p = \<lparr>ep_sender_name = sender_name, ep_sender_address = sender_address, ep_amount = amount, ep_invoice = invoice\<rparr> in
      bind_s (mk_wr (write_line (''EMULATE '' @ user))) (\<lambda>_.
      bind_s (mk_wr (write_blob (emu_to_json M p))) (\<lambda>_. mk_rd read_line)))"

text \<open>The error of ATTEST is a text in the code: the server's line, or the text of a framing error,
  which the model keeps as the error itself.\<close>

datatype attest_failure = AttestLine rstr | AttestFraming framing_error

definition mode_text :: "attestation_mode \<Rightarrow> rstr" where
  "mode_text m = (case m of Ephemeral \<Rightarrow> ''ephemeral'' | Attested \<Rightarrow> ''attested'')"

definition mbc_attest :: "rstr \<Rightarrow> attestation_mode \<Rightarrow> mclient \<Rightarrow> (attest_failure, bytes) result \<times> mclient" where
  "mbc_attest user mode c =
     (case bind_s (mk_wr (write_line (''ATTEST '' @ user @ '' '' @ mode_text mode))) (\<lambda>_. mk_rd read_line) c of
        (Inl e, c') \<Rightarrow> (Inl (AttestFraming e), c')
      | (Inr line, c') \<Rightarrow>
          if \<not> starts_with line ''OK '' then (Inl (AttestLine line), c')
          else (case mk_rd read_blob c' of
                  (Inl e, c'') \<Rightarrow> (Inl (AttestFraming e), c'')
                | (Inr blob, c'') \<Rightarrow> (Inr blob, c'')))"

subsection \<open>The conversation, without bytes\<close>

datatype mb_command =
    MbSend rstr rstr rstr payload bytes
  | MbRegister rstr rstr rstr "rstr option"
  | MbAttest rstr attestation_mode
  | MbEmulate rstr emulate_payload
  | MbStatus
  | MbQuit

text \<open>What the client writes for a command: its operation run against a peer that has closed.\<close>

definition wrote :: "(mclient \<Rightarrow> 'r \<times> mclient) \<Rightarrow> bytes" where
  "wrote f = mk_out (snd (f \<lparr>mk_in = [], mk_out = []\<rparr>))"

fun mb_bytes :: "emulate_json \<Rightarrow> mb_command \<Rightarrow> bytes" where
  "mb_bytes M (MbSend s r m p b) = wrote (mbc_send s r m p b)"
| "mb_bytes M (MbRegister u pw k ivk) = wrote (mbc_register u pw k ivk)"
| "mb_bytes M (MbAttest u m) = wrote (mbc_attest u m)"
| "mb_bytes M (MbEmulate u p) =
     wrote (mbc_emulate M u (ep_sender_name p) (ep_sender_address p) (ep_amount p) (ep_invoice p))"
| "mb_bytes M MbStatus = wrote mbc_status"
| "mb_bytes M MbQuit = wrote mbc_quit"

text \<open>One handler call per command, and its reply: a line, and a blob after a successful ATTEST.\<close>

type_synonym mb_reply = "rstr \<times> bytes option"

fun mb_handle :: "'w mailbox_handler \<Rightarrow> mb_command \<Rightarrow> 'w \<Rightarrow> mb_reply \<times> 'w" where
  "mb_handle h (MbSend s r m p b) w =
     (case h_send h s r m p b w of (SendOk t, w') \<Rightarrow> ((''OK '' @ t, None), w') | (SendError t, w') \<Rightarrow> ((''ERR '' @ t, None), w'))"
| "mb_handle h (MbRegister u pw k ivk) w =
     (case h_register h u pw k ivk w of
        (RegisterOk, w') \<Rightarrow> ((''OK registered'', None), w') | (RegisterError t, w') \<Rightarrow> ((''ERR '' @ t, None), w'))"
| "mb_handle h (MbAttest u m) w =
     (case h_attest h u m w of
        (AttestOk b, w') \<Rightarrow> ((''OK attestation'', Some b), w') | (AttestError t, w') \<Rightarrow> ((''ERR '' @ t, None), w'))"
| "mb_handle h (MbEmulate u p) w =
     (case h_emulate h u p w of
        (EmulateOk t, w') \<Rightarrow> ((''OK '' @ t, None), w') | (EmulateError t, w') \<Rightarrow> ((''ERR '' @ t, None), w'))"
| "mb_handle h MbStatus w = ((''OK '' @ h_status h, None), w)"
| "mb_handle h MbQuit w = ((''OK bye'', None), w)"

fun mb_converse :: "'w mailbox_handler \<Rightarrow> mb_command list \<Rightarrow> 'w \<Rightarrow> mb_reply list \<times> 'w" where
  "mb_converse h [] w = ([], w)"
| "mb_converse h (cmd # cmds) w =
     (case mb_handle h cmd w of (r, w') \<Rightarrow>
        if cmd = MbQuit then ([r], w')
        else (case mb_converse h cmds w' of (rs, w'') \<Rightarrow> (r # rs, w'')))"

definition mb_reply_bytes :: "mb_reply \<Rightarrow> bytes" where
  "mb_reply_bytes r = line_bytes (fst r) @ (case snd r of None \<Rightarrow> [] | Some b \<Rightarrow> blob_bytes b)"

definition mb_reply_fits :: "mb_reply \<Rightarrow> bool" where
  "mb_reply_fits r \<longleftrightarrow> length (fst r) \<le> MAX_LINE \<and> (case snd r of None \<Rightarrow> True | Some b \<Rightarrow> length b \<le> MAX_BLOB)"

text \<open>Commands whose line carries their arguments.\<close>

abbreviation no_space :: "rstr \<Rightarrow> bool" where
  "no_space s \<equiv> CHR '' '' \<notin> set s"

fun mb_line_of :: "mb_command \<Rightarrow> rstr" where
  "mb_line_of (MbSend s r m p b) = ''SEND '' @ s @ '' '' @ r @ '' '' @ m @ '' '' @ payload_str p"
| "mb_line_of (MbRegister u pw k ivk) =
     ''REGISTER '' @ u @ '' '' @ pw @ '' '' @ k @ (case ivk of None \<Rightarrow> [] | Some i \<Rightarrow> '' '' @ i)"
| "mb_line_of (MbAttest u m) = ''ATTEST '' @ u @ '' '' @ mode_text m"
| "mb_line_of (MbEmulate u p) = ''EMULATE '' @ u"
| "mb_line_of MbStatus = ''STATUS''"
| "mb_line_of MbQuit = ''QUIT''"

fun mb_blob_of :: "emulate_json \<Rightarrow> mb_command \<Rightarrow> bytes option" where
  "mb_blob_of M (MbSend s r m p b) = Some b"
| "mb_blob_of M (MbEmulate u p) = Some (emu_to_json M p)"
| "mb_blob_of M _ = None"

fun mb_args_ok :: "emulate_json \<Rightarrow> mb_command \<Rightarrow> bool" where
  "mb_args_ok M (MbSend s r m p b) = (no_space s \<and> no_space r \<and> no_space m)"
| "mb_args_ok M (MbRegister u pw k ivk) =
     (no_space u \<and> no_space pw \<and> no_space k \<and> u \<noteq> [] \<and> pw \<noteq> [] \<and> k \<noteq> [])"
| "mb_args_ok M (MbAttest u m) = no_space u"
| "mb_args_ok M (MbEmulate u p) =
     (no_space u \<and> u \<noteq> [] \<and> emu_read M (from_utf8_lossy (emu_write M p)) = Some p)"
| "mb_args_ok M _ = True"

definition mb_fits :: "emulate_json \<Rightarrow> mb_command \<Rightarrow> bool" where
  "mb_fits M cmd \<longleftrightarrow> mb_args_ok M cmd \<and> line_fits (mb_line_of cmd) \<and>
     (case mb_blob_of M cmd of None \<Rightarrow> True | Some b \<Rightarrow> length b \<le> MAX_BLOB)"

lemma mk_wr_line: "length l \<le> MAX_LINE \<Longrightarrow> mk_wr (write_line l) c = (Inr (), c\<lparr>mk_out := mk_out c @ line_bytes l\<rparr>)"
  by (simp add: mk_wr_def write_line_def line_bytes_eq)

lemma mk_wr_blob: "length b \<le> MAX_BLOB \<Longrightarrow> mk_wr (write_blob b) c = (Inr (), c\<lparr>mk_out := mk_out c @ blob_bytes b\<rparr>)"
  by (simp add: mk_wr_def write_blob_ok blob_bytes_eq)

lemma mk_rd_closed: "mk_rd read_line \<lparr>mk_in = [], mk_out = o'\<rparr> = (Inl (Protocol ''connection closed''), \<lparr>mk_in = [], mk_out = o'\<rparr>)"
  by (simp add: mk_rd_def)

lemma mb_bytes_eq:
  assumes "mb_fits M cmd"
  shows "mb_bytes M cmd = line_bytes (mb_line_of cmd) @ (case mb_blob_of M cmd of None \<Rightarrow> [] | Some b \<Rightarrow> blob_bytes b)"
proof -
  have eta: "\<lparr>ep_sender_name = ep_sender_name p, ep_sender_address = ep_sender_address p,
      ep_amount = ep_amount p, ep_invoice = ep_invoice p\<rparr> = p" for p :: emulate_payload by simp
  have "length (mb_line_of cmd) \<le> MAX_LINE" using assms by (simp add: mb_fits_def line_fits_def)
  with assms show ?thesis
    by (cases cmd) (simp_all add: mb_fits_def wrote_def mbc_send_def mbc_register_def mbc_attest_def mbc_emulate_def
        mbc_status_def mbc_quit_def bind_s_ok[OF mk_wr_line] bind_s_ok[OF mk_wr_blob] mk_rd_closed eta)
qed

subsection \<open>Parsing\<close>

lemma splitn_sep: "c \<notin> set a \<Longrightarrow> splitn (Suc (Suc n)) c (a @ c # b) = a # splitn (Suc n) c b"
  by simp

lemma splitn_last: "c \<notin> set a \<Longrightarrow> splitn (Suc n) c a = [a]"
  by (cases n) simp_all

lemma five: "(5::nat) = Suc (Suc (Suc (Suc (Suc 0))))"
  by simp

lemma split_word: "no_space v \<Longrightarrow> splitn (Suc (Suc n)) (CHR '' '') (v @ '' '' @ r) = v # splitn (Suc n) (CHR '' '') r"
  by simp

lemmas split_words = split_word[of "''SEND''", simplified] split_word[of "''REGISTER''", simplified]
  split_word[of "''ATTEST''", simplified] split_word[of "''EMULATE''", simplified]

lemma mb_parts:
  assumes "mb_args_ok M cmd"
  shows "splitn 5 (CHR '' '') (mb_line_of cmd) =
    (case cmd of
       MbSend s r m p b \<Rightarrow> [''SEND'', s, r, m, payload_str p]
     | MbRegister u pw k ivk \<Rightarrow> [''REGISTER'', u, pw, k] @ (case ivk of None \<Rightarrow> [] | Some i \<Rightarrow> [i])
     | MbAttest u m \<Rightarrow> [''ATTEST'', u, mode_text m]
     | MbEmulate u p \<Rightarrow> [''EMULATE'', u]
     | MbStatus \<Rightarrow> [''STATUS'']
     | MbQuit \<Rightarrow> [''QUIT''])"
proof -
  have m: "no_space (mode_text x)" for x by (cases x) (simp_all add: mode_text_def)
  show ?thesis using assms m unfolding five
    by (cases cmd) (simp_all add: split_words splitn_last split: option.splits)
qed

lemma upper_mb_verbs [simp]:
  "to_ascii_uppercase ''SEND'' = ''SEND''" "to_ascii_uppercase ''REGISTER'' = ''REGISTER''"
  "to_ascii_uppercase ''ATTEST'' = ''ATTEST''" "to_ascii_uppercase ''EMULATE'' = ''EMULATE''"
  by code_simp+

lemma mb_payload_str [simp]: "mb_payload (Some (payload_str p)) = Some p"
  by (cases p) (simp_all add: mb_payload_def payload_str_def)

lemma mb_mode_text [simp]: "mb_mode (Some (mode_text m)) = Some m"
  by (cases m) (simp_all add: mb_mode_def mode_text_def)

lemma mb_line_ok: "length l \<le> MAX_LINE \<Longrightarrow> mb_line l c = (None, c\<lparr>mc_out := mc_out c @ line_bytes l\<rparr>)"
  by (simp add: mb_line_def write_line_def line_bytes_eq)

lemma nth_opt_4 [simp]: "nth_opt (a # b # c # d # xs) 4 = nth_opt xs 0"
  by (simp add: eval_nat_numeral)

lemma serve_turn_command:
  assumes fit: "mb_fits M cmd" and inp: "mc_in c = mb_bytes M cmd @ rest"
    and h: "mb_handle h cmd (mc_world c) = (r, w')" and rf: "mb_reply_fits r"
  shows "serve_turn M h c = (if cmd = MbQuit then Some (Inr ()) else None,
    \<lparr>mc_world = w', mc_in = rest, mc_out = mc_out c @ mb_reply_bytes r\<rparr>)"
proof -
  define tail where "tail = (case mb_blob_of M cmd of None \<Rightarrow> [] | Some b \<Rightarrow> blob_bytes b) @ rest"
  have rl: "read_line (mc_in c) = (Inr (mb_line_of cmd), tail)"
    using fit line_frame.rd_wr[of "mb_line_of cmd" tail] by (simp add: inp mb_bytes_eq[OF fit] tail_def mb_fits_def)
  have rb: "read_blob tail = (Inr b, rest)" if "mb_blob_of M cmd = Some b" for b
    using that fit blob_frame.rd_wr[of b rest] by (simp add: tail_def mb_fits_def blob_fits_def)
  have parts: "mb_args_ok M cmd" using fit by (simp add: mb_fits_def)
  note parse = mb_parts[OF parts]
  show ?thesis
  proof (cases cmd)
    case (MbSend s r1 m p b)
    with rl rb parse h rf show ?thesis
      by (auto simp: serve_turn_def on_send_def arg_def unwrap_or_def mb_reply_fits_def mb_reply_bytes_def mb_line_ok
          split: prod.splits send_result.splits)
  next
    case (MbRegister u pw k ivk)
    with rl parse parts h rf show ?thesis
      by (cases ivk) (auto simp: serve_turn_def on_register_def arg_def unwrap_or_def mb_reply_fits_def mb_reply_bytes_def
          mb_line_ok tail_def split: prod.splits register_result.splits)
  next
    case (MbAttest u m)
    with rl parse h rf show ?thesis
      by (auto simp: serve_turn_def on_attest_def arg_def unwrap_or_def mb_reply_fits_def mb_reply_bytes_def mb_line_ok
          tail_def write_blob_ok blob_bytes_eq split: prod.splits attest_result.splits)
  next
    case (MbEmulate u p)
    with rl rb parse parts h rf show ?thesis
      by (auto simp: serve_turn_def on_emulate_def arg_def unwrap_or_def mb_reply_fits_def mb_reply_bytes_def mb_line_ok
          emu_from_json_def emu_to_json_def split: prod.splits emulate_result.splits)
  qed (use rl parse h rf in \<open>auto simp: serve_turn_def arg_def unwrap_or_def mb_reply_fits_def mb_reply_bytes_def
      mb_line_ok tail_def\<close>)
qed

lemma serve_turn_eof: "mc_in c = [] \<Longrightarrow> serve_turn M h c = (Some (Inr ()), c\<lparr>mc_in := []\<rparr>)"
  by (simp add: serve_turn_def)

lemma serve_loop_converse:
  assumes "list_all (mb_fits M) cmds" "mc_in c = concat (map (mb_bytes M) cmds)"
    and "mb_converse h cmds (mc_world c) = (rs, w')" "list_all mb_reply_fits rs"
  shows "\<exists>rest. serve_loop M h c =
    (Inr (), \<lparr>mc_world = w', mc_in = rest, mc_out = mc_out c @ concat (map mb_reply_bytes rs)\<rparr>)"
  using assms
proof (induction cmds arbitrary: c rs)
  case Nil
  then show ?case by (subst serve_loop.simps) (cases c, auto simp: serve_turn_eof)
next
  case (Cons cmd cmds)
  obtain r w1 where h: "mb_handle h cmd (mc_world c) = (r, w1)" by fastforce
  define c1 where "c1 = \<lparr>mc_world = w1, mc_in = concat (map (mb_bytes M) cmds), mc_out = mc_out c @ mb_reply_bytes r\<rparr>"
  have t: "serve_turn M h c = (if cmd = MbQuit then Some (Inr ()) else None, c1)"
    unfolding c1_def by (rule serve_turn_command[OF _ _ h])
      (use Cons.prems h in \<open>auto split: if_splits prod.splits\<close>)
  show ?case
  proof (cases "cmd = MbQuit")
    case True
    with t h Cons.prems(3) show ?thesis by (subst serve_loop.simps) (auto simp: c1_def)
  next
    case False
    then obtain rs1 where r1: "mb_converse h cmds w1 = (rs1, w')" "rs = r # rs1"
      using Cons.prems(3) h by (auto split: prod.splits)
    have "\<exists>rest. serve_loop M h c1 =
      (Inr (), \<lparr>mc_world = w', mc_in = rest, mc_out = mc_out c1 @ concat (map mb_reply_bytes rs1)\<rparr>)"
      using Cons.prems r1 by (intro Cons.IH) (simp_all add: c1_def)
    with False t r1 show ?thesis by (subst serve_loop.simps) (simp add: c1_def)
  qed
qed

subsection \<open>The handler as an interface\<close>

text \<open>
  What a control connection may do to the world is what its handler may do: \<open>R\<close> is any preorder on
  worlds that contains every call of the handler.
\<close>

locale mailbox_contract =
  fixes h :: "'w mailbox_handler" and R :: "'w \<Rightarrow> 'w \<Rightarrow> bool"
  assumes R_refl: "R w w"
    and R_trans: "R u v \<Longrightarrow> R v w \<Longrightarrow> R u w"
    and R_send: "R w (snd (h_send h sender recipient mid p body w))"
    and R_attest: "R w (snd (h_attest h user mode w))"
    and R_register: "R w (snd (h_register h username password pubkey ivk w))"
    and R_emulate: "R w (snd (h_emulate h user pl w))"
begin

lemma handler_R:
  "R (mc_world c) (mc_world (snd (on_send h parts c)))"
  "R (mc_world c) (mc_world (snd (on_register h parts c)))"
  "R (mc_world c) (mc_world (snd (on_attest h parts c)))"
  "R (mc_world c) (mc_world (snd (on_emulate M h parts c)))"
proof -
  show "R (mc_world c) (mc_world (snd (on_send h parts c)))"
    using R_send[of "mc_world c" "arg parts 1" "arg parts 2" "arg parts 3"]
    by (auto simp: on_send_def R_refl split: option.splits prod.splits sum.splits send_result.splits) (metis snd_conv)+
  show "R (mc_world c) (mc_world (snd (on_register h parts c)))"
    using R_register[of "mc_world c" "arg parts 1" "arg parts 2" "arg parts 3" "nth_opt parts 4"]
    by (auto simp: on_register_def R_refl split: prod.splits register_result.splits)
  show "R (mc_world c) (mc_world (snd (on_attest h parts c)))"
    using R_attest[of "mc_world c" "arg parts 1"]
    by (auto simp: on_attest_def R_refl split: option.splits prod.splits sum.splits attest_result.splits dest!: mb_line_eq)
       (metis snd_conv)+
  show "R (mc_world c) (mc_world (snd (on_emulate M h parts c)))"
    using R_emulate[of "mc_world c" "arg parts 1"]
    by (auto simp: on_emulate_def R_refl split: option.splits prod.splits sum.splits emulate_result.splits) (metis snd_conv)+
qed

lemma quit_R: "R (mc_world x) (mc_world (snd (case mb_line l x of (None, c') \<Rightarrow> (Some (Inr ()), c') | (Some r, c') \<Rightarrow> (Some r, c'))))"
proof (cases "mb_line l x")
  case (Pair t c')
  then have "mc_world c' = mc_world x" by (simp add: mb_line_eq)
  with Pair show ?thesis by (cases t) (simp_all add: R_refl)
qed

lemma turn_R: "R (mc_world c) (mc_world (snd (serve_turn M h c)))"
proof (cases "read_line (mc_in c)")
  case (Pair r rest)
  show ?thesis
  proof (cases r)
    case (Inl e)
    with Pair show ?thesis by (simp add: serve_turn_def R_refl)
  next
    case (Inr line)
    have "R (mc_world (c\<lparr>mc_in := rest\<rparr>)) (mc_world (snd (serve_turn M h c)))"
      unfolding serve_turn_def Pair Inr prod.case sum.case Let_def
      by (intro if_split[where P = "\<lambda>t. R _ (mc_world (snd t))", THEN iffD2] conjI impI)
         (rule handler_R quit_R | simp only: mb_line_in R_refl)+
    then show ?thesis by simp
  qed
qed

lemma loop_R: "R (mc_world c) (mc_world (snd (serve_loop M h c)))"
proof (induction "length (mc_in c)" arbitrary: c rule: less_induct)
  case less
  obtain t c1 where turn: "serve_turn M h c = (t, c1)" by fastforce
  have r: "R (mc_world c) (mc_world c1)" using turn_R[of c M] by (simp add: turn)
  show ?case
  proof (cases t)
    case None
    with less[OF serve_turn_consumes] turn have "R (mc_world c1) (mc_world (snd (serve_loop M h c1)))" by simp
    with r None turn show ?thesis by (subst serve_loop.simps) (auto intro: R_trans)
  next
    case (Some x)
    with r turn show ?thesis by (subst serve_loop.simps) simp
  qed
qed

lemma serve_R: "R w (mc_world (snd (mailbox_serve M h inp w)))"
  using loop_R[of "\<lparr>mc_world = w, mc_in = inp, mc_out = []\<rparr>" M] by (simp add: mailbox_serve_def)

end

subsection \<open>Properties\<close>

text \<open>
  C21. The control channel: on the bytes its client writes for any sequence of commands whose
  arguments hold no separators, the loop makes exactly one handler call per command, with the
  arguments given to the client, in order, up to QUIT; the bytes written are exactly the replies of
  those calls, and the loop ends without an error.
\<close>

theorem mailbox_serve_refines_converse:
  assumes "list_all (mb_fits M) cmds" "mb_converse h cmds w = (rs, w')" "list_all mb_reply_fits rs"
  shows "\<exists>rest. mailbox_serve M h (concat (map (mb_bytes M) cmds)) w =
    (Inr (), \<lparr>mc_world = w', mc_in = rest, mc_out = concat (map mb_reply_bytes rs)\<rparr>)"
  using serve_loop_converse[of M cmds "\<lparr>mc_world = w, mc_in = concat (map (mb_bytes M) cmds), mc_out = []\<rparr>" h rs w']
    assms by (simp add: mailbox_serve_def)

definition demo_emu :: emulate_json where
  "demo_emu = \<lparr>emu_write = (\<lambda>_. []), emu_read = (\<lambda>_. None)\<rparr>"

definition log_handler :: "rstr list mailbox_handler" where
  "log_handler = \<lparr>h_send = (\<lambda>s r m p b w. (SendOk ''sent'', w @ [s, r, m, b])),
     h_attest = (\<lambda>u m w. (AttestError ''no'', w)), h_register = (\<lambda>u pw k i w. (RegisterOk, w @ [u, pw, k])),
     h_status = ''up'', h_emulate = (\<lambda>u p w. (EmulateError ''no'', w))\<rparr>"

definition mb_demo :: "mb_command list" where
  "mb_demo = [MbSend ''al'' ''bob@b'' ''m1'' Sealed ''hi'', MbRegister ''eve'' ''pw'' ''00'' None, MbQuit]"

lemma mb_demo_fits: "list_all (mb_fits M) mb_demo"
  by (simp add: mb_demo_def mb_fits_def line_fits_def line_ok_def LF_def MAX_LINE_def MAX_BLOB_def payload_str_def)

lemma mb_demo_converse:
  "mb_converse log_handler mb_demo [] =
     ([(''OK sent'', None), (''OK registered'', None), (''OK bye'', None)], [''al'', ''bob@b'', ''m1'', ''hi'', ''eve'', ''pw'', ''00''])"
  "list_all mb_reply_fits [(''OK sent'', None), (''OK registered'', None), (''OK bye'', None)]"
  by (simp_all add: mb_demo_def log_handler_def mb_reply_fits_def MAX_LINE_def)

theorem mailbox_serve_refines_converse_witness:
  "\<exists>rest. mailbox_serve demo_emu log_handler (concat (map (mb_bytes demo_emu) mb_demo)) [] =
    (Inr (), \<lparr>mc_world = [''al'', ''bob@b'', ''m1'', ''hi'', ''eve'', ''pw'', ''00''], mc_in = rest,
       mc_out = concat (map mb_reply_bytes [(''OK sent'', None), (''OK registered'', None), (''OK bye'', None)])\<rparr>)"
  by (rule mailbox_serve_refines_converse[OF mb_demo_fits mb_demo_converse])

text \<open>
  C35. A SEND whose payload word is not exactly \<open>sealed\<close> or \<open>plaintext\<close> is refused without reading the
  blob that follows it: the loop takes the blob's header for an unknown command and then executes
  the lines of the message body as commands of the control channel.
\<close>

theorem malformed_send_executes_body:
  assumes bad: "no_space s" "no_space r" "no_space m" "bad \<noteq> ''sealed''" "bad \<noteq> ''plaintext''"
    and fit: "line_fits (''SEND '' @ s @ '' '' @ r @ '' '' @ m @ '' '' @ bad)"
    and cmds: "list_all (mb_fits M) cmds" "mb_converse h cmds w = (rs, w')" "list_all mb_reply_fits rs"
    and body: "body = concat (map (mb_bytes M) cmds)" "length body \<le> MAX_BLOB"
  shows "\<exists>rest. mailbox_serve M h (line_bytes (''SEND '' @ s @ '' '' @ r @ '' '' @ m @ '' '' @ bad) @ blob_bytes body) w =
    (Inr (), \<lparr>mc_world = w', mc_in = rest,
       mc_out = line_bytes ''ERR malformed SEND'' @ line_bytes ''ERR unknown command'' @ concat (map mb_reply_bytes rs)\<rparr>)"
proof -
  let ?l = "''SEND '' @ s @ '' '' @ r @ '' '' @ m @ '' '' @ bad"
  let ?hd = "''BLOB '' @ show_nat (length body)"
  define c1 where "c1 = \<lparr>mc_world = w, mc_in = blob_bytes body, mc_out = line_bytes ''ERR malformed SEND''\<rparr>"
  define c2 where "c2 = \<lparr>mc_world = w, mc_in = body,
      mc_out = line_bytes ''ERR malformed SEND'' @ line_bytes ''ERR unknown command''\<rparr>"
  have p1: "splitn 5 (CHR '' '') ?l = [''SEND'', s, r, m, bad]" unfolding five using bad by (simp add: split_words)
  have t1: "serve_turn M h \<lparr>mc_world = w, mc_in = line_bytes ?l @ blob_bytes body, mc_out = []\<rparr> = (None, c1)"
    using line_frame.rd_wr[OF fit, of "blob_bytes body"] p1 bad
    by (simp add: serve_turn_def on_send_def arg_def unwrap_or_def mb_payload_def c1_def mb_line_ok MAX_LINE_def)
  have d: "no_space (show_nat n)" "ascii (show_nat n)" "LF \<notin> set (show_nat n)" for n
    using token_no_space token_ascii token_no_newline token_show_nat by (auto simp: LF_def)
  have "length (show_nat (length body)) \<le> 7" using body(2) by (intro show_nat_length) (simp_all add: MAX_BLOB_def)
  then have fit2: "line_fits ?hd" using d by (simp add: line_fits_def line_ok_def LF_def MAX_LINE_def byte_def)
  have "blob_bytes body = line_bytes ?hd @ body"
    using body(2) fit2 by (simp add: blob_bytes_eq line_bytes_eq line_fits_def)
  then have rd: "read_line (blob_bytes body) = (Inr ?hd, body)" using line_frame.rd_wr[OF fit2, of body] by simp
  have "splitn 5 (CHR '' '') ?hd = [''BLOB'', show_nat (length body)]"
    unfolding five using split_word[of "''BLOB''"] d(1) by (simp add: splitn_last)
  moreover have "to_ascii_uppercase ''BLOB'' = ''BLOB''" by code_simp
  ultimately have t2: "serve_turn M h c1 = (None, c2)"
    using rd by (simp add: serve_turn_def arg_def unwrap_or_def c1_def c2_def mb_line_ok MAX_LINE_def)
  have "\<exists>rest. serve_loop M h c2 = (Inr (), \<lparr>mc_world = w', mc_in = rest, mc_out = mc_out c2 @ concat (map mb_reply_bytes rs)\<rparr>)"
    using cmds body by (intro serve_loop_converse) (simp_all add: c2_def)
  moreover have "serve_loop M h \<lparr>mc_world = w, mc_in = line_bytes ?l @ blob_bytes body, mc_out = []\<rparr> = serve_loop M h c2"
    by (subst serve_loop.simps, simp only: t1) (subst serve_loop.simps, simp add: t2)
  ultimately show ?thesis by (simp add: mailbox_serve_def c2_def)
qed

theorem malformed_send_executes_body_witness:
  "\<exists>rest. mailbox_serve demo_emu log_handler
      (line_bytes (''SEND '' @ ''al'' @ '' '' @ ''bob@b'' @ '' '' @ ''m1'' @ '' '' @ ''SEALED'') @
       blob_bytes (concat (map (mb_bytes demo_emu) mb_demo))) [] =
    (Inr (), \<lparr>mc_world = [''al'', ''bob@b'', ''m1'', ''hi'', ''eve'', ''pw'', ''00''], mc_in = rest,
       mc_out = line_bytes ''ERR malformed SEND'' @ line_bytes ''ERR unknown command'' @
         concat (map mb_reply_bytes [(''OK sent'', None), (''OK registered'', None), (''OK bye'', None)])\<rparr>)"
proof (rule malformed_send_executes_body[OF _ _ _ _ _ _ mb_demo_fits mb_demo_converse refl])
  show "line_fits (''SEND '' @ ''al'' @ '' '' @ ''bob@b'' @ '' '' @ ''m1'' @ '' '' @ ''SEALED'')"
    by (simp add: line_fits_def line_ok_def LF_def MAX_LINE_def)
  have "length (mb_bytes demo_emu c) \<le> 100" if "c \<in> set mb_demo" for c
  proof -
    have "mb_fits demo_emu c" using that mb_demo_fits[of demo_emu] by (simp add: list_all_iff)
    from mb_bytes_eq[OF this] that show ?thesis
      using show_nat_length[of "Suc (Suc 0)" 1]
      by (auto simp: mb_demo_def line_bytes_eq blob_bytes_eq MAX_LINE_def MAX_BLOB_def CRLF_def payload_str_def)
  qed
  then have "\<forall>x \<in> set (map (length \<circ> mb_bytes demo_emu) mb_demo). x \<le> 100" by auto
  then show "length (concat (map (mb_bytes demo_emu) mb_demo)) \<le> MAX_BLOB"
    by (simp add: length_concat mb_demo_def MAX_BLOB_def)
qed simp_all

end
