(* ===== verification/Password.thy ===== *)
theory Password
  imports Rust_Str
begin

text \<open>
  Password hashing of the mail store (\<^verbatim>\<open>talk-mailstore/src/password.rs\<close>) over the crate \<^verbatim>\<open>argon2\<close>, whose operations
  are functions of a record: hashing with a salt, the text form of a hash, the parser of that form and the
  comparison with a password. What the crate promises of them is a predicate on that record.
\<close>

datatype argon2_algorithm = Argon2d | Argon2i | Argon2id

datatype argon2_version = V0x10 | V0x13

text \<open>A hash in the form that \<^verbatim>\<open>PasswordHash\<close> has: its parameters, the salt and the output.\<close>

record phc_hash =
  ph_algorithm :: argon2_algorithm
  ph_version :: argon2_version
  ph_params :: rstr
  ph_salt :: bytes
  ph_output :: bytes

record argon2_ext =
  ar_default_params :: rstr
  ar_hash :: "argon2_algorithm \<Rightarrow> argon2_version \<Rightarrow> rstr \<Rightarrow> bytes \<Rightarrow> bytes \<Rightarrow> (rstr, phc_hash) result"
  ar_to_string :: "phc_hash \<Rightarrow> rstr"
  ar_parse :: "rstr \<Rightarrow> (rstr, phc_hash) result"
  ar_verify :: "bytes \<Rightarrow> phc_hash \<Rightarrow> bool"

text \<open>The salt is drawn by the caller of the model; a string is its bytes.\<close>

definition hash_password :: "argon2_ext \<Rightarrow> bytes \<Rightarrow> rstr \<Rightarrow> (rstr, rstr) result" where
  "hash_password A salt password =
     (case ar_hash A Argon2id V0x13 (ar_default_params A) password salt of
        Inl e \<Rightarrow> Inl e
      | Inr h \<Rightarrow> Inr (ar_to_string A h))"

definition verify_password :: "argon2_ext \<Rightarrow> rstr \<Rightarrow> rstr \<Rightarrow> (rstr, bool) result" where
  "verify_password A password hash =
     (case ar_parse A hash of Inl e \<Rightarrow> Inl e | Inr parsed \<Rightarrow> Inr (ar_verify A password parsed))"

subsection \<open>What the hash function promises\<close>

text \<open>
  The text form reads back as the hash it was made of, a hash verifies the password it was made of, and
  no other one (no collisions).
\<close>

definition argon2_ok :: "argon2_ext \<Rightarrow> bool" where
  "argon2_ok A \<longleftrightarrow>
     (\<forall>alg ver pars pw salt h. ar_hash A alg ver pars pw salt = Inr h \<longrightarrow>
        ar_parse A (ar_to_string A h) = Inr h \<and> (\<forall>pw'. ar_verify A pw' h \<longleftrightarrow> pw' = pw))"

lemma verify_hash:
  assumes "argon2_ok A" "hash_password A salt pw = Inr text"
  shows "verify_password A pw' text = Inr (pw' = pw)"
  using assms unfolding hash_password_def verify_password_def argon2_ok_def by (fastforce split: sum.splits)

text \<open>Equal texts come from equal passwords, whatever the salts.\<close>

lemma hash_password_inj:
  assumes "argon2_ok A" "hash_password A salt pw = Inr text" "hash_password A salt' pw' = Inr text"
  shows "pw = pw'"
  using verify_hash[OF assms(1,2), of pw'] verify_hash[OF assms(1,3), of pw'] by simp

text \<open>A hash function whose output is the password itself, and whose text form is the salt in 16 characters before it.\<close>

definition demo_argon2 :: argon2_ext where
  "demo_argon2 =
     \<lparr>ar_default_params = ''m=19456'',
      ar_hash = (\<lambda>alg ver pars pw salt.
        if length salt = 16
        then Inr \<lparr>ph_algorithm = Argon2id, ph_version = V0x13, ph_params = ''m=19456'', ph_salt = salt, ph_output = pw\<rparr>
        else Inl ''salt invalid''),
      ar_to_string = (\<lambda>h. ph_salt h @ ph_output h),
      ar_parse = (\<lambda>t. if length t < 16 then Inl ''too short''
        else Inr \<lparr>ph_algorithm = Argon2id, ph_version = V0x13, ph_params = ''m=19456'', ph_salt = take 16 t, ph_output = drop 16 t\<rparr>),
      ar_verify = (\<lambda>pw h. ph_output h = pw)\<rparr>"

lemma demo_argon2_ok: "argon2_ok demo_argon2"
  by (auto simp: argon2_ok_def demo_argon2_def split: if_splits)

lemma demo_hash: "length salt = 16 \<Longrightarrow> hash_password demo_argon2 salt pw = Inr (salt @ pw)"
  by (simp add: hash_password_def demo_argon2_def)

end
