(* ===== verification/Secure.thy ===== *)
theory Secure
  imports Sink Exchange Dns Mailbox_Proto Password
begin

text \<open>
  What a local client can ask of the daemon (\<^verbatim>\<open>talkd/src/secure.rs\<close>): SEND, ATTEST, REGISTER, STATUS
  and EMULATE, over the daemon's world. The two resolvers and the network are functions of the
  service; the operations of the crate \<^verbatim>\<open>argon2\<close> and the texts of foreign errors are a record of
  functions. The random bytes and clock readings an outbound flow may use are taken when it starts.
\<close>

subsection \<open>Texts of errors\<close>

record secure_ext =
  sx_argon2 :: argon2_ext
  sx_io_text :: "io_error \<Rightarrow> rstr"
  sx_sqlite_text :: "sqlite_error \<Rightarrow> rstr"
  sx_template_io_text :: rstr
  sx_version :: rstr

definition show_resolver_error :: "resolver_error \<Rightarrow> rstr" where
  "show_resolver_error e =
     (case e of
        NotFound d \<Rightarrow> ''no domain key found for '' @ d
      | MalformedTxt m \<Rightarrow> ''malformed TXT record: '' @ m
      | InvalidDomainKey m \<Rightarrow> ''invalid domain key: '' @ m
      | NoSrv d \<Rightarrow> ''no SRV record found for '' @ d
      | Http m \<Rightarrow> ''http: '' @ m)"

definition show_framing_error :: "secure_ext \<Rightarrow> framing_error \<Rightarrow> rstr" where
  "show_framing_error S e =
     (case e of
        FramingIo x \<Rightarrow> ''io: '' @ sx_io_text S x
      | Protocol m \<Rightarrow> ''protocol error: '' @ m
      | LineTooLong n \<Rightarrow> ''line too long (max '' @ show_nat n @ '' bytes)''
      | BlobTooLarge n \<Rightarrow> ''blob too large (max '' @ show_nat n @ '' bytes)'')"

definition show_client_error :: "secure_ext \<Rightarrow> client_error \<Rightarrow> rstr" where
  "show_client_error S e =
     (case e of
        ClFraming x \<Rightarrow> ''framing: '' @ show_framing_error S x
      | ClIo m \<Rightarrow> ''transport: '' @ m
      | BadGreeting m \<Rightarrow> ''unexpected greeting: '' @ m
      | ClRejected m \<Rightarrow> ''server rejected: '' @ m
      | ClRetryLater m \<Rightarrow> ''transient server failure: '' @ m
      | ClAuth m \<Rightarrow> ''authentication failed: '' @ m
      | BadAttestation m \<Rightarrow> ''address attestation invalid: '' @ m
      | ClOrder m \<Rightarrow> ''protocol order error: '' @ m)"

definition show_store_error :: "secure_ext \<Rightarrow> store_error \<Rightarrow> rstr" where
  "show_store_error S e =
     (case e of
        UserNotFound n \<Rightarrow> ''user '' @ n @ '' not found''
      | UserIdNotFound i \<Rightarrow> ''user id '' @ show_int i @ '' not found''
      | MailboxNotFound \<Rightarrow> ''mailbox not found''
      | MessageNotFound \<Rightarrow> ''message not found''
      | DuplicateMessage m \<Rightarrow> ''duplicate message id '' @ m
      | Storage x \<Rightarrow> ''storage: '' @ sx_sqlite_text S x
      | Poisoned \<Rightarrow> ''internal lock poisoned'')"

definition show_template_error :: "secure_ext \<Rightarrow> template_error \<Rightarrow> rstr" where
  "show_template_error S e =
     (case e of TemplateIo \<Rightarrow> ''io: '' @ sx_template_io_text S | TemplateRender m \<Rightarrow> ''template parse/render error: '' @ m)"

subsection \<open>The service\<close>

record secure_service =
  sv_sender_domain :: rstr
  sv_send_endpoint :: "rstr option"
  sv_resolver :: "rstr \<Rightarrow> (resolver_error, bytes) result"
  sv_endpoint_resolver :: "rstr \<Rightarrow> (resolver_error, rstr) result"
  sv_domain_key :: bytes
  sv_sink :: sink_cfg
  sv_template_path :: "rstr option"
  sv_data_dir :: rstr

definition DOH_ENDPOINT :: rstr where "DOH_ENDPOINT = ''https://cloudflare-dns.com/dns-query''"

definition service_new :: "ext \<Rightarrow> dns_ext \<Rightarrow> env \<Rightarrow> rstr \<Rightarrow> rstr option \<Rightarrow> bytes \<Rightarrow> secure_service" where
  "service_new E X v sd ep key =
     \<lparr>sv_sender_domain = sd, sv_send_endpoint = ep, sv_resolver = doh_resolving_key E X v DOH_ENDPOINT,
      sv_endpoint_resolver = doh_resolve_endpoint X v DOH_ENDPOINT, sv_domain_key = key, sv_sink = sink_new,
      sv_template_path = None, sv_data_dir = []\<rparr>"

definition service_with_sink :: "secure_service \<Rightarrow> sink_cfg \<Rightarrow> secure_service" where
  "service_with_sink s k = s\<lparr>sv_sink := k\<rparr>"

definition service_with_template :: "secure_service \<Rightarrow> rstr option \<Rightarrow> rstr \<Rightarrow> secure_service" where
  "service_with_template s p d = s\<lparr>sv_template_path := p, sv_data_dir := d\<rparr>"

definition service_with_key_resolver :: "secure_service \<Rightarrow> (rstr \<Rightarrow> (resolver_error, bytes) result) \<Rightarrow> secure_service" where
  "service_with_key_resolver s r = s\<lparr>sv_resolver := r\<rparr>"

definition service_with_endpoint_resolver :: "secure_service \<Rightarrow> (rstr \<Rightarrow> (resolver_error, rstr) result) \<Rightarrow> secure_service" where
  "service_with_endpoint_resolver s r = s\<lparr>sv_endpoint_resolver := r\<rparr>"

definition service_template :: "template_ext \<Rightarrow> secure_service \<Rightarrow> world \<Rightarrow> (template_error, template_spec) result" where
  "service_template T s w = resolve_template T (w_files w) (sv_template_path s) (sv_data_dir s)"

definition build_registration_attestation ::
    "ext \<Rightarrow> json_ext \<Rightarrow> secure_service \<Rightarrow> rstr \<Rightarrow> bytes \<Rightarrow> rstr option \<Rightarrow> int \<Rightarrow> rstr" where
  "build_registration_attestation E J s username mpk ivk now =
     reg_to_json J (reg_sign E (sv_sender_domain s) username mpk ivk now (sv_domain_key s))"

subsection \<open>Recording an outbound invoice\<close>

text \<open>The copy in the sender's Sent mailbox, linked to its ledger entry.\<close>

definition render_sent :: "template_ext \<Rightarrow> secure_service \<Rightarrow> rstr \<Rightarrow> bytes \<Rightarrow> world \<Rightarrow> (rstr \<times> bytes) \<times> world" where
  "render_sent T s sender body w =
     (let disp = sender @ ''@'' @ sv_sender_domain s in
      case service_template T s w of
        Inl _ \<Rightarrow> ((''Sent invoice'', body), w)
      | Inr spec \<Rightarrow>
          (case tick w of (now, w') \<Rightarrow>
             (case render_invoice T spec disp disp [] (from_utf8_lossy body) (received_at T now) of
                Inr (subject, b) \<Rightarrow> ((subject, b), w')
              | Inl _ \<Rightarrow> ((''Sent invoice'', body), w'))))"

definition sent_copy :: "template_ext \<Rightarrow> secure_service \<Rightarrow> int \<Rightarrow> rstr \<Rightarrow> rstr \<Rightarrow> rstr \<Rightarrow> bytes \<Rightarrow> world \<Rightarrow> world" where
  "sent_copy T s tid sender recipient mid body w =
     (case fst (get_user sender (w_store w)) of
        Inr (Some user) \<Rightarrow>
          (case render_sent T s sender body w of ((subject, stored_body), w1) \<Rightarrow>
             (let msg = \<lparr>nm_message_id = mid, nm_subject = subject, nm_body = stored_body, nm_flags = flags_default,
                         nm_sender = recipient, nm_trust_state = ''unverified''\<rparr> in
              case tick w1 of (now, w2) \<Rightarrow>
              (case on_store (append_message_to now (user_id user) SENT msg) w2 of
                 (Inr meta, w3) \<Rightarrow>
                   (case tick w3 of (now', w4) \<Rightarrow> snd (on_store (tx_link_message now' tid (mm_id meta)) w4))
               | (Inl _, w3) \<Rightarrow> w3)))
      | _ \<Rightarrow> w)"

definition outbound_tx :: "secure_service \<Rightarrow> rstr \<Rightarrow> rstr \<Rightarrow> rstr \<Rightarrow> payload \<Rightarrow> bytes \<Rightarrow> tx_state \<Rightarrow> new_transaction" where
  "outbound_tx s sender recipient mid p body st =
     \<lparr>nt_direction = TxOut, nt_state = st, nt_sender_mailbox = sender @ ''@'' @ sv_sender_domain s,
      nt_recipient_mailbox = recipient, nt_amount = [], nt_binding = None, nt_message_id = mid,
      nt_outbound_body = Some body, nt_payload = payload_str p\<rparr>"

definition record_outbound_tx ::
    "template_ext \<Rightarrow> secure_service \<Rightarrow> rstr \<Rightarrow> rstr \<Rightarrow> rstr \<Rightarrow> payload \<Rightarrow> bytes \<Rightarrow> tx_state \<Rightarrow> world \<Rightarrow> world" where
  "record_outbound_tx T s sender recipient mid p body st w =
     (case fst (tx_by_message_id TxOut mid (w_store w)) of
        Inr (Some existing) \<Rightarrow>
          (case tick w of (now, w1) \<Rightarrow>
             sent_copy T s (tx_id existing) sender recipient mid body
               (snd (on_store (tx_transition now (tx_id existing) st) w1)))
      | _ \<Rightarrow>
          (case tick w of (now, w1) \<Rightarrow>
          (case on_store (tx_create now (outbound_tx s sender recipient mid p body st)) w1 of
             (Inr t, w2) \<Rightarrow> sent_copy T s (tx_id t) sender recipient mid body w2
           | (Inl _, w2) \<Rightarrow> w2)))"

subsection \<open>Commands\<close>

definition secure_send ::
    "ext \<Rightarrow> json_ext \<Rightarrow> template_ext \<Rightarrow> secure_ext \<Rightarrow> network \<Rightarrow> secure_service \<Rightarrow>
     rstr \<Rightarrow> rstr \<Rightarrow> rstr \<Rightarrow> payload \<Rightarrow> bytes \<Rightarrow> world \<Rightarrow> send_result \<times> world" where
  "secure_send E J T S net s sender recipient mid p body w =
     (let failed = (\<lambda>st text w. (SendError text, record_outbound_tx T s sender recipient mid p body st w)) in
      if sender = [] then (SendError ''sender username is required'', w)
      else (case nth_opt (split_on (CHR ''@'') recipient) 1 of
              None \<Rightarrow> (SendError ''malformed recipient mailbox'', w)
            | Some receiver \<Rightarrow>
           (case sv_resolver s receiver of
              Inl e \<Rightarrow> failed TxFailed (''cannot resolve domain key: '' @ show_resolver_error e) w
            | Inr pub \<Rightarrow>
           (case (case sv_endpoint_resolver s receiver of
                    Inr ep \<Rightarrow> Inr ep
                  | Inl e \<Rightarrow> (case sv_send_endpoint s of Some ep \<Rightarrow> Inr ep | None \<Rightarrow> Inl e)) of
              Inl e \<Rightarrow> failed TxFailed (''cannot resolve endpoint: '' @ show_resolver_error e) w
            | Inr endpoint \<Rightarrow>
           (case connect_tcp_tls net endpoint receiver (sv_sender_domain s) of
              Inl e \<Rightarrow> failed TxRetrying (''connect: '' @ show_client_error S e) w
            | Inr c \<Rightarrow>
                (let user = unwrap_or [] (nth_opt (split_on (CHR ''@'') recipient) 0);
                     (rnd, w1) = draw 16 w; (issued, w2) = tick w1; (now, w3) = tick w2 in
                 case fst (send_invoice_over E J rnd issued now sender user pub mid p body c) of
                   Inl e \<Rightarrow>
                     failed (case e of ClRetryLater _ \<Rightarrow> TxRetrying | _ \<Rightarrow> TxFailed)
                       (''deliver: '' @ show_client_error S e) w3
                 | Inr _ \<Rightarrow>
                     (SendOk (''delivered '' @ mid @ '' to '' @ recipient),
                      record_outbound_tx T s sender recipient mid p body TxSent w3)))))))"

definition secure_attest :: "ext \<Rightarrow> json_ext \<Rightarrow> secure_service \<Rightarrow> rstr \<Rightarrow> attestation_mode \<Rightarrow> world \<Rightarrow> attest_result \<times> world" where
  "secure_attest E J s user mode w =
     (if user = [] then (AttestError ''attest requires a user'', w)
      else
        (let (rnd, w') = draw 32 w; (address, pubkey) = mint_pair rnd mode in
         (AttestOk (att_to_json J (att_sign E (sv_sender_domain s) user mode address pubkey (sv_domain_key s))), w')))"

definition decode_hex_32 :: "ext \<Rightarrow> rstr \<Rightarrow> bytes option" where
  "decode_hex_32 E s = (case hex_decode E s of None \<Rightarrow> None | Some b \<Rightarrow> if length b \<noteq> 32 then None else Some b)"

definition secure_register ::
    "ext \<Rightarrow> json_ext \<Rightarrow> secure_ext \<Rightarrow> secure_service \<Rightarrow> rstr \<Rightarrow> rstr \<Rightarrow> rstr \<Rightarrow> rstr option \<Rightarrow> world \<Rightarrow> register_result \<times> world" where
  "secure_register E J S s username password pubkey_hex ivk_hex w =
     (case decode_hex_32 E pubkey_hex of
        None \<Rightarrow> (RegisterError ''pubkey must be 32 bytes of hex'', w)
      | Some pubkey \<Rightarrow>
          if (case ivk_hex of None \<Rightarrow> False | Some h \<Rightarrow> decode_hex_32 E h = None)
          then (RegisterError ''ivk must be 32 bytes of hex'', w)
          else if username = [] \<or> password = [] then (RegisterError ''username and password are required'', w)
          else
            (case draw 16 w of (salt, w1) \<Rightarrow>
            (case hash_password (sx_argon2 S) salt password of
               Inl e \<Rightarrow> (RegisterError (''password hash failed: '' @ e), w1)
             | Inr hash \<Rightarrow>
                 (case tick w1 of (now, w2) \<Rightarrow>
                 (let reg = build_registration_attestation E J s username pubkey ivk_hex now in
                  case tick w2 of (now', w3) \<Rightarrow>
                 (case on_store (create_user_full now' username hash pubkey ivk_hex (Some reg)) w3 of
                    (Inr _, w4) \<Rightarrow> (RegisterOk, w4)
                  | (Inl e, w4) \<Rightarrow> (RegisterError (show_store_error S e), w4)))))))"

definition secure_status :: "secure_ext \<Rightarrow> secure_service \<Rightarrow> rstr" where
  "secure_status S s =
     ''talkd '' @ sx_version S @ '' sender='' @ sv_sender_domain s @ '' endpoint='' @ unwrap_or ''srv'' (sv_send_endpoint s)"

definition secure_emulate ::
    "ext \<Rightarrow> template_ext \<Rightarrow> secure_ext \<Rightarrow> secure_service \<Rightarrow> rstr \<Rightarrow> emulate_payload \<Rightarrow> world \<Rightarrow> emulate_result \<times> world" where
  "secure_emulate E T S s user p w =
     (if user = [] then (EmulateError ''recipient user is required'', w)
      else (case service_template T s w of
              Inl e \<Rightarrow> (EmulateError (''template: '' @ show_template_error S e), w)
            | Inr spec \<Rightarrow>
           (case tick w of (now, w1) \<Rightarrow>
           (let data = [(''sender_name'', ep_sender_name p), (''sender_address'', ep_sender_address p),
                        (''amount'', ep_amount p), (''invoice'', from_utf8_lossy (ep_invoice p)),
                        (''received_at'', received_at T now)] in
            case tera_render T (ts_subject spec) data of
              Inl e \<Rightarrow> (EmulateError (''template subject: '' @ show_template_error S e), w1)
            | Inr subject \<Rightarrow>
           (case tera_render T (ts_body spec) data of
              Inl e \<Rightarrow> (EmulateError (''template body: '' @ show_template_error S e), w1)
            | Inr body \<Rightarrow>
           (case draw 8 w1 of (rnd, w2) \<Rightarrow>
           (let mid = ''emul-'' @ random_hex E rnd in
            case deliver_emulated (sv_sink s) user (ep_sender_name p) (ep_amount p) mid subject body w2 of
              (Accepted _, w3) \<Rightarrow> (EmulateOk (''delivered '' @ mid @ '' to '' @ user), w3)
            | (Rejected reason, w3) \<Rightarrow> (EmulateError reason, w3)
            | (RetryLater reason, w3) \<Rightarrow> (EmulateError (''retry later: '' @ reason), w3))))))))"

text \<open>The handler the daemon gives to its control channel.\<close>

definition secure_handler ::
    "ext \<Rightarrow> json_ext \<Rightarrow> template_ext \<Rightarrow> secure_ext \<Rightarrow> network \<Rightarrow> secure_service \<Rightarrow> world mailbox_handler" where
  "secure_handler E J T S net s =
     \<lparr>h_send = secure_send E J T S net s, h_attest = secure_attest E J s, h_register = secure_register E J S s,
      h_status = secure_status S s, h_emulate = secure_emulate E T S s\<rparr>"

subsection \<open>What the control channel may change\<close>

text \<open>The part of a ledger entry that no command changes.\<close>

definition ledger_key :: "tx_row \<Rightarrow> int \<times> rstr \<times> rstr \<times> rstr \<times> rstr \<times> rstr \<times> rstr option \<times> bytes option \<times> int" where
  "ledger_key t = (t_id t, t_direction t, t_message_id t, t_sender_mailbox t, t_recipient_mailbox t, t_amount t,
     t_binding t, t_outbound_body t, t_created_at t)"

definition only_grows :: "world \<Rightarrow> world \<Rightarrow> bool" where
  "only_grows w w' \<longleftrightarrow>
     (store_inv (w_store w) \<longrightarrow> store_inv (w_store w')) \<and>
     (\<exists>new. users (w_store w') = users (w_store w) @ new) \<and>
     keyring_entries (w_store w') = keyring_entries (w_store w) \<and>
     shares (w_store w') = shares (w_store w) \<and> settings (w_store w') = settings (w_store w) \<and>
     poisoned (w_store w') = poisoned (w_store w) \<and> w_files w' = w_files w \<and>
     (\<exists>new. map box_owner (mailboxes (w_store w')) = map box_owner (mailboxes (w_store w)) @ new) \<and>
     (\<exists>new. messages (w_store w') = messages (w_store w) @ new) \<and>
     (\<exists>new. map ledger_key (transactions (w_store w')) = map ledger_key (transactions (w_store w)) @ new) \<and>
     (\<exists>new. w_events w' = w_events w @ new)"

lemma only_grows_refl: "only_grows w w"
  by (simp add: only_grows_def)

lemma only_grows_trans: "only_grows u v \<Longrightarrow> only_grows v w \<Longrightarrow> only_grows u w"
  by (auto simp: only_grows_def)

lemma only_grows_tick: "tick w = (now, w') \<Longrightarrow> only_grows w w'"
  by (auto simp: only_grows_def tick_def)

lemma only_grows_draw: "draw n w = (b, w') \<Longrightarrow> only_grows w w'"
  by (auto simp: only_grows_def draw_def)

lemma only_grows_store:
  assumes "on_store f w = (r, w')" "keeps store_inv f"
    and "\<exists>new. users (snd (f (w_store w))) = users (w_store w) @ new"
    and "keyring_entries (snd (f (w_store w))) = keyring_entries (w_store w)"
    and "shares (snd (f (w_store w))) = shares (w_store w)" "settings (snd (f (w_store w))) = settings (w_store w)"
    and "poisoned (snd (f (w_store w))) = poisoned (w_store w)"
    and "\<exists>new. map box_owner (mailboxes (snd (f (w_store w)))) = map box_owner (mailboxes (w_store w)) @ new"
    and "\<exists>new. messages (snd (f (w_store w))) = messages (w_store w) @ new"
    and "\<exists>new. map ledger_key (transactions (snd (f (w_store w)))) = map ledger_key (transactions (w_store w)) @ new"
  shows "only_grows w w'"
  using assms by (auto simp: only_grows_def on_store_def keeps_def split: prod.splits)

lemma ledger_key_update [simp]:
  "(\<And>r. ledger_key (f r) = ledger_key r) \<Longrightarrow> map ledger_key (update_where P f ts) = map ledger_key ts"
  by (simp add: update_where_def map_update_same)

lemma only_grows_tx_link: "on_store (tx_link_message now i r) w = (x, w') \<Longrightarrow> only_grows w w'"
  by (erule only_grows_store, rule inv_intros)
     (simp_all add: tx_link_message_def locked_def ledger_key_def)

lemma only_grows_tx_transition: "on_store (tx_transition now i st) w = (x, w') \<Longrightarrow> only_grows w w'"
  by (erule only_grows_store, rule inv_intros)
     (simp_all add: tx_transition_def locked_def require_rows_def ledger_key_def)

lemma only_grows_tx_create: "on_store (tx_create now t) w = (x, w') \<Longrightarrow> only_grows w w'"
  by (erule only_grows_store, rule inv_intros) (simp_all add: tx_create_def locked_def Let_def)

lemma append_message_to_tables:
  "users (snd (append_message_to now uid name msg st)) = users st"
  "keyring_entries (snd (append_message_to now uid name msg st)) = keyring_entries st"
  "shares (snd (append_message_to now uid name msg st)) = shares st"
  "settings (snd (append_message_to now uid name msg st)) = settings st"
  "poisoned (snd (append_message_to now uid name msg st)) = poisoned st"
  "transactions (snd (append_message_to now uid name msg st)) = transactions st"
  "map box_owner (mailboxes (snd (append_message_to now uid name msg st))) = map box_owner (mailboxes st)"
  "\<exists>new. messages (snd (append_message_to now uid name msg st)) = messages st @ new"
  by (auto simp: append_message_to_def bind_op_def mailbox_named_def append_locked_def locked_def Let_def split: option.splits)

lemma only_grows_append: "on_store (append_message_to now uid name msg) w = (x, w') \<Longrightarrow> only_grows w w'"
  by (erule only_grows_store, rule inv_intros) (simp_all add: append_message_to_tables)

text \<open>Registration appends one row of the users table at most.\<close>

lemma insert_mailbox_rest: "\<exists>ms. snd (insert_mailbox uid name v st) = st\<lparr>mailboxes := mailboxes st @ ms\<rparr>"
  unfolding insert_mailbox_def Let_def by (auto intro: exI[of _ "[]"])

lemma create_user_full_rest:
  "\<exists>us ms. snd (create_user_full now n h k ivk reg st) = st\<lparr>users := users st @ us, mailboxes := mailboxes st @ ms\<rparr>"
proof (cases "poisoned st \<or> n \<in> set (map u_username (users st))")
  case True
  then have "snd (create_user_full now n h k ivk reg st) = st"
    by (auto simp: create_user_full_def locked_def bind_op_def insert_user_def)
  also have "\<dots> = st\<lparr>users := users st @ [], mailboxes := mailboxes st @ []\<rparr>" by simp
  finally show ?thesis by blast
next
  case False
  define i where "i = next_rowid (map u_id (users st))"
  define row where "row = \<lparr>u_id = i, u_username = n, u_password_hash = h, u_master_pubkey = k, u_created_at = now,
      u_ivk_commitment = ivk, u_registration_attestation = reg\<rparr>"
  let ?st = "st\<lparr>users := users st @ [row]\<rparr>"
  have "\<And>x. x \<in> set (users st) \<Longrightarrow> u_id x \<noteq> i" unfolding i_def by (rule next_rowid_neq)
  then have "snd (create_user_full now n h k ivk reg st) =
      snd (bind_op (insert_mailbox i ''INBOX'' (word_of_int now)) (\<lambda>_.
           bind_op (insert_mailbox i ''Sent'' (word_of_int now)) (\<lambda>_. ret_op ())) ?st)"
    using False
    by (cases ivk; cases reg)
       (simp_all add: create_user_full_def locked_def bind_op_def insert_user_def i_def[symmetric] Let_def row_def
         update_users_def ret_op_def update_where_last split: prod.splits sum.splits)
  also have "\<exists>ms. \<dots> = ?st\<lparr>mailboxes := mailboxes st @ ms\<rparr>"
  proof -
    obtain r st1 where r: "insert_mailbox i ''INBOX'' (word_of_int now) ?st = (r, st1)" by fastforce
    then obtain ms where st1: "st1 = ?st\<lparr>mailboxes := mailboxes ?st @ ms\<rparr>"
      using insert_mailbox_rest[of i "''INBOX''" "word_of_int now" ?st] by auto
    obtain r2 st2 where r2: "insert_mailbox i ''Sent'' (word_of_int now) st1 = (r2, st2)" by fastforce
    then obtain ms2 where "st2 = st1\<lparr>mailboxes := mailboxes st1 @ ms2\<rparr>"
      using insert_mailbox_rest[of i "''Sent''" "word_of_int now" st1] by auto
    with r r2 st1 show ?thesis by (cases r; cases r2) (auto simp: bind_op_def ret_op_def)
  qed
  finally show ?thesis by auto
qed

lemma only_grows_create_user: "on_store (create_user_full now n h k ivk reg) w = (x, w') \<Longrightarrow> only_grows w w'"
proof -
  assume o: "on_store (create_user_full now n h k ivk reg) w = (x, w')"
  obtain us ms where "snd (create_user_full now n h k ivk reg (w_store w)) =
      (w_store w)\<lparr>users := users (w_store w) @ us, mailboxes := mailboxes (w_store w) @ ms\<rparr>"
    using create_user_full_rest by blast
  then show ?thesis by (intro only_grows_store[OF o keeps_create_user_full(2)]) simp_all
qed

lemma only_grows_broadcast: "append_and_broadcast k uid msg mid w = (x, w') \<Longrightarrow> only_grows w w'"
proof -
  assume a: "append_and_broadcast k uid msg mid w = (x, w')"
  obtain now w1 where t: "tick w = (now, w1)" by fastforce
  obtain y w2 where o: "on_store (append_message now uid msg) w1 = (y, w2)" by fastforce
  have "only_grows w w2"
    using only_grows_trans[OF only_grows_tick[OF t] only_grows_append] o by (simp add: append_message_def)
  moreover have "only_grows w2 w'"
    using a t o by (cases y) (auto simp: append_and_broadcast_def only_grows_def split: store_error.splits if_splits)
  ultimately show ?thesis by (rule only_grows_trans)
qed

lemma only_grows_record_in: "only_grows w (record_inbound_tx sender recipient amount mid r w)"
proof -
  obtain now w1 where t: "tick w = (now, w1)" by fastforce
  obtain x w2 where c: "on_store (tx_create now (inbound_tx sender recipient amount mid)) w1 = (x, w2)" by fastforce
  have g: "only_grows w w2" using only_grows_trans[OF only_grows_tick[OF t] only_grows_tx_create[OF c]] .
  show ?thesis
  proof (cases x)
    case (Inr tx)
    obtain now' w3 where t': "tick w2 = (now', w3)" by fastforce
    have "only_grows w3 (snd (on_store (tx_link_message now' (tx_id tx) r) w3))"
      using only_grows_tx_link by (metis prod.collapse)
    with g only_grows_tick[OF t'] Inr t c t' show ?thesis
      by (simp add: record_inbound_tx_def) (blast intro: only_grows_trans)
  qed (use g t c in \<open>simp add: record_inbound_tx_def\<close>)
qed

lemma only_grows_deliver_emulated: "deliver_emulated k user label amount mid subject body w = (x, w') \<Longrightarrow> only_grows w w'"
proof -
  assume d: "deliver_emulated k user label amount mid subject body w = (x, w')"
  show ?thesis
  proof (cases "recipient_user user w")
    case (Inr u)
    let ?msg = "\<lparr>nm_message_id = mid, nm_subject = subject, nm_body = body, nm_flags = flags_default,
                 nm_sender = label, nm_trust_state = trust_str (keyring_state (user_id u) label w)\<rparr>"
    obtain y w1 where a: "append_and_broadcast k (user_id u) ?msg mid w = (y, w1)" by fastforce
    from d Inr a show ?thesis
      using only_grows_trans[OF only_grows_broadcast[OF a] only_grows_record_in] only_grows_broadcast[OF a]
      by (cases y) (auto simp: deliver_emulated_def store_delivery_def Let_def)
  qed (use d in \<open>auto simp: deliver_emulated_def only_grows_refl\<close>)
qed

lemma only_grows_render_sent: "render_sent T s sender body w = (x, w') \<Longrightarrow> only_grows w w'"
  using only_grows_tick[of w]
  by (auto simp: render_sent_def Let_def only_grows_refl split: sum.splits prod.splits)

lemma sent_copy_unknown:
  "\<forall>user. fst (get_user sender (w_store w)) \<noteq> Inr (Some user) \<Longrightarrow> sent_copy T s tid sender recipient mid body w = w"
  by (auto simp: sent_copy_def split: sum.splits option.splits)

lemma only_grows_sent_copy: "only_grows w (sent_copy T s tid sender recipient mid body w)"
proof -
  consider "\<forall>user. fst (get_user sender (w_store w)) \<noteq> Inr (Some user)"
    | user where "fst (get_user sender (w_store w)) = Inr (Some user)" by blast
  then show ?thesis
  proof cases
    case 1
    then show ?thesis by (simp add: sent_copy_unknown only_grows_refl)
  next
    case 2
    obtain subject b w1 where r: "render_sent T s sender body w = ((subject, b), w1)" by (metis prod.collapse)
    let ?msg = "\<lparr>nm_message_id = mid, nm_subject = subject, nm_body = b, nm_flags = flags_default,
                 nm_sender = recipient, nm_trust_state = ''unverified''\<rparr>"
    obtain now w2 where t: "tick w1 = (now, w2)" by fastforce
    obtain x w3 where a: "on_store (append_message_to now (user_id user) SENT ?msg) w2 = (x, w3)" by fastforce
    have g: "only_grows w w3"
      using only_grows_trans[OF only_grows_render_sent[OF r] only_grows_trans[OF only_grows_tick[OF t] only_grows_append[OF a]]] .
    show ?thesis
    proof (cases x)
      case (Inr meta)
      obtain now' w4 where t': "tick w3 = (now', w4)" by fastforce
      have "only_grows w4 (snd (on_store (tx_link_message now' tid (mm_id meta)) w4))"
        using only_grows_tx_link by (metis prod.collapse)
      with only_grows_trans[OF g only_grows_tick[OF t']] 2 r t a t' Inr show ?thesis
        by (simp add: sent_copy_def Let_def) (blast intro: only_grows_trans)
    qed (use g 2 r t a in \<open>simp add: sent_copy_def Let_def\<close>)
  qed
qed

lemma only_grows_record_out: "only_grows w (record_outbound_tx T s sender recipient mid p body st w)"
proof -
  obtain now w1 where t: "tick w = (now, w1)" by fastforce
  obtain x w2 where c: "on_store (tx_create now (outbound_tx s sender recipient mid p body st)) w1 = (x, w2)" by fastforce
  have g: "only_grows w w2" using only_grows_trans[OF only_grows_tick[OF t] only_grows_tx_create[OF c]] .
  have tr: "only_grows w (snd (on_store (tx_transition now i st) w1))" for i
    using only_grows_trans[OF only_grows_tick[OF t] only_grows_tx_transition] by (metis prod.collapse)
  have create: "only_grows w (case x of Inr t \<Rightarrow> sent_copy T s (tx_id t) sender recipient mid body w2 | Inl _ \<Rightarrow> w2)"
    using g only_grows_trans[OF g only_grows_sent_copy] by (cases x) simp_all
  then show ?thesis using only_grows_trans[OF tr only_grows_sent_copy] t c
    by (cases x) (auto simp: record_outbound_tx_def split: sum.splits option.splits)
qed

lemma only_grows_send: "only_grows w (snd (secure_send E J T S net s sender recipient mid p body w))"
proof -
  obtain rnd w1 where d: "draw 16 w = (rnd, w1)" by fastforce
  obtain i w2 where t: "tick w1 = (i, w2)" by fastforce
  obtain n w3 where t': "tick w2 = (n, w3)" by fastforce
  have "only_grows w w3"
    using only_grows_trans[OF only_grows_draw[OF d] only_grows_trans[OF only_grows_tick[OF t] only_grows_tick[OF t']]] .
  from only_grows_trans[OF this only_grows_record_out] only_grows_record_out[of w]
  show ?thesis
    by (auto simp: secure_send_def Let_def d t t' only_grows_refl split: option.splits sum.splits)
qed

lemma only_grows_attest: "only_grows w (snd (secure_attest E J s user mode w))"
  using only_grows_draw[of 32 w] by (auto simp: secure_attest_def Let_def only_grows_refl split: prod.splits)

lemma only_grows_register: "only_grows w (snd (secure_register E J S s username password pubkey ivk w))"
proof -
  obtain salt w1 where d: "draw 16 w = (salt, w1)" by fastforce
  obtain i w2 where t: "tick w1 = (i, w2)" by fastforce
  obtain n w3 where t': "tick w2 = (n, w3)" by fastforce
  have g1: "only_grows w w1" by (rule only_grows_draw[OF d])
  have g3: "only_grows w w3" using only_grows_trans[OF g1 only_grows_trans[OF only_grows_tick[OF t] only_grows_tick[OF t']]] .
  have g4: "only_grows w w4" if "on_store (create_user_full n u h k i r) w3 = (x, w4)" for u h k i r x w4
    using only_grows_trans[OF g3 only_grows_create_user[OF that]] .
  show ?thesis
    by (auto simp: secure_register_def Let_def d t t' only_grows_refl g1 g4 split: option.splits sum.splits prod.splits)
qed

lemma only_grows_emulate: "only_grows w (snd (secure_emulate E T S s user p w))"
proof -
  obtain now w1 where t: "tick w = (now, w1)" by fastforce
  obtain rnd w2 where d: "draw 8 w1 = (rnd, w2)" by fastforce
  have g: "only_grows w w2" using only_grows_trans[OF only_grows_tick[OF t] only_grows_draw[OF d]] .
  have g3: "only_grows w w3" if "deliver_emulated k u l a m sb b w2 = (x, w3)" for k u l a m sb b x w3
    using only_grows_trans[OF g only_grows_deliver_emulated[OF that]] .
  show ?thesis
    by (auto simp: secure_emulate_def Let_def t d only_grows_refl only_grows_tick[OF t] g3
        split: sum.splits prod.splits delivery_outcome.splits)
qed

text \<open>The daemon's handler meets the contract of the control channel.\<close>

interpretation control: mailbox_contract "secure_handler E J T S net s" only_grows
  for E J T S net s
  by unfold_locales
     (simp_all add: secure_handler_def only_grows_refl only_grows_send only_grows_attest only_grows_register only_grows_emulate,
      blast intro: only_grows_trans)

subsection \<open>The ledger after a SEND\<close>

definition out_entry :: "rstr \<Rightarrow> tx_row \<Rightarrow> bool" where
  "out_entry mid t \<longleftrightarrow> t_direction t = ''out'' \<and> t_message_id t = mid"

lemma out_entry_key: "ledger_key t = ledger_key u \<Longrightarrow> out_entry mid t = out_entry mid u \<and> t_id t = t_id u"
  by (simp add: ledger_key_def out_entry_def)

lemma filter_update_where:
  assumes "\<And>x. x \<in> set xs \<Longrightarrow> P x \<Longrightarrow> Q x" "\<And>x. Q (f x) = Q x"
  shows "filter Q (update_where P f xs) = update_where P f (filter Q xs)"
    and "filter (\<lambda>x. \<not> Q x) (update_where P f xs) = filter (\<lambda>x. \<not> Q x) xs"
  using assms(1) by (induction xs) (auto simp: update_where_def assms(2))

lemma update_where_update_where:
  "(\<And>x. P (f x) = P x) \<Longrightarrow> update_where P g (update_where P f xs) = update_where P (g \<circ> f) xs"
  by (induction xs) (auto simp: update_where_def)

lemma update_where_id: "update_where P (\<lambda>x. x) xs = xs"
  by (simp add: update_where_def)

text \<open>The Sent copy changes a ledger entry in its link only.\<close>

definition keeps_entry :: "(tx_row \<Rightarrow> tx_row) \<Rightarrow> bool" where
  "keeps_entry g \<longleftrightarrow> (\<forall>t. ledger_key (g t) = ledger_key t \<and> t_state (g t) = t_state t)"

lemma tx_link_ledger:
  "\<exists>g. keeps_entry g \<and> transactions (w_store (snd (on_store (tx_link_message n tid r) w))) =
     update_where (\<lambda>t. t_id t = tid) g (transactions (w_store w))"
proof (cases "poisoned (w_store w)")
  case True
  then show ?thesis
    by (intro exI[of _ "\<lambda>t. t"]) (simp add: keeps_entry_def on_store_def tx_link_message_def locked_def update_where_id)
next
  case False
  then show ?thesis
    by (intro exI[of _ "\<lambda>t. t\<lparr>t_message_row_id := Some r, t_updated_at := n\<rparr>"])
       (simp add: on_store_def tx_link_message_def locked_def keeps_entry_def ledger_key_def)
qed

lemma sent_copy_ledger:
  obtains g where "keeps_entry g"
    "transactions (w_store (sent_copy T s tid sender recipient mid body w)) =
       update_where (\<lambda>t. t_id t = tid) g (transactions (w_store w))"
proof -
  have id: "keeps_entry (\<lambda>t. t)" by (simp add: keeps_entry_def)
  have st: "w_store w' = w_store w" if "render_sent T s sender body w = (x, w')" for x w'
    using that by (auto simp: render_sent_def Let_def tick_def split: sum.splits)
  have app: "transactions (w_store w3) = transactions (w_store w2)"
    if "on_store (append_message_to now uid name msg) w2 = (x, w3)" for now uid name msg w2 x w3
    using that append_message_to_tables(6)[of now uid name msg "w_store w2"] by (auto simp: on_store_def split: prod.splits)
  have tk: "w_store w2 = w_store w1" if "tick w1 = (n, w2)" for w1 n w2 using that by (auto simp: tick_def)
  show thesis
  proof (cases "\<exists>user. fst (get_user sender (w_store w)) = Inr (Some user)")
    case False
    then show thesis using that[OF id] by (simp add: sent_copy_unknown update_where_id)
  next
    case True
    then obtain user where u: "fst (get_user sender (w_store w)) = Inr (Some user)" ..
    obtain subject b w1 where r: "render_sent T s sender body w = ((subject, b), w1)" by (metis prod.collapse)
    let ?msg = "\<lparr>nm_message_id = mid, nm_subject = subject, nm_body = b, nm_flags = flags_default,
                 nm_sender = recipient, nm_trust_state = ''unverified''\<rparr>"
    obtain now w2 where t: "tick w1 = (now, w2)" by fastforce
    obtain x w3 where a: "on_store (append_message_to now (user_id user) SENT ?msg) w2 = (x, w3)" by fastforce
    obtain n' w4 where t': "tick w3 = (n', w4)" by fastforce
    have tx: "transactions (w_store w3) = transactions (w_store w)" "transactions (w_store w4) = transactions (w_store w)"
      using st[OF r] tk[OF t] app[OF a] tk[OF t'] by simp_all
    show thesis
    proof (cases x)
      case (Inl e)
      with u r t a tx show thesis using that[OF id] by (simp add: sent_copy_def Let_def update_where_id)
    next
      case (Inr meta)
      obtain g where "keeps_entry g" "transactions (w_store (snd (on_store (tx_link_message n' tid (mm_id meta)) w4))) =
          update_where (\<lambda>t. t_id t = tid) g (transactions (w_store w4))" using tx_link_ledger by blast
      with u r t a tx t' Inr show thesis using that[of g] by (simp add: sent_copy_def Let_def)
    qed
  qed
qed

text \<open>
  The ledger \<open>txs'\<close> is \<open>txs\<close> with exactly one outbound entry for the message, in the given state:
  every entry about another message is the same row as before.
\<close>

definition books :: "rstr \<Rightarrow> tx_state \<Rightarrow> tx_row list \<Rightarrow> tx_row list \<Rightarrow> bool" where
  "books mid st txs txs' \<longleftrightarrow>
     (\<exists>t. filter (out_entry mid) txs' = [t] \<and> t_state t = tx_state_str st) \<and>
     filter (\<lambda>t. \<not> out_entry mid t) txs' = filter (\<lambda>t. \<not> out_entry mid t) txs"

lemma books_update:
  assumes one: "filter (out_entry mid) txs' = [t]" and other: "filter (\<lambda>t. \<not> out_entry mid t) txs' = filter (\<lambda>t. \<not> out_entry mid t) txs"
    and ids: "distinct (map t_id txs')" and g: "\<And>t. ledger_key (g t) = ledger_key t" and st: "t_state (g t) = tx_state_str st"
  shows "books mid st txs (update_where (\<lambda>r. t_id r = t_id t) g txs')"
proof -
  have t: "t \<in> set txs'" "out_entry mid t" using arg_cong[OF one, of set] by auto
  have "out_entry mid x" if "x \<in> set txs'" "t_id x = t_id t" for x
    using that t ids by (metis distinct_map inj_on_eq_iff)
  moreover have "out_entry mid (g x) = out_entry mid x" for x using out_entry_key[OF g] by blast
  ultimately have "filter (out_entry mid) (update_where (\<lambda>r. t_id r = t_id t) g txs') = [g t]"
      "filter (\<lambda>t. \<not> out_entry mid t) (update_where (\<lambda>r. t_id r = t_id t) g txs') = filter (\<lambda>t. \<not> out_entry mid t) txs"
    using filter_update_where[of txs' "\<lambda>r. t_id r = t_id t" "out_entry mid" g] one other
    by (simp_all add: update_where_def)
  with st show ?thesis by (simp add: books_def)
qed

lemma out_entry_unique:
  assumes "transactions_ok txs" "t \<in> set txs" "out_entry mid t"
  shows "filter (out_entry mid) txs = [t]"
proof -
  have d: "distinct (filter (out_entry mid) txs)" using assms(1) by (auto simp: transactions_ok_def distinct_map)
  have "x = t" if "x \<in> set txs" "out_entry mid x" for x
    using that assms by (auto simp: transactions_ok_def out_entry_def distinct_map inj_on_def)
  with assms(2,3) have s: "set (filter (out_entry mid) txs) = {t}" unfolding set_filter by blast
  then have "length (filter (out_entry mid) txs) = Suc 0" using distinct_card[OF d] by simp
  then obtain u where "filter (out_entry mid) txs = [u]" by (auto simp: length_Suc_conv)
  with s show ?thesis by simp
qed

lemma sent_copy_books:
  assumes "transactions_ok (transactions (w_store w))" "t \<in> set (transactions (w_store w))" "out_entry mid t"
    and "t_state t = tx_state_str st"
    and "filter (\<lambda>t. \<not> out_entry mid t) (transactions (w_store w)) = filter (\<lambda>t. \<not> out_entry mid t) txs"
  shows "books mid st txs (transactions (w_store (sent_copy T s (t_id t) sender recipient m body w)))"
proof -
  obtain g where "keeps_entry g" "transactions (w_store (sent_copy T s (t_id t) sender recipient m body w)) =
       update_where (\<lambda>r. t_id r = t_id t) g (transactions (w_store w))" by (rule sent_copy_ledger)
  with assms out_entry_unique[OF assms(1-3)] show ?thesis
    by (simp add: books_update keeps_entry_def transactions_ok_def)
qed

lemma tx_create_row:
  assumes "\<not> poisoned st" "(tx_direction_str (nt_direction t), nt_message_id t) \<notin> (\<lambda>r. (t_direction r, t_message_id r)) ` set (transactions st)"
  shows "\<exists>tx row. tx_create now t st = (Inr tx, st\<lparr>transactions := transactions st @ [row]\<rparr>) \<and> t_id row = tx_id tx \<and>
    t_state row = tx_state_str (nt_state t) \<and> t_direction row = tx_direction_str (nt_direction t) \<and> t_message_id row = nt_message_id t"
  using assms by (simp add: tx_create_def locked_def Let_def) (intro exI conjI, rule refl, simp_all)

lemma record_outbound_again:
  assumes inv: "store_inv (w_store w)" and np: "\<not> poisoned (w_store w)"
    and Some: "find (out_entry mid) (transactions (w_store w)) = Some t0"
  shows "books mid st (transactions (w_store w))
     (transactions (w_store (record_outbound_tx T s sender recipient mid p body st w)))"
proof -
  let ?txs = "transactions (w_store w)"
  have ok: "transactions_ok ?txs" using inv by (simp add: store_inv_def schema_inv_def)
  obtain now w1 where t: "tick w = (now, w1)" by fastforce
  have w1: "w_store w1 = w_store w" using t by (auto simp: tick_def)
  have t0: "t0 \<in> set ?txs" "out_entry mid t0" using Some by (auto simp: find_Some_iff)
  let ?h = "\<lambda>r. r\<lparr>t_state := tx_state_str st, t_updated_at := now\<rparr>"
  obtain x w2 where o: "on_store (tx_transition now (t_id t0) st) w1 = (x, w2)" by fastforce
  have "store_inv (w_store w1) \<longrightarrow> store_inv (w_store w2)"
    using only_grows_tx_transition[OF o] by (simp add: only_grows_def)
  then have ok2: "transactions_ok (transactions (w_store w2))" using inv w1 by (simp add: store_inv_def schema_inv_def)
  have tx2: "transactions (w_store w2) = update_where (\<lambda>r. t_id r = t_id t0) ?h ?txs"
    using o w1 np t0(1) by (auto simp: on_store_def tx_transition_def locked_def require_rows_def count_where_def filter_empty_conv split: if_splits prod.splits)
  have keys: "ledger_key (?h r) = ledger_key r" for r by (simp add: ledger_key_def)
  have "books mid st ?txs (transactions (w_store w2))" unfolding tx2
    using out_entry_unique[OF ok t0] ok by (intro books_update) (simp_all add: transactions_ok_def keys)
  moreover have h: "?h t0 \<in> set (transactions (w_store w2))" using t0(1) by (force simp: tx2 update_where_def)
  moreover have "out_entry mid (?h t0)" using t0(2) by (simp add: out_entry_def)
  ultimately have "books mid st ?txs (transactions (w_store (sent_copy T s (t_id (?h t0)) sender recipient mid body w2)))"
    using ok2 by (intro sent_copy_books) (simp_all add: books_def)
  moreover have "fst (tx_by_message_id TxOut mid (w_store w)) = Inr (Some (row_to_tx t0))"
    using Some np by (simp add: tx_by_message_id_def query_def locked_def out_entry_def[abs_def] tx_direction_str_def)
  ultimately show ?thesis using t o by (simp add: record_outbound_tx_def row_to_tx_def)
qed

lemma record_outbound_new:
  assumes inv: "store_inv (w_store w)" and np: "\<not> poisoned (w_store w)"
    and None: "find (out_entry mid) (transactions (w_store w)) = None"
  shows "books mid st (transactions (w_store w))
     (transactions (w_store (record_outbound_tx T s sender recipient mid p body st w)))"
proof -
  let ?txs = "transactions (w_store w)"
  obtain now w1 where t: "tick w = (now, w1)" by fastforce
  have w1: "w_store w1 = w_store w" using t by (auto simp: tick_def)
  have none: "\<And>r. r \<in> set ?txs \<Longrightarrow> \<not> out_entry mid r" using None by (simp add: find_None_iff)
  let ?n = "outbound_tx s sender recipient mid p body st"
  obtain x w2 where o: "on_store (tx_create now ?n) w1 = (x, w2)" by fastforce
  have "store_inv (w_store w1) \<longrightarrow> store_inv (w_store w2)"
    using only_grows_tx_create[OF o] by (simp add: only_grows_def)
  then have ok2: "transactions_ok (transactions (w_store w2))" using inv w1 by (simp add: store_inv_def schema_inv_def)
  have fresh: "(''out'', mid) \<notin> (\<lambda>r. (t_direction r, t_message_id r)) ` set ?txs"
  proof
    assume "(''out'', mid) \<in> (\<lambda>r. (t_direction r, t_message_id r)) ` set ?txs"
    then obtain r where r: "(''out'', mid) = (t_direction r, t_message_id r)" "r \<in> set ?txs" by (rule imageE)
    from none[OF r(2)] r(1) show False by (simp add: out_entry_def)
  qed
  obtain tx row where x: "x = Inr tx" and row: "transactions (w_store w2) = ?txs @ [row]" "t_id row = tx_id tx"
      "t_state row = tx_state_str st" "out_entry mid row"
    using tx_create_row[of "w_store w" ?n now] o w1 np fresh
    by (fastforce simp: on_store_def outbound_tx_def tx_direction_str_def out_entry_def)
  have "books mid st ?txs (transactions (w_store (sent_copy T s (t_id row) sender recipient mid body w2)))"
    using ok2 none row by (intro sent_copy_books) simp_all
  moreover have "fst (tx_by_message_id TxOut mid (w_store w)) = Inr None"
    using None np by (simp add: tx_by_message_id_def query_def locked_def out_entry_def[abs_def] tx_direction_str_def)
  ultimately show ?thesis using t o x row(2) by (simp add: record_outbound_tx_def)
qed

lemma record_outbound_books:
  assumes "store_inv (w_store w)" "\<not> poisoned (w_store w)"
  shows "books mid st (transactions (w_store w))
     (transactions (w_store (record_outbound_tx T s sender recipient mid p body st w)))"
  using record_outbound_again[OF assms] record_outbound_new[OF assms]
  by (cases "find (out_entry mid) (transactions (w_store w))") auto

definition demo_service :: secure_service where
  "demo_service =
     \<lparr>sv_sender_domain = ''a'', sv_send_endpoint = None, sv_resolver = (\<lambda>_. Inr []),
      sv_endpoint_resolver = (\<lambda>d. Inr (d @ '':4180'')), sv_domain_key = [], sv_sink = sink_new,
      sv_template_path = None, sv_data_dir = ''d''\<rparr>"

definition demo_secure :: secure_ext where
  "demo_secure =
     \<lparr>sx_argon2 = demo_argon2, sx_io_text = (\<lambda>_. ''io''), sx_sqlite_text = (\<lambda>_. ''sqlite''), sx_template_io_text = ''io'', sx_version = ''0''\<rparr>"

text \<open>
  C20. Whatever a local client writes on the control channel, well formed or not, the daemon's data only
  grows: the store keeps its invariant; users, mailboxes, messages and new-mail events are appended and never
  removed or rewritten; every ledger entry keeps its identity, parties, amount and body (only its state,
  link and update time may move); and keyring, trusted shares, settings, the store lock and the files
  are not touched.
\<close>

theorem control_channel_only_adds:
  "only_grows w (mc_world (snd (mailbox_serve M (secure_handler E J T S net s) inp w)))"
  by (rule control.serve_R)

text \<open>
  C19. SEND with a sender and a recipient mailbox leaves exactly one outbound ledger entry for the
  message id, and all entries about other messages as they were: its state is \<open>sent\<close> when the command
  succeeds and \<open>failed\<close> or \<open>retrying\<close> when it fails, \<open>retrying\<close> only for a failed
  connection or a transient failure of the peer.
\<close>

theorem send_records_outcome:
  assumes inv: "store_inv (w_store w)" and np: "\<not> poisoned (w_store w)"
    and s: "sender \<noteq> []" and r: "CHR ''@'' \<in> set recipient"
  shows "\<exists>st. books mid st (transactions (w_store w))
      (transactions (w_store (snd (secure_send E J T S net srv sender recipient mid p body w)))) \<and>
    (case fst (secure_send E J T S net srv sender recipient mid p body w) of
       SendOk text \<Rightarrow> st = TxSent \<and> text = ''delivered '' @ mid @ '' to '' @ recipient
     | SendError text \<Rightarrow>
         st = TxFailed \<or>
         st = TxRetrying \<and> ((\<exists>e. text = ''connect: '' @ show_client_error S e) \<or>
           (\<exists>m. text = ''deliver: '' @ show_client_error S (ClRetryLater m))))"
proof -
  obtain a b where "recipient = a @ CHR ''@'' # b" "CHR ''@'' \<notin> set a" using r split_list_first by metis
  then obtain d where d: "nth_opt (split_on (CHR ''@'') recipient) 1 = Some d"
    by (cases "split_on (CHR ''@'') b") simp_all
  obtain rnd w1 where dr: "draw 16 w = (rnd, w1)" by fastforce
  obtain i w2 where t: "tick w1 = (i, w2)" by fastforce
  obtain n w3 where t': "tick w2 = (n, w3)" by fastforce
  have st3: "w_store w3 = w_store w" using dr t t' by (auto simp: draw_def tick_def)
  have b: "books mid st (transactions (w_store w)) (transactions (w_store (record_outbound_tx T srv sender recipient mid p body st w')))"
    if "w_store w' = w_store w" for st w'
    using record_outbound_books[of w'] inv np that by simp
  show ?thesis
    using s d
    apply (simp add: secure_send_def Let_def dr t t' split: sum.splits client_error.splits)
    apply (intro conjI allI impI)
    apply (auto intro!: exI b simp: st3)
    done
qed

theorem send_records_outcome_witness:
  "let srv = demo_service; net = (\<lambda>_ _. Inl (ClIo ''refused''));
       out = secure_send demo_ext demo_json demo_templates demo_secure net srv ''al'' ''bob@b'' ''m1'' Sealed ''hi'' (demo_world bob_store) in
   fst out = SendError ''connect: transport: refused'' \<and>
   (\<exists>st \<in> {TxFailed, TxRetrying}. books ''m1'' st (transactions bob_store) (transactions (w_store (snd out))))"
proof -
  let ?w = "demo_world bob_store"
  define out where "out = secure_send demo_ext demo_json demo_templates demo_secure (\<lambda>_ _. Inl (ClIo ''refused'')) demo_service
      ''al'' ''bob@b'' ''m1'' Sealed ''hi'' ?w"
  have st: "w_store ?w = bob_store" by (simp add: demo_world_def)
  have inv: "store_inv bob_store" "\<not> poisoned bob_store" using store_reach_inv[OF bob_reach] demo_ready by auto
  have f: "fst out = SendError ''connect: transport: refused''"
    by (simp add: out_def secure_send_def demo_service_def connect_tcp_tls_def bind_r_def show_client_error_def split_on.simps)
  show ?thesis using f send_records_outcome[of ?w "''al''" "''bob@b''" "''m1''" demo_ext demo_json demo_templates demo_secure
      "\<lambda>_ _. Inl (ClIo ''refused'')" demo_service Sealed "''hi''", folded out_def] inv st
    by (auto simp: out_def[symmetric])
qed

end
