(* ===== verification/Keys.thy ===== *)
theory Keys
  imports Rust_Str
begin

text \<open>
  Data keys and their wrappers (\<^verbatim>\<open>talk-keys/src\<close>): authenticated encryption with a random nonce
  (\<^verbatim>\<open>dk.rs\<close>), app-password shares (\<^verbatim>\<open>share.rs\<close>), the resolvers that unlock a data key (\<^verbatim>\<open>resolver.rs\<close>)
  and the sealed envelopes of the master key (\<^verbatim>\<open>master.rs\<close>). The primitives (crates
  \<^verbatim>\<open>chacha20poly1305\<close>, \<^verbatim>\<open>x25519-dalek\<close>, \<^verbatim>\<open>hkdf\<close>) are a record of functions; random bytes are arguments.
\<close>

subsection \<open>The primitives\<close>

record crypto =
  cx_encrypt :: "bytes \<Rightarrow> bytes \<Rightarrow> bytes \<Rightarrow> bytes"
  cx_decrypt :: "bytes \<Rightarrow> bytes \<Rightarrow> bytes \<Rightarrow> bytes option"
  cx_public :: "bytes \<Rightarrow> bytes"
  cx_dh :: "bytes \<Rightarrow> bytes \<Rightarrow> bytes"
  cx_hkdf :: "bytes \<Rightarrow> bytes \<Rightarrow> bytes"

text \<open>
  What is documented of them: decryption with the key and nonce of an encryption gives the plaintext
  back; public keys have 32 bytes; and both sides of a Diffie-Hellman exchange compute the same secret.
\<close>

definition aead_ok :: "crypto \<Rightarrow> bool" where
  "aead_ok K \<longleftrightarrow> (\<forall>k n p. length k = 32 \<longrightarrow> length n = 12 \<longrightarrow> cx_decrypt K k n (cx_encrypt K k n p) = Some p)"

definition dh_ok :: "crypto \<Rightarrow> bool" where
  "dh_ok K \<longleftrightarrow>
     (\<forall>a. length a = 32 \<longrightarrow> length (cx_public K a) = 32) \<and>
     (\<forall>a b. length a = 32 \<longrightarrow> length b = 32 \<longrightarrow> cx_dh K a (cx_public K b) = cx_dh K b (cx_public K a)) \<and>
     (\<forall>s i. length (cx_hkdf K s i) = 32)"

definition demo_crypto :: crypto where
  "demo_crypto =
     \<lparr>cx_encrypt = (\<lambda>k n p. k @ p), cx_decrypt = (\<lambda>k n c. if take (length k) c = k then Some (drop (length k) c) else None),
      cx_public = id, cx_dh = (\<lambda>a b. map2 (\<lambda>x y. char_of ((byte x + byte y) mod 256)) a b),
      cx_hkdf = (\<lambda>s i. take 32 (s @ replicate 32 (CHR 0x00)))\<rparr>"

lemma demo_aead_ok: "aead_ok demo_crypto"
  by (simp add: aead_ok_def demo_crypto_def)

lemma demo_dh_ok: "dh_ok demo_crypto"
proof -
  have "map2 (\<lambda>x y. char_of ((byte x + byte y) mod 256) :: char) a b = map2 (\<lambda>x y. char_of ((byte x + byte y) mod 256)) b a"
    if "length a = length b" for a b
    using that by (induction a b rule: list_induct2) (simp_all add: add.commute)
  then show ?thesis by (simp add: dh_ok_def demo_crypto_def min_def)
qed

subsection \<open>Secret keys (dk.rs)\<close>

definition KEY_LEN :: nat where "KEY_LEN = 32"

definition aead_seal :: "crypto \<Rightarrow> bytes \<Rightarrow> bytes \<Rightarrow> bytes \<Rightarrow> bytes" where
  "aead_seal K nonce key plaintext = nonce @ cx_encrypt K key nonce plaintext"

definition aead_open :: "crypto \<Rightarrow> bytes \<Rightarrow> bytes \<Rightarrow> bytes option" where
  "aead_open K key ciphertext =
     (if length ciphertext < 12 then None else cx_decrypt K key (take 12 ciphertext) (drop 12 ciphertext))"

subsection \<open>Shares (share.rs)\<close>

record wrapped_by_share =
  ws_share_id :: bytes
  ws_wrapped :: bytes

datatype share_error = SchemeMismatch | NoSurvivors | ShareDecryptFailed

text \<open>The random share id and nonce of the \<open>i\<close>-th wrapper are \<open>rnd i\<close>.\<close>

type_synonym share_rng = "nat \<Rightarrow> bytes \<times> bytes"

definition share_wrap :: "crypto \<Rightarrow> share_rng \<Rightarrow> bytes \<Rightarrow> bytes list \<Rightarrow> wrapped_by_share list" where
  "share_wrap K rnd dk shares =
     map (\<lambda>(i, share). \<lparr>ws_share_id = fst (rnd i), ws_wrapped = aead_seal K (snd (rnd i)) share dk\<rparr>) (enumerate 0 shares)"

definition share_rewrap :: "crypto \<Rightarrow> share_rng \<Rightarrow> bytes \<Rightarrow> bytes list \<Rightarrow> wrapped_by_share list" where
  "share_rewrap K rnd dk survivors = share_wrap K rnd dk survivors"

definition share_unwrap :: "crypto \<Rightarrow> bytes \<Rightarrow> wrapped_by_share \<Rightarrow> (share_error, bytes) result" where
  "share_unwrap K share w =
     bind_r (ok_or ShareDecryptFailed (aead_open K share (ws_wrapped w))) (\<lambda>b.
       if length b \<noteq> KEY_LEN then Inl ShareDecryptFailed else Inr b)"

subsection \<open>Resolvers (resolver.rs)\<close>

datatype key_resolver_error = KrDecryptFailed | ShareMismatch

datatype credential = MasterCred bytes | ShareCred bytes

record wrapped_by_master =
  wm_ephemeral_pub :: bytes
  wm_wrapped :: bytes

definition resolver_error_from :: "share_error \<Rightarrow> key_resolver_error" where
  "resolver_error_from e = KrDecryptFailed"

text \<open>The loop over the wrappers of a scheme whose \<^verbatim>\<open>unwrap\<close> is \<open>unwrap\<close>.\<close>

fun resolve_loop :: "(bytes \<Rightarrow> 'w \<Rightarrow> (share_error, bytes) result) \<Rightarrow> bytes \<Rightarrow> 'w list \<Rightarrow> key_resolver_error \<Rightarrow>
    (key_resolver_error, bytes) result" where
  "resolve_loop unwrap share [] last_err = Inl last_err"
| "resolve_loop unwrap share (w # ws) last_err =
     (case unwrap share w of Inr dk \<Rightarrow> Inr dk | Inl e \<Rightarrow> resolve_loop unwrap share ws (resolver_error_from e))"

definition share_resolver_unwrap :: "(bytes \<Rightarrow> 'w \<Rightarrow> (share_error, bytes) result) \<Rightarrow> 'w list \<Rightarrow> credential \<Rightarrow>
    (key_resolver_error, bytes) result" where
  "share_resolver_unwrap unwrap ws c =
     (case c of MasterCred _ \<Rightarrow> Inl ShareMismatch | ShareCred share \<Rightarrow> resolve_loop unwrap share ws ShareMismatch)"

definition DK_WRAP_INFO :: bytes where "DK_WRAP_INFO = ''talk/dk-wrap''"

definition master_wrap :: "crypto \<Rightarrow> bytes \<Rightarrow> bytes \<Rightarrow> bytes \<Rightarrow> bytes \<Rightarrow> wrapped_by_master" where
  "master_wrap K ephemeral nonce dk master_pub =
     (let wrap_key = cx_hkdf K (cx_dh K ephemeral master_pub) DK_WRAP_INFO in
      \<lparr>wm_ephemeral_pub = cx_public K ephemeral, wm_wrapped = aead_seal K nonce wrap_key dk\<rparr>)"

definition master_unwrap :: "crypto \<Rightarrow> bytes \<Rightarrow> wrapped_by_master \<Rightarrow> (key_resolver_error, bytes) result" where
  "master_unwrap K master_priv w =
     (let wrap_key = cx_hkdf K (cx_dh K master_priv (wm_ephemeral_pub w)) DK_WRAP_INFO in
      bind_r (ok_or KrDecryptFailed (aead_open K wrap_key (wm_wrapped w))) (\<lambda>b.
        if length b \<noteq> 32 then Inl KrDecryptFailed else Inr b))"

subsection \<open>The master key and sealed envelopes (master.rs)\<close>

definition MAGIC :: bytes where "MAGIC = ''TKS1''"
definition VERSION :: char where "VERSION = CHR 0x01"
definition EPHEMERAL_LEN :: nat where "EPHEMERAL_LEN = 32"
definition HKDF_INFO :: bytes where "HKDF_INFO = ''talk/file-seal''"

datatype seal_error = BadMagic | BadVersion char | TooShort | SealDecryptFailed

record master_key_pair =
  mk_private :: bytes
  mk_public :: bytes

definition generate_master_pair_with :: "crypto \<Rightarrow> bytes \<Rightarrow> master_key_pair" where
  "generate_master_pair_with K secret = \<lparr>mk_private = secret, mk_public = cx_public K secret\<rparr>"

definition master_pubkey :: "crypto \<Rightarrow> bytes \<Rightarrow> bytes" where
  "master_pubkey K priv = cx_public K priv"

definition derive_wrap_key :: "crypto \<Rightarrow> bytes \<Rightarrow> bytes" where
  "derive_wrap_key K shared = cx_hkdf K shared HKDF_INFO"

definition seal_envelope :: "crypto \<Rightarrow> bytes \<Rightarrow> bytes \<Rightarrow> bytes \<Rightarrow> bytes \<Rightarrow> bytes" where
  "seal_envelope K ephemeral nonce master_pub data =
     MAGIC @ [VERSION] @ cx_public K ephemeral @
     aead_seal K nonce (derive_wrap_key K (cx_dh K ephemeral master_pub)) data"

definition open_envelope :: "crypto \<Rightarrow> bytes \<Rightarrow> bytes \<Rightarrow> (seal_error, bytes) result" where
  "open_envelope K priv envelope =
     (let head = length MAGIC + 1 + EPHEMERAL_LEN in
      if length envelope < head then Inl TooShort
      else if take 4 envelope \<noteq> MAGIC then Inl BadMagic
      else if envelope ! 4 \<noteq> VERSION then Inl (BadVersion (envelope ! 4))
      else
        (let ephemeral_pub = take EPHEMERAL_LEN (drop 5 envelope);
             wrap_key = derive_wrap_key K (cx_dh K priv ephemeral_pub) in
         ok_or SealDecryptFailed (aead_open K wrap_key (drop head envelope))))"

subsection \<open>The contract of a share scheme\<close>

text \<open>
  A scheme wraps a data key under shares so that each share opens its own wrapper. What the resolver
  relies on is stated once and proved for every scheme that keeps the law.
\<close>

locale share_scheme =
  fixes wrap :: "'r \<Rightarrow> bytes \<Rightarrow> bytes list \<Rightarrow> 'w list"
    and unwrap :: "bytes \<Rightarrow> 'w \<Rightarrow> (share_error, bytes) result"
    and ok_rng :: "'r \<Rightarrow> bool"
  assumes wrap_length: "length (wrap rnd dk shares) = length shares"
    and wrap_unwrap: "ok_rng rnd \<Longrightarrow> length dk = KEY_LEN \<Longrightarrow> i < length shares \<Longrightarrow> length (shares ! i) = KEY_LEN \<Longrightarrow>
      unwrap (shares ! i) (wrap rnd dk shares ! i) = Inr dk"
begin

lemma resolve_first:
  "\<exists>w \<in> set ws. unwrap share w = Inr dk \<Longrightarrow> \<forall>w \<in> set ws. \<forall>k. unwrap share w = Inr k \<longrightarrow> k = dk \<Longrightarrow>
   resolve_loop unwrap share ws e = Inr dk"
  by (induction ws arbitrary: e) (auto split: sum.splits)

lemma resolve_some: "\<exists>w \<in> set ws. is_ok (unwrap share w) \<Longrightarrow> \<exists>k. resolve_loop unwrap share ws e = Inr k"
  by (induction ws arbitrary: e) (auto simp: is_ok_def split: sum.splits)

lemma resolve_none: "\<forall>w \<in> set ws. \<not> is_ok (unwrap share w) \<Longrightarrow> \<exists>k. resolve_loop unwrap share ws e = Inl k"
  by (induction ws arbitrary: e) (auto simp: is_ok_def split: sum.splits)

lemma resolver_accepts_iff:
  "is_ok (share_resolver_unwrap unwrap ws (ShareCred share)) \<longleftrightarrow> (\<exists>w \<in> set ws. is_ok (unwrap share w))"
  using resolve_some[of ws share ShareMismatch] resolve_none[of ws share ShareMismatch]
  by (cases "\<exists>w \<in> set ws. is_ok (unwrap share w)") (auto simp: share_resolver_unwrap_def is_ok_def split: sum.splits)

lemma every_share_unlocks:
  assumes "ok_rng rnd" "length dk = KEY_LEN" "share \<in> set shares" "length share = KEY_LEN"
  shows "\<exists>k. share_resolver_unwrap unwrap (wrap rnd dk shares) (ShareCred share) = Inr k"
    and "(\<forall>w \<in> set (wrap rnd dk shares). \<forall>k. unwrap share w = Inr k \<longrightarrow> k = dk) \<Longrightarrow>
      share_resolver_unwrap unwrap (wrap rnd dk shares) (ShareCred share) = Inr dk"
proof -
  obtain i where i: "i < length shares" "shares ! i = share" using assms(3) by (auto simp: in_set_conv_nth)
  then have u: "unwrap share (wrap rnd dk shares ! i) = Inr dk" using wrap_unwrap[OF assms(1,2) i(1)] assms(4) by simp
  have w: "wrap rnd dk shares ! i \<in> set (wrap rnd dk shares)" using i wrap_length by simp
  have ok: "\<exists>w \<in> set (wrap rnd dk shares). is_ok (unwrap share w)"
    by (rule bexI[OF _ w]) (simp add: is_ok_def u)
  show "\<exists>k. share_resolver_unwrap unwrap (wrap rnd dk shares) (ShareCred share) = Inr k"
    using resolve_some[OF ok] by (simp add: share_resolver_unwrap_def)
  show "share_resolver_unwrap unwrap (wrap rnd dk shares) (ShareCred share) = Inr dk"
    if "\<forall>w \<in> set (wrap rnd dk shares). \<forall>k. unwrap share w = Inr k \<longrightarrow> k = dk"
    using resolve_first[OF _ that] u w by (auto simp: share_resolver_unwrap_def)
qed

end

lemma aead_open_seal: "aead_ok K \<Longrightarrow> length key = 32 \<Longrightarrow> length nonce = 12 \<Longrightarrow> aead_open K key (aead_seal K nonce key p) = Some p"
  by (simp add: aead_ok_def aead_open_def aead_seal_def)

lemma share_wrap_nth:
  "i < length shares \<Longrightarrow> share_wrap K rnd dk shares ! i =
     \<lparr>ws_share_id = fst (rnd i), ws_wrapped = aead_seal K (snd (rnd i)) (shares ! i) dk\<rparr>"
  by (simp add: share_wrap_def nth_enumerate_eq)

text \<open>The per-share scheme of the program keeps the contract when the cipher does.\<close>

definition rng_ok :: "crypto \<Rightarrow> share_rng \<Rightarrow> bool" where
  "rng_ok K rnd \<longleftrightarrow> aead_ok K \<and> (\<forall>i. length (snd (rnd i)) = 12)"

interpretation per_share: share_scheme "share_wrap K" "share_unwrap K" "rng_ok K" for K
proof unfold_locales
  show "length (share_wrap K rnd dk shares) = length shares" for rnd dk shares by (simp add: share_wrap_def)
  show "share_unwrap K (shares ! i) (share_wrap K rnd dk shares ! i) = Inr dk"
    if "rng_ok K rnd" "length dk = KEY_LEN" "i < length shares" "length (shares ! i) = KEY_LEN" for rnd dk shares i
    using that aead_open_seal[of K "shares ! i" "snd (rnd i)" dk] by (simp add: share_unwrap_def share_wrap_nth rng_ok_def KEY_LEN_def)
qed

subsection \<open>Claims\<close>

text \<open>
  App passwords: a data key wrapped under any list of shares is unlocked by every one of them,
  whatever the order and the number of the other wrappers; the key is the wrapped one when no other
  wrapper of the set opens under that share to a different key; a share that opens no wrapper, and
  any master credential, is refused; and a master key unwraps the data key wrapped for its public half.
\<close>

theorem data_key_unlocks:
  assumes "aead_ok K" "dh_ok K" "\<And>i. length (snd (rnd i)) = 12" "length dk = 32" "length ephemeral = 32" "length master = 32" "length nonce = 12"
    and "share \<in> set shares" "length share = 32"
  shows "(\<exists>k. share_resolver_unwrap (share_unwrap K) (share_wrap K rnd dk shares) (ShareCred share) = Inr k \<and>
        ((\<forall>w \<in> set (share_wrap K rnd dk shares). \<forall>k. share_unwrap K share w = Inr k \<longrightarrow> k = dk) \<longrightarrow> k = dk)) \<and>
    (is_ok (share_resolver_unwrap (share_unwrap K) ws (ShareCred s)) \<longleftrightarrow> (\<exists>w \<in> set ws. is_ok (share_unwrap K s w))) \<and>
    share_resolver_unwrap (share_unwrap K) ws (MasterCred m) = Inl ShareMismatch \<and>
    master_unwrap K master (master_wrap K ephemeral nonce dk (master_pubkey K master)) = Inr dk"
proof (intro conjI)
  have r: "rng_ok K rnd" "length dk = KEY_LEN" "length share = KEY_LEN" using assms by (simp_all add: rng_ok_def KEY_LEN_def)
  show "\<exists>k. share_resolver_unwrap (share_unwrap K) (share_wrap K rnd dk shares) (ShareCred share) = Inr k \<and>
        ((\<forall>w \<in> set (share_wrap K rnd dk shares). \<forall>k. share_unwrap K share w = Inr k \<longrightarrow> k = dk) \<longrightarrow> k = dk)"
    using per_share.every_share_unlocks[OF r(1,2) assms(8) r(3)] by (metis Inr_inject)
  show "is_ok (share_resolver_unwrap (share_unwrap K) ws (ShareCred s)) \<longleftrightarrow> (\<exists>w \<in> set ws. is_ok (share_unwrap K s w))"
    by (rule per_share.resolver_accepts_iff)
  show "share_resolver_unwrap (share_unwrap K) ws (MasterCred m) = Inl ShareMismatch" by (simp add: share_resolver_unwrap_def)
  have "cx_dh K master (cx_public K ephemeral) = cx_dh K ephemeral (cx_public K master)" "\<And>s i. length (cx_hkdf K s i) = 32"
    using assms(2,5,6) by (simp_all add: dh_ok_def)
  then show "master_unwrap K master (master_wrap K ephemeral nonce dk (master_pubkey K master)) = Inr dk"
    using assms(1,4,7) by (simp add: master_unwrap_def master_wrap_def master_pubkey_def Let_def aead_open_seal)
qed

definition demo_key :: "nat \<Rightarrow> bytes" where "demo_key n = replicate n (CHR 0x07)"

theorem data_key_unlocks_witness:
  "(\<exists>k. share_resolver_unwrap (share_unwrap demo_crypto)
      (share_wrap demo_crypto (\<lambda>_. (demo_key 16, demo_key 12)) (demo_key 32) [replicate 32 (CHR 0x01), demo_key 32])
      (ShareCred (demo_key 32)) = Inr k) \<and>
   master_unwrap demo_crypto (demo_key 32)
     (master_wrap demo_crypto (demo_key 32) (demo_key 12) (demo_key 32) (master_pubkey demo_crypto (demo_key 32))) = Inr (demo_key 32)"
proof -
  have l: "length (demo_key n) = n" for n by (simp add: demo_key_def)
  show ?thesis
    using data_key_unlocks[of demo_crypto "\<lambda>_. (demo_key 16, demo_key 12)" "demo_key 32" "demo_key 32" "demo_key 32" "demo_key 12"
        "demo_key 32" "[replicate 32 (CHR 0x01), demo_key 32]" "[]" "[]" "[]", OF demo_aead_ok demo_dh_ok] l by auto
qed

lemma open_seal:
  assumes "aead_ok K" "dh_ok K" "length ephemeral = 32" "length priv = 32" "length nonce = 12"
  shows "open_envelope K priv (seal_envelope K ephemeral nonce (master_pubkey K priv) data) = Inr data"
proof -
  have d: "cx_dh K priv (cx_public K ephemeral) = cx_dh K ephemeral (cx_public K priv)" "\<And>s i. length (cx_hkdf K s i) = 32"
      "length (cx_public K ephemeral) = 32"
    using assms(2-4) by (simp_all add: dh_ok_def)
  let ?env = "seal_envelope K ephemeral nonce (master_pubkey K priv) data"
  have h: "take 4 ?env = MAGIC" "?env ! 4 = VERSION" "take 32 (drop 5 ?env) = cx_public K ephemeral"
      "drop 37 ?env = aead_seal K nonce (derive_wrap_key K (cx_dh K ephemeral (cx_public K priv))) data" "37 \<le> length ?env"
    using d(3) by (simp_all add: seal_envelope_def MAGIC_def VERSION_def master_pubkey_def)
  then show ?thesis
    using d assms(1,5) by (simp add: open_envelope_def Let_def MAGIC_def EPHEMERAL_LEN_def derive_wrap_key_def aead_open_seal)
qed

text \<open>
  Sealed envelopes: what is sealed to a master public key is opened exactly by the matching private
  key, for any data; and \<open>open_envelope\<close> refuses every input that is too short for its header, that
  does not start with the magic bytes, or whose version is not 1, each with its own error, before any
  decryption.
\<close>

theorem envelope_roundtrip:
  assumes "aead_ok K" "dh_ok K" "length ephemeral = 32" "length priv = 32" "length nonce = 12"
  shows "open_envelope K priv (seal_envelope K ephemeral nonce (master_pubkey K priv) data) = Inr data \<and>
    (length e < 37 \<longrightarrow> open_envelope K p e = Inl TooShort) \<and>
    (37 \<le> length e \<and> take 4 e \<noteq> ''TKS1'' \<longrightarrow> open_envelope K p e = Inl BadMagic) \<and>
    (37 \<le> length e \<and> take 4 e = ''TKS1'' \<and> e ! 4 \<noteq> CHR 0x01 \<longrightarrow> open_envelope K p e = Inl (BadVersion (e ! 4)))"
  using open_seal[OF assms]
  by (auto simp: open_envelope_def Let_def MAGIC_def VERSION_def EPHEMERAL_LEN_def)

theorem envelope_roundtrip_witness:
  "open_envelope demo_crypto (demo_key 32)
     (seal_envelope demo_crypto (demo_key 32) (demo_key 12) (master_pubkey demo_crypto (demo_key 32)) ''secret'') = Inr ''secret'' \<and>
   open_envelope demo_crypto (demo_key 32) ''TKS1'' = Inl TooShort \<and>
   open_envelope demo_crypto (demo_key 32) (''TKS1'' @ demo_key 33) = Inl (BadVersion (CHR 0x07))"
proof -
  have l: "length (demo_key n) = n" "0 < n \<Longrightarrow> demo_key n ! 0 = CHR 0x07" for n by (simp_all add: demo_key_def)
  note r = envelope_roundtrip[OF demo_aead_ok demo_dh_ok l(1) l(1) l(1)]
  show ?thesis using r[of "''secret''" "''TKS1''" "demo_key 32"] r[of "''secret''" "''TKS1'' @ demo_key 33" "demo_key 32"]
    by (simp add: l nth_append)
qed

end
