(* ===== verification/Imap_Parse.thy ===== *)
theory Imap_Parse
  imports Rust_Str
begin

text \<open>
  Reading IMAP commands (\<^verbatim>\<open>talk-imap/src/parse.rs\<close>): the tokenizer, the parser of one command line and
  the incremental reader that assembles lines and literals from the bytes of the connection, with the
  quoting of \<^verbatim>\<open>talk-imap/src/response.rs\<close> that the tokenizer undoes. The scan for atoms does not advance
  over a closing parenthesis, so the tokenizer need not return: it is a partial function, and \<open>None\<close>
  is a run that never ends.
\<close>

subsection \<open>Data\<close>

datatype parse_error = InvalidCommand | Unterminated | BadLiteral | UnclosedQuote

record parsed_command =
  pc_tag :: rstr
  pc_name :: rstr
  pc_args :: "rstr list"

record command_reader =
  cr_buf :: bytes
  cr_pending_line :: bytes
  cr_literal_remaining :: "nat option"

definition reader_default :: command_reader where
  "reader_default = \<lparr>cr_buf = [], cr_pending_line = [], cr_literal_remaining = None\<rparr>"

definition show_parse_error :: "parse_error \<Rightarrow> rstr" where
  "show_parse_error e =
     (case e of InvalidCommand \<Rightarrow> ''InvalidCommand'' | Unterminated \<Rightarrow> ''Unterminated''
      | BadLiteral \<Rightarrow> ''BadLiteral'' | UnclosedQuote \<Rightarrow> ''UnclosedQuote'')"

subsection \<open>The tokenizer\<close>

text \<open>The scan to the parenthesis that closes \<open>depth\<close> open ones: the characters passed and the rest.\<close>

fun paren_scan :: "nat \<Rightarrow> bytes list \<Rightarrow> (bytes list \<times> bytes list) option" where
  "paren_scan 0 cs = Some ([], cs)"
| "paren_scan (Suc d) [] = None"
| "paren_scan (Suc d) (c # cs) =
     map_option (\<lambda>(a, b). (c # a, b))
       (paren_scan (if c = ''('' then Suc (Suc d) else if c = '')'' then d else Suc d) cs)"

text \<open>The scan to the closing quote: the text without its escapes and the rest.\<close>

fun quote_scan :: "bytes list \<Rightarrow> (rstr \<times> bytes list) option" where
  "quote_scan [] = None"
| "quote_scan [c] = (if c = [CHR 0x22] then Some ([], []) else None)"
| "quote_scan (c # d # cs) =
     (if c = [CHR 0x5C] then map_option (\<lambda>(a, b). (d @ a, b)) (quote_scan cs)
      else if c = [CHR 0x22] then Some ([], d # cs)
      else map_option (\<lambda>(a, b). (c @ a, b)) (quote_scan (d # cs)))"

definition atom_char :: "bytes \<Rightarrow> bool" where
  "atom_char c \<longleftrightarrow> \<not> is_whitespace c \<and> c \<noteq> ''('' \<and> c \<noteq> '')'' \<and> c \<noteq> [CHR 0x22]"

partial_function (option) tokenize_loop :: "bytes list \<Rightarrow> rstr list \<Rightarrow> (parse_error, rstr list) result option" where
  "tokenize_loop cs tokens =
     (case cs of [] \<Rightarrow> Some (Inr tokens)
      | c # r \<Rightarrow>
          if is_whitespace c then tokenize_loop r tokens
          else if c = ''('' then
            (case paren_scan 1 r of
               None \<Rightarrow> Some (Inl UnclosedQuote)
             | Some (a, b) \<Rightarrow> tokenize_loop b (tokens @ [concat (c # a)]))
          else if c = [CHR 0x22] then
            (case quote_scan r of
               None \<Rightarrow> Some (Inl UnclosedQuote)
             | Some (a, b) \<Rightarrow> tokenize_loop b (tokens @ [a]))
          else tokenize_loop (dropWhile atom_char cs) (tokens @ [concat (takeWhile atom_char cs)]))"

definition tokenize :: "bytes \<Rightarrow> (parse_error, rstr list) result option" where
  "tokenize line = tokenize_loop (chars (from_utf8_lossy line)) []"

subsection \<open>One command line\<close>

definition parse_tokens :: "rstr list \<Rightarrow> (parse_error, parsed_command) result" where
  "parse_tokens tokens =
     (case tokens of
        [] \<Rightarrow> Inl InvalidCommand
      | [t] \<Rightarrow> Inr \<lparr>pc_tag = [], pc_name = to_ascii_uppercase t, pc_args = []\<rparr>
      | tag # name # args \<Rightarrow> Inr \<lparr>pc_tag = tag, pc_name = to_ascii_uppercase name, pc_args = args\<rparr>)"

definition parse_line :: "bytes \<Rightarrow> (parse_error, parsed_command) result option" where
  "parse_line line = map_option (\<lambda>r. bind_r r parse_tokens) (tokenize line)"

definition MAX_LITERAL :: nat where "MAX_LITERAL = 2 ^ 20"

definition literal_count :: "bytes \<Rightarrow> (nat \<times> nat) option" where
  "literal_count line =
     (case rsplit_once (CHR ''{'') (from_utf8_lossy line) of
        None \<Rightarrow> None
      | Some (_, rest) \<Rightarrow>
          if \<not> ends_with rest ''}'' then None
          else
            (let inner = butlast rest in
             case parse_uint usize_max (trim inner) of
               None \<Rightarrow> None
             | Some n \<Rightarrow> if n > MAX_LITERAL then None else Some (n, 2 + length inner)))"

subsection \<open>The incremental reader\<close>

type_synonym feed_result = "((parse_error, parsed_command list) result \<times> command_reader) option"

text \<open>The line before the first line feed, without its carriage return, and what follows it.\<close>

definition next_line :: "bytes \<Rightarrow> (parse_error, bytes \<times> bytes) result" where
  "next_line buf =
     (let l = takeWhile (\<lambda>b. b \<noteq> CHR 0x0A) buf; rest = tl (dropWhile (\<lambda>b. b \<noteq> CHR 0x0A) buf) in
      if l = [] then Inr ([], rest)
      else if last l \<noteq> CHR 0x0D then Inl Unterminated
      else Inr (butlast l, rest))"

lemma next_line_shorter: "CHR 0x0A \<in> set buf \<Longrightarrow> next_line buf = Inr (l, rest) \<Longrightarrow> length rest < length buf"
proof -
  assume a: "CHR 0x0A \<in> set buf" "next_line buf = Inr (l, rest)"
  then have "rest = tl (dropWhile (\<lambda>b. b \<noteq> CHR 0x0A) buf)" by (auto simp: next_line_def Let_def split: if_splits)
  moreover have "dropWhile (\<lambda>b. b \<noteq> CHR 0x0A) buf \<noteq> []" using a(1) by (auto simp: dropWhile_eq_Nil_conv)
  ultimately show ?thesis using length_dropWhile_le[of "\<lambda>b. b \<noteq> CHR 0x0A" buf]
    by (cases "dropWhile (\<lambda>b. b \<noteq> CHR 0x0A) buf") auto
qed

function feed_loop :: "command_reader \<Rightarrow> parsed_command list \<Rightarrow> feed_result" where
  "feed_loop r commands =
     (case cr_literal_remaining r of
        Some n \<Rightarrow>
          (let t = min n (length (cr_buf r));
               r' = r\<lparr>cr_pending_line := cr_pending_line r @ take t (cr_buf r), cr_buf := drop t (cr_buf r)\<rparr> in
           if n - t = 0 then feed_loop (r'\<lparr>cr_literal_remaining := None\<rparr>) commands
           else Some (Inr commands, r'\<lparr>cr_literal_remaining := Some (n - t)\<rparr>))
      | None \<Rightarrow>
          if CHR 0x0A \<notin> set (cr_buf r) then Some (Inr commands, r)
          else
            (case next_line (cr_buf r) of
               Inl e \<Rightarrow> Some (Inl e, r\<lparr>cr_buf := []\<rparr>)
             | Inr (l, rest) \<Rightarrow>
                 (case literal_count l of
                    Some (count, marker_len) \<Rightarrow>
                      Some (Inr commands,
                            r\<lparr>cr_buf := rest, cr_literal_remaining := Some count,
                              cr_pending_line := cr_pending_line r @ take (length l - marker_len) l\<rparr>)
                  | None \<Rightarrow>
                      (case parse_line (cr_pending_line r @ l) of
                         None \<Rightarrow> None
                       | Some (Inl e) \<Rightarrow> Some (Inl e, r\<lparr>cr_buf := rest, cr_pending_line := []\<rparr>)
                       | Some (Inr c) \<Rightarrow> feed_loop (r\<lparr>cr_buf := rest, cr_pending_line := []\<rparr>) (commands @ [c])))))"
  by pat_completeness auto
termination
  by (relation "measure (\<lambda>(r, _). 2 * length (cr_buf r) + (if cr_literal_remaining r = None then 0 else 1))")
     (auto dest: next_line_shorter)

declare feed_loop.simps [simp del]

definition feed :: "bytes \<Rightarrow> command_reader \<Rightarrow> feed_result" where
  "feed data r = feed_loop (r\<lparr>cr_buf := cr_buf r @ data\<rparr>) []"

definition needs_continuation :: "command_reader \<Rightarrow> bool" where
  "needs_continuation r \<longleftrightarrow> cr_literal_remaining r \<noteq> None"

subsection \<open>Responses\<close>

datatype imap_status = ImapOk | ImapNo | ImapBad

definition imap_status_str :: "imap_status \<Rightarrow> rstr" where
  "imap_status_str s = (case s of ImapOk \<Rightarrow> ''OK'' | ImapNo \<Rightarrow> ''NO'' | ImapBad \<Rightarrow> ''BAD'')"

definition EOL :: rstr where "EOL = [CHR 0x0D, CHR 0x0A]"

definition untagged :: "rstr \<Rightarrow> rstr" where
  "untagged body = ''* '' @ body @ EOL"

definition tagged :: "rstr \<Rightarrow> imap_status \<Rightarrow> rstr \<Rightarrow> rstr" where
  "tagged tag s text = tag @ '' '' @ imap_status_str s @ '' '' @ text @ EOL"

definition continuation :: "rstr \<Rightarrow> rstr" where
  "continuation text = ''+ '' @ text @ EOL"

definition imap_greeting :: "rstr \<Rightarrow> rstr" where
  "imap_greeting hostname = ''* OK [CAPABILITY IMAP4rev1 IDLE NAMESPACE AUTH=PLAIN] '' @ hostname @ '' Talk IMAP ready'' @ EOL"

definition status_from_parse_error :: "rstr \<Rightarrow> parse_error \<Rightarrow> rstr" where
  "status_from_parse_error tag e = tagged tag ImapBad (''Invalid command: '' @ show_parse_error e)"

definition select_responses :: "nat \<Rightarrow> nat \<Rightarrow> nat \<Rightarrow> nat \<Rightarrow> rstr" where
  "select_responses exist unseen uidvalidity uidnext =
     untagged (show_nat exist @ '' EXISTS'') @ untagged ''0 RECENT'' @
     untagged (''FLAGS ('' @ [CHR 0x5C] @ ''Seen '' @ [CHR 0x5C] @ ''Answered '' @ [CHR 0x5C] @ ''Flagged '' @ [CHR 0x5C] @ ''Deleted)'') @
     untagged (''OK [UNSEEN '' @ show_nat unseen @ '']'') @ untagged (''OK [UIDVALIDITY '' @ show_nat uidvalidity @ '']'') @
     untagged (''OK [UIDNEXT '' @ show_nat uidnext @ '']'')"

text \<open>The characters that are escaped are ASCII, so the loop over characters is one over bytes.\<close>

definition quote :: "rstr \<Rightarrow> rstr" where
  "quote s = [CHR 0x22] @ concat (map (\<lambda>c. if c = CHR 0x5C \<or> c = CHR 0x22 then [CHR 0x5C, c] else [c]) s) @ [CHR 0x22]"

subsection \<open>When the tokenizer returns\<close>

text \<open>
  A scanner for a closing parenthesis outside of lists and quoted strings, one character at a time.
\<close>

datatype scan = Top | InList nat | InString | Escaped

fun stray_close :: "scan \<Rightarrow> bytes list \<Rightarrow> bool" where
  "stray_close s [] = False"
| "stray_close Top (c # cs) =
     (if c = '')'' then True
      else stray_close (if c = ''('' then InList 0 else if c = [CHR 0x22] then InString else Top) cs)"
| "stray_close (InList d) (c # cs) =
     stray_close (if c = ''('' then InList (Suc d) else if c = '')'' then (case d of 0 \<Rightarrow> Top | Suc e \<Rightarrow> InList e) else InList d) cs"
| "stray_close InString (c # cs) =
     stray_close (if c = [CHR 0x5C] then Escaped else if c = [CHR 0x22] then Top else InString) cs"
| "stray_close Escaped (c # cs) = stray_close InString cs"

lemma stray_list: "stray_close (InList d) cs = (case paren_scan (Suc d) cs of None \<Rightarrow> False | Some (a, b) \<Rightarrow> stray_close Top b)"
  by (induction "Suc d" cs arbitrary: d rule: paren_scan.induct) (auto split: option.splits nat.splits)

lemma stray_string: "stray_close InString cs = (case quote_scan cs of None \<Rightarrow> False | Some (a, b) \<Rightarrow> stray_close Top b)"
  by (induction cs rule: quote_scan.induct) (auto split: option.splits)

lemma ws_not_special: "is_whitespace c \<Longrightarrow> c \<noteq> ''('' \<and> c \<noteq> '')'' \<and> c \<noteq> [CHR 0x22]"
  by (auto simp: ascii_ws_single)

lemma stray_skip: "(\<And>c. c \<in> set a \<Longrightarrow> c \<noteq> ''('' \<and> c \<noteq> '')'' \<and> c \<noteq> [CHR 0x22]) \<Longrightarrow> stray_close Top (a @ r) = stray_close Top r"
  by (induction a) auto

lemma paren_scan_split: "paren_scan d cs = Some (a, b) \<Longrightarrow> cs = a @ b"
  by (induction d cs arbitrary: a b rule: paren_scan.induct) auto

lemma quote_scan_shorter: "quote_scan cs = Some (a, b) \<Longrightarrow> length b < length cs"
proof (induction cs arbitrary: a b rule: quote_scan.induct)
  case (3 c d cs)
  then show ?case by (fastforce split: if_splits)
qed (auto split: if_splits)

text \<open>One lemma per kind of token.\<close>

lemma loop_nil [simp]: "tokenize_loop [] tokens = Some (Inr tokens)"
  by (subst tokenize_loop.simps) simp

lemma loop_space: "is_whitespace c \<Longrightarrow> tokenize_loop (c # r) tokens = tokenize_loop r tokens"
  by (subst tokenize_loop.simps) simp

lemma loop_list:
  "tokenize_loop (''('' # r) tokens =
     (case paren_scan 1 r of None \<Rightarrow> Some (Inl UnclosedQuote)
      | Some (a, b) \<Rightarrow> tokenize_loop b (tokens @ [concat (''('' # a)]))"
  using ws_not_special[of "''(''"] by (subst tokenize_loop.simps) auto

lemma loop_string:
  "tokenize_loop ([CHR 0x22] # r) tokens =
     (case quote_scan r of None \<Rightarrow> Some (Inl UnclosedQuote) | Some (a, b) \<Rightarrow> tokenize_loop b (tokens @ [a]))"
  using ws_not_special[of "[CHR 0x22]"] by (subst tokenize_loop.simps) auto

lemma loop_atom:
  "atom_char c \<Longrightarrow> tokenize_loop (c # r) tokens =
     tokenize_loop (dropWhile atom_char r) (tokens @ [concat (c # takeWhile atom_char r)])"
  by (subst tokenize_loop.simps) (simp add: atom_char_def)

lemma loop_stray: "tokenize_loop ('')'' # r) tokens = None"
proof -
  have "\<not> (\<exists>r. cs = '')'' # r)" if "tokenize_loop cs tokens = Some y" for cs tokens y
  proof (rule tokenize_loop.raw_induct[OF _ that], rule notI, elim exE)
    fix loop cs tokens y r
    assume ih: "\<And>cs tokens y. loop cs tokens = Some y \<Longrightarrow> \<not> (\<exists>r. cs = '')'' # r)"
      and b: "(case cs of [] \<Rightarrow> Some (Inr tokens)
        | c # r \<Rightarrow> if is_whitespace c then loop r tokens
            else if c = ''('' then (case paren_scan 1 r of None \<Rightarrow> Some (Inl UnclosedQuote) | Some (a, b) \<Rightarrow> loop b (tokens @ [concat (c # a)]))
            else if c = [CHR 0x22] then (case quote_scan r of None \<Rightarrow> Some (Inl UnclosedQuote) | Some (a, b) \<Rightarrow> loop b (tokens @ [a]))
            else loop (dropWhile atom_char cs) (tokens @ [concat (takeWhile atom_char cs)])) = Some y"
      and cs: "cs = '')'' # r"
    have "\<not> is_whitespace '')''" "\<not> atom_char '')''" using ws_not_special by (auto simp: atom_char_def)
    with b cs have "loop ('')'' # r) (tokens @ [[]]) = Some y" by simp
    with ih show False by blast
  qed
  then show ?thesis by (cases "tokenize_loop ('')'' # r) tokens") auto
qed

lemma tokenize_loop_returns: "tokenize_loop cs tokens = None \<longleftrightarrow> stray_close Top cs"
proof (induction cs arbitrary: tokens rule: length_induct)
  case (1 cs)
  show ?case
  proof (cases cs)
    case (Cons c r)
    consider "is_whitespace c" | "c = ''(''" | "c = [CHR 0x22]" | "c = '')''" | "atom_char c"
      by (auto simp: atom_char_def)
    then show ?thesis
    proof cases
      case 1
      with Cons "1.IH" ws_not_special[OF 1] show ?thesis by (simp add: loop_space)
    next
      case 2
      with Cons "1.IH" show ?thesis
        by (auto simp: loop_list stray_list split: option.splits dest!: paren_scan_split)
    next
      case 3
      with Cons "1.IH" show ?thesis
        by (auto simp: loop_string stray_string split: option.splits dest!: quote_scan_shorter)
    next
      case 4
      with Cons show ?thesis by (simp add: loop_stray)
    next
      case 5
      have "length (dropWhile atom_char r) < length cs" using Cons length_dropWhile_le[of atom_char r] by simp
      moreover have "c \<noteq> ''('' \<and> c \<noteq> '')'' \<and> c \<noteq> [CHR 0x22]" if "c \<in> set (takeWhile atom_char r)" for c
        using set_takeWhileD[OF that] by (simp add: atom_char_def)
      then have "stray_close Top r = stray_close Top (dropWhile atom_char r)"
        using stray_skip[of "takeWhile atom_char r" "dropWhile atom_char r"] by simp
      ultimately show ?thesis using Cons 5 "1.IH" by (simp add: loop_atom) (simp add: atom_char_def)
    qed
  qed simp
qed

subsection \<open>Quoted arguments\<close>

text \<open>The bytes of a command: two atoms and quoted arguments, as a client may write any command.\<close>

definition imap_atom :: "rstr \<Rightarrow> bool" where
  "imap_atom t \<longleftrightarrow> token t \<and> (\<forall>c \<in> set t. c \<noteq> CHR ''('' \<and> c \<noteq> CHR '')'' \<and> c \<noteq> CHR 0x22 \<and> c \<noteq> CHR ''{'')"

definition imap_line :: "rstr \<Rightarrow> rstr \<Rightarrow> rstr list \<Rightarrow> bytes" where
  "imap_line tag name args = tag @ '' '' @ name @ concat (map (\<lambda>a. '' '' @ quote a) args)"

lemma chars_valid_append: "utf8_valid a \<Longrightarrow> chars (a @ b) = chars a @ chars b"
proof (induction a rule: chars.induct)
  case (2 c cs)
  then have v: "fst (utf8_step c cs)" "utf8_valid (drop (snd (utf8_step c cs)) cs)" by auto
  with 2 show ?case by (simp add: utf8_step_append utf8_step_len Let_def)
qed simp

lemma cont_high:
  assumes v: "fst (utf8_step c cs)" and x: "x \<in> set (take (snd (utf8_step c cs)) cs)"
  shows "128 \<le> byte x"
proof -
  obtain i where i: "i < snd (utf8_step c cs)" "i < length cs" "x = cs ! i" using x by (auto simp: in_set_conv_nth)
  have g: "byte x = get0 cs i" using i by (simp add: get0_def)
  have "snd (utf8_step c cs) \<le> 3" by (auto simp: utf8_step_def Let_def)
  then consider "i = 0" | "i = 1" | "i = 2" using i(1) by linarith
  then show ?thesis
    using i(1) v unfolding g by cases (auto simp: utf8_step_def Let_def is_cont_def second_ok_def split: if_splits)
qed

lemma escaped_ascii_char: "utf8_valid s \<Longrightarrow> ch \<in> set (chars s) \<Longrightarrow> CHR 0x5C \<in> set ch \<or> CHR 0x22 \<in> set ch \<Longrightarrow> length ch = 1"
proof (induction s rule: chars.induct)
  case (2 c cs)
  have v: "fst (utf8_step c cs)" "utf8_valid (drop (snd (utf8_step c cs)) cs)" using "2.prems"(1) by auto
  note hi = cont_high[OF v(1)]
  show ?case
  proof (cases "ch = c # take (snd (utf8_step c cs)) cs")
    case True
    have "c = CHR 0x5C \<or> c = CHR 0x22" using "2.prems"(3) True hi by (fastforce simp: byte_def)
    then have "utf8_step c cs = (True, 0)" by (auto simp: byte_def)
    with True show ?thesis by simp
  next
    case False
    with 2 v(2) show ?thesis by (simp add: Let_def)
  qed
qed simp

lemma quote_scan_special: "c = [CHR 0x5C] \<or> c = [CHR 0x22] \<Longrightarrow>
   quote_scan ([CHR 0x5C] # c # cs) = map_option (\<lambda>(a, b). (c @ a, b)) (quote_scan cs)"
  by simp

lemma quote_scan_plain: "c \<noteq> [CHR 0x5C] \<Longrightarrow> c \<noteq> [CHR 0x22] \<Longrightarrow>
   quote_scan (c # cs) = map_option (\<lambda>(a, b). (c @ a, b)) (quote_scan cs)"
  by (cases cs) auto

lemma quote_scan_escaped:
  assumes "\<And>ch. ch \<in> set css \<Longrightarrow> CHR 0x5C \<in> set ch \<or> CHR 0x22 \<in> set ch \<Longrightarrow> length ch = 1"
  shows "quote_scan (concat (map (\<lambda>ch. if ch = [CHR 0x5C] \<or> ch = [CHR 0x22] then [[CHR 0x5C], ch] else [ch]) css) @ [CHR 0x22] # r)
    = Some (concat css, r)"
proof (induction css)
  case Nil
  show ?case by (cases r) auto
next
  case (Cons c css)
  then show ?case
    by (cases "c = [CHR 0x5C] \<or> c = [CHR 0x22]") (simp_all only: list.map concat.simps append.simps append_assoc if_True if_False
          quote_scan_special quote_scan_plain option.map prod.case, auto simp: quote_scan_plain)
qed

lemma chars_one: "fst (utf8_step c cs) \<Longrightarrow> chars (c # take (snd (utf8_step c cs)) cs) = [c # take (snd (utf8_step c cs)) cs]"
  using utf8_step_prefix[of c cs "[]"] by (simp add: Let_def)

text \<open>Escaping by bytes is escaping by characters.\<close>

definition esc :: "char \<Rightarrow> rstr" where
  "esc c = (if c = CHR 0x5C \<or> c = CHR 0x22 then [CHR 0x5C, c] else [c])"

lemma esc_block:
  assumes v: "utf8_valid (c # cs)"
  defines "ch \<equiv> c # take (snd (utf8_step c cs)) cs"
  shows "concat (map esc ch) = (if ch = [CHR 0x5C] \<or> ch = [CHR 0x22] then CHR 0x5C # ch else ch)"
proof (cases "ch = [CHR 0x5C] \<or> ch = [CHR 0x22]")
  case False
  have "esc x = [x]" if x: "x \<in> set ch" for x
  proof (cases "x = CHR 0x5C \<or> x = CHR 0x22")
    case True
    then have "length ch = 1" using escaped_ascii_char[OF v, of ch] x by (auto simp: ch_def Let_def)
    then have "ch = [x]" using x by (auto simp: length_Suc_conv)
    with True False show ?thesis by simp
  qed (simp add: esc_def)
  then have "map esc ch = map (\<lambda>x. [x]) ch" by (rule map_cong[OF refl])
  with False show ?thesis by (simp only: concat_map_single if_False)
qed (auto simp: esc_def)

lemma esc_chars:
  assumes "utf8_valid s"
  shows "utf8_valid (concat (map esc s)) \<and> chars (concat (map esc s)) =
    concat (map (\<lambda>ch. if ch = [CHR 0x5C] \<or> ch = [CHR 0x22] then [[CHR 0x5C], ch] else [ch]) (chars s))"
  using assms
proof (induction s rule: chars.induct)
  case (2 c cs)
  let ?n = "snd (utf8_step c cs)" let ?ch = "c # take ?n cs"
  have v: "fst (utf8_step c cs)" "utf8_valid (drop ?n cs)" using "2.prems" by auto
  have one: "utf8_valid ?ch" "chars ?ch = [?ch]" by (rule utf8_valid_char[OF v(1)], rule chars_one[OF v(1)])
  have blk: "utf8_valid (concat (map esc ?ch)) \<and>
      chars (concat (map esc ?ch)) = (if ?ch = [CHR 0x5C] \<or> ?ch = [CHR 0x22] then [[CHR 0x5C], ?ch] else [?ch])"
    unfolding esc_block[OF "2.prems"] using one by (auto simp: byte_def)
  have "concat (map esc (c # cs)) = concat (map esc ?ch) @ concat (map esc (drop ?n cs))"
    using append_take_drop_id[of ?n cs] by (metis append_Cons concat_append map_append)
  with blk 2 v show ?case by (simp only: utf8_valid_append chars_valid_append) (simp add: Let_def)
qed simp

lemma quote_esc: "quote s = [CHR 0x22] @ concat (map esc s) @ [CHR 0x22]"
  by (simp add: quote_def esc_def[abs_def])

lemma utf8_valid_quote: "utf8_valid s \<Longrightarrow> utf8_valid (quote s)"
  using esc_chars[of s] by (simp add: quote_esc utf8_valid_append byte_def)

lemma chars_quote:
  assumes "utf8_valid s"
  shows "chars (quote s @ r) =
    [CHR 0x22] # concat (map (\<lambda>ch. if ch = [CHR 0x5C] \<or> ch = [CHR 0x22] then [[CHR 0x5C], ch] else [ch]) (chars s)) @ [CHR 0x22] # chars r"
  using esc_chars[OF assms] by (simp add: quote_esc chars_valid_append byte_def)

lemma loop_quoted:
  assumes "utf8_valid s"
  shows "tokenize_loop (chars (quote s @ r)) tokens = tokenize_loop (chars r) (tokens @ [s])"
  using assms escaped_ascii_char[OF assms] by (simp add: chars_quote loop_string quote_scan_escaped)

lemma loop_quoted_args:
  "\<forall>a \<in> set args. utf8_valid a \<Longrightarrow>
   tokenize_loop (chars (concat (map (\<lambda>a. '' '' @ quote a) args))) tokens = Some (Inr (tokens @ args))"
  by (induction args arbitrary: tokens) (auto simp: loop_quoted loop_space byte_def)

lemma loop_imap_atom:
  assumes "imap_atom t" "r = [] \<or> (\<exists>r'. r = '' '' @ r')"
  shows "tokenize_loop (chars (t @ r)) tokens = tokenize_loop (chars r) (tokens @ [t])"
proof -
  let ?t = "map (\<lambda>c. [c]) t"
  have ch: "chars (t @ r) = ?t @ chars r"
    using assms(1) by (simp add: imap_atom_def token_def chars_valid_append ascii_chars)
  have at: "\<And>c. c \<in> set ?t \<Longrightarrow> atom_char c" using assms(1) by (auto simp: imap_atom_def token_def atom_char_def)
  have "t \<noteq> []" using assms(1) by (simp add: imap_atom_def token_def)
  then obtain c u where t: "?t = c # u" by (cases t) auto
  have "chars r = [] \<or> (\<exists>r'. chars r = '' '' # r')" using assms(2) by (auto simp: byte_def)
  then have "takeWhile atom_char (u @ chars r) = u \<and> dropWhile atom_char (u @ chars r) = chars r"
    using at t takeWhile_append_sep[of u atom_char "'' ''"] dropWhile_append_sep[of u atom_char "'' ''"]
    by (auto simp: atom_char_def)
  moreover have "concat (c # u) = t" using t[symmetric] by simp
  ultimately show ?thesis using at t by (simp add: ch loop_atom)
qed

lemma command_line_utf8:
  "imap_atom tag \<Longrightarrow> imap_atom name \<Longrightarrow> \<forall>a \<in> set args. utf8_valid a \<Longrightarrow> utf8_valid (imap_line tag name args)"
proof -
  have "utf8_valid (concat (map (\<lambda>a. '' '' @ quote a) args))" if "\<forall>a \<in> set args. utf8_valid a"
    using that by (induction args) (simp_all add: utf8_valid_append utf8_valid_quote byte_def)
  then show "imap_atom tag \<Longrightarrow> imap_atom name \<Longrightarrow> \<forall>a \<in> set args. utf8_valid a \<Longrightarrow> ?thesis"
    by (simp add: imap_line_def imap_atom_def token_def utf8_valid_append byte_def)
qed

lemma parse_command_line:
  assumes "imap_atom tag" "imap_atom name" "\<forall>a \<in> set args. utf8_valid a"
  shows "parse_line (imap_line tag name args) = Some (Inr \<lparr>pc_tag = tag, pc_name = to_ascii_uppercase name, pc_args = args\<rparr>)"
proof -
  let ?args = "concat (map (\<lambda>a. '' '' @ quote a) args)"
  have sp: "?args = [] \<or> (\<exists>r. ?args = '' '' @ r)" by (cases args) auto
  have "chars ('' '' @ u) = '' '' # chars u" for u by (simp add: byte_def)
  with assms sp have "tokenize (imap_line tag name args) = Some (Inr (tag # name # args))"
    using command_line_utf8[OF assms]
    by (simp add: tokenize_def) (simp add: imap_line_def loop_imap_atom loop_space loop_quoted_args[simplified])
  then show ?thesis by (simp add: parse_line_def parse_tokens_def)
qed

subsection \<open>Lines, literals and segments\<close>

lemma rsplit_once_SomeD: "rsplit_once c s = Some (a, b) \<Longrightarrow> s = a @ c # b \<and> c \<notin> set b"
  by (auto simp: rsplit_once_def split: option.splits dest!: split_once_SomeD) (metis append_Cons append_Nil append_assoc rev.simps(2) rev_append rev_rev_ident)

lemma rsplit_once_None: "c \<notin> set s \<Longrightarrow> rsplit_once c s = None"
  by (simp add: rsplit_once_def)

lemma literal_count_None:
  assumes "CHR ''{'' \<notin> set (from_utf8_lossy l) \<or> (\<exists>x. from_utf8_lossy l = x @ [CHR 0x22])"
  shows "literal_count l = None"
proof (cases "rsplit_once (CHR ''{'') (from_utf8_lossy l)")
  case (Some p)
  obtain a b where p: "p = (a, b)" by force
  from Some p have s: "from_utf8_lossy l = a @ CHR ''{'' # b" using rsplit_once_SomeD by blast
  with assms obtain x where "a @ CHR ''{'' # b = x @ [CHR 0x22]" by auto
  then have "\<not> ends_with b ''}''" by (cases b rule: rev_cases) (auto simp: ends_with_iff)
  with Some p show ?thesis by (simp add: literal_count_def)
qed (simp add: literal_count_def)

lemma next_line_crlf: "CHR 0x0A \<notin> set l \<Longrightarrow> next_line (l @ EOL @ rest) = Inr (l, rest)"
proof -
  assume l: "CHR 0x0A \<notin> set l"
  have "takeWhile (\<lambda>b. b \<noteq> CHR 0x0A) ((l @ [CHR 0x0D]) @ CHR 0x0A # rest) = l @ [CHR 0x0D]"
    by (rule takeWhile_append_sep) (use l in auto)
  moreover have "dropWhile (\<lambda>b. b \<noteq> CHR 0x0A) ((l @ [CHR 0x0D]) @ CHR 0x0A # rest) = CHR 0x0A # rest"
    by (rule dropWhile_append_sep) (use l in auto)
  ultimately show ?thesis by (simp add: next_line_def EOL_def Let_def)
qed

lemma next_line_append:
  "CHR 0x0A \<in> set buf \<Longrightarrow> next_line (buf @ b) = (case next_line buf of Inl e \<Rightarrow> Inl e | Inr (l, rest) \<Rightarrow> Inr (l, rest @ b))"
proof -
  assume "CHR 0x0A \<in> set buf"
  then obtain x y where xy: "buf = x @ CHR 0x0A # y" "CHR 0x0A \<notin> set x" using split_list_first by metis
  have "takeWhile (\<lambda>b. b \<noteq> CHR 0x0A) (x @ CHR 0x0A # z) = x" "dropWhile (\<lambda>b. b \<noteq> CHR 0x0A) (x @ CHR 0x0A # z) = CHR 0x0A # z" for z
    by (rule takeWhile_append_sep dropWhile_append_sep; use xy(2) in auto)+
  with xy(1) show ?thesis by (simp add: next_line_def Let_def)
qed

lemma feed_loop_line:
  assumes "cr_literal_remaining r = None" "cr_buf r = l @ EOL @ rest" "CHR 0x0A \<notin> set l" "literal_count l = None"
    and "parse_line (cr_pending_line r @ l) = Some (Inr c)"
  shows "feed_loop r commands = feed_loop (r\<lparr>cr_buf := rest, cr_pending_line := []\<rparr>) (commands @ [c])"
  using assms next_line_crlf[OF assms(3), of rest]
  by (subst feed_loop.simps) (auto simp: EOL_def)

lemma feed_loop_idle: "cr_literal_remaining r = None \<Longrightarrow> CHR 0x0A \<notin> set (cr_buf r) \<Longrightarrow> feed_loop r commands = Some (Inr commands, r)"
  by (subst feed_loop.simps) simp

definition prepend :: "parsed_command list \<Rightarrow> feed_result \<Rightarrow> feed_result" where
  "prepend pre = map_option (\<lambda>(x, r). (case x of Inl e \<Rightarrow> Inl e | Inr cs \<Rightarrow> Inr (pre @ cs), r))"

lemma prepend_simps [simp]:
  "prepend pre None = None" "prepend pre (Some (Inl e, r)) = Some (Inl e, r)"
  "prepend pre (Some (Inr cs, r)) = Some (Inr (pre @ cs), r)"
  by (simp_all add: prepend_def)

lemma prepend_Inr: "prepend pre x = Some (Inr cs, r) \<Longrightarrow> \<exists>cs'. x = Some (Inr cs', r) \<and> cs = pre @ cs'"
  by (cases x; cases "fst (the x)") (auto simp: prepend_def)

lemma buf_pending_swap: "r\<lparr>cr_buf := x, cr_pending_line := y\<rparr> = r\<lparr>cr_pending_line := y, cr_buf := x\<rparr>"
  by (cases r) simp

lemma feed_loop_acc: "feed_loop r (pre @ commands) = prepend pre (feed_loop r commands)"
proof (induction r commands rule: feed_loop.induct)
  case (1 r commands)
  show ?case
  proof (cases "cr_literal_remaining r")
    case (Some n)
    let ?t = "min n (length (cr_buf r))"
    show ?thesis
    proof (cases "n - ?t = 0")
      case True
      with "1.IH"(2)[OF Some refl refl] Some show ?thesis
        by (subst (1 2) feed_loop.simps) (simp add: Let_def)
    qed (use Some in \<open>subst (1 2) feed_loop.simps, simp add: Let_def\<close>)
  next
    case None
    show ?thesis
    proof (cases "CHR 0x0A \<in> set (cr_buf r)")
      case True
      show ?thesis
      proof (cases "next_line (cr_buf r)")
        case (Inr p)
        obtain l rest where p: "p = (l, rest)" by force
        have ih: "feed_loop (r\<lparr>cr_buf := rest, cr_pending_line := []\<rparr>) (pre @ commands @ [c]) =
            prepend pre (feed_loop (r\<lparr>cr_buf := rest, cr_pending_line := []\<rparr>) (commands @ [c]))"
          if "literal_count l = None" "parse_line (cr_pending_line r @ l) = Some (Inr c)" for c
          using "1.IH"(1)[OF None _ Inr p[symmetric] that(1) that(2) refl] True by simp
        show ?thesis
        proof (cases "literal_count l")
          case lit: None
          show ?thesis
          proof (cases "parse_line (cr_pending_line r @ l)")
            case (Some x)
            then show ?thesis using ih[OF lit] None True Inr p lit
              by (subst (1 2) feed_loop.simps, cases x) simp_all
          qed (use None True Inr p lit in \<open>subst (1 2) feed_loop.simps, simp\<close>)
        qed (use None True Inr p in \<open>subst (1 2) feed_loop.simps, auto\<close>)
      qed (use None True in \<open>subst (1 2) feed_loop.simps, simp\<close>)
    qed (use None in \<open>simp add: feed_loop_idle\<close>)
  qed
qed

lemma feed_loop_split:
  assumes "feed_loop (r\<lparr>cr_buf := cr_buf r @ b\<rparr>) acc = Some (Inr cs, r')"
    and "cr_literal_remaining r = None" "cr_literal_remaining r' = None"
  shows "\<exists>c1 r1. feed_loop r acc = Some (Inr c1, r1) \<and> cr_literal_remaining r1 = None \<and>
    feed_loop (r1\<lparr>cr_buf := cr_buf r1 @ b\<rparr>) c1 = Some (Inr cs, r')"
  using assms
proof (induction r acc rule: feed_loop.induct)
  case (1 r acc)
  note none = "1.prems"(2)
  show ?case
  proof (cases "CHR 0x0A \<in> set (cr_buf r)")
    case True
    let ?r = "r\<lparr>cr_buf := cr_buf r @ b\<rparr>"
    have run: "feed_loop ?r acc = Some (Inr cs, r')" by (rule "1.prems"(1))
    show ?thesis
    proof (cases "next_line (cr_buf r)")
      case (Inl e)
      with run none True have False by (subst (asm) feed_loop.simps) (simp add: next_line_append)
      then show ?thesis ..
    next
      case (Inr p)
      obtain l rest where p: "p = (l, rest)" by force
      have nl: "next_line (cr_buf ?r) = Inr (l, rest @ b)" using Inr p True by (simp add: next_line_append)
      have lit: "literal_count l = None"
      proof (rule ccontr)
        assume "literal_count l \<noteq> None"
        then have "cr_literal_remaining r' \<noteq> None"
          using run none True nl by (subst (asm) feed_loop.simps) auto
        with "1.prems"(3) show False by simp
      qed
      obtain c where c: "parse_line (cr_pending_line r @ l) = Some (Inr c)"
        using run none True nl lit by (subst (asm) feed_loop.simps) (auto split: option.splits sum.splits)
      let ?q = "r\<lparr>cr_buf := rest, cr_pending_line := []\<rparr>"
      have q: "feed_loop ?r acc = feed_loop (?q\<lparr>cr_buf := cr_buf ?q @ b\<rparr>) (acc @ [c])"
        using none True nl lit c by (subst feed_loop.simps) (simp add: buf_pending_swap)
      have s: "feed_loop r acc = feed_loop ?q (acc @ [c])"
        using none True Inr p lit c by (subst feed_loop.simps) simp
      from "1.IH"(1)[OF none _ Inr p[symmetric] lit c refl _ _ "1.prems"(3)] run q True none
      show ?thesis unfolding s by simp
    qed
  next
    case False
    with none "1.prems" show ?thesis by (simp add: feed_loop_idle)
  qed
qed

text \<open>The reader over the successive reads of a connection.\<close>

fun feed_all :: "bytes list \<Rightarrow> command_reader \<Rightarrow> feed_result" where
  "feed_all [] r = Some (Inr [], r)"
| "feed_all (data # reads) r =
     (case feed data r of
        Some (Inr cs, r') \<Rightarrow> prepend cs (feed_all reads r')
      | other \<Rightarrow> other)"

lemma feed_append:
  assumes "feed (a @ b) r = Some (Inr cs, r')" "\<not> needs_continuation r" "\<not> needs_continuation r'"
  obtains c1 c2 r1 where "feed a r = Some (Inr c1, r1)" "\<not> needs_continuation r1" "feed b r1 = Some (Inr c2, r')" "cs = c1 @ c2"
proof -
  have "feed_loop (r\<lparr>cr_buf := cr_buf r @ a\<rparr>\<lparr>cr_buf := cr_buf (r\<lparr>cr_buf := cr_buf r @ a\<rparr>) @ b\<rparr>) [] = Some (Inr cs, r')"
    using assms(1) by (simp add: feed_def)
  from feed_loop_split[OF this] assms(2,3) obtain c1 r1 where
    f: "feed a r = Some (Inr c1, r1)" "\<not> needs_continuation r1" "feed_loop (r1\<lparr>cr_buf := cr_buf r1 @ b\<rparr>) c1 = Some (Inr cs, r')"
    by (auto simp: feed_def needs_continuation_def)
  have "prepend c1 (feed b r1) = Some (Inr cs, r')"
    using f(3) feed_loop_acc[of "r1\<lparr>cr_buf := cr_buf r1 @ b\<rparr>" c1 "[]"] by (simp add: feed_def)
  then obtain c2 where "feed b r1 = Some (Inr c2, r')" "cs = c1 @ c2" by (blast dest: prepend_Inr)
  with f that show thesis by blast
qed

lemma feed_all_concat:
  assumes "feed (concat reads) r = Some (Inr cs, r')" "\<not> needs_continuation r" "\<not> needs_continuation r'" "reads \<noteq> []"
  shows "feed_all reads r = Some (Inr cs, r')"
  using assms
proof (induction reads arbitrary: r cs)
  case (Cons a reads)
  then have h: "feed (a @ concat reads) r = Some (Inr cs, r')" by simp
  obtain c1 c2 r1 where f: "feed a r = Some (Inr c1, r1)" "\<not> needs_continuation r1" "feed (concat reads) r1 = Some (Inr c2, r')" "cs = c1 @ c2"
    by (rule feed_append[OF h Cons.prems(2,3)])
  show ?case
  proof (cases reads)
    case Nil
    with f Cons.prems(1) show ?thesis by simp
  qed (use f Cons in simp)
qed simp

text \<open>The bytes of a command and what the reader makes of a stream of them.\<close>

type_synonym imap_command = "rstr \<times> rstr \<times> rstr list"

definition imap_fits :: "imap_command \<Rightarrow> bool" where
  "imap_fits c \<longleftrightarrow> (case c of (tag, name, args) \<Rightarrow>
     imap_atom tag \<and> imap_atom name \<and> (\<forall>a \<in> set args. utf8_valid a \<and> CHR 0x0A \<notin> set a))"

definition imap_bytes :: "imap_command \<Rightarrow> bytes" where
  "imap_bytes c = (case c of (tag, name, args) \<Rightarrow> imap_line tag name args @ EOL)"

definition imap_parsed :: "imap_command \<Rightarrow> parsed_command" where
  "imap_parsed c = (case c of (tag, name, args) \<Rightarrow> \<lparr>pc_tag = tag, pc_name = to_ascii_uppercase name, pc_args = args\<rparr>)"

lemma quote_no_LF: "CHR 0x0A \<notin> set a \<Longrightarrow> CHR 0x0A \<notin> set (quote a)"
  by (auto simp: quote_esc esc_def)

lemma command_line_shape:
  assumes "imap_fits (tag, name, args)"
  shows "CHR 0x0A \<notin> set (imap_line tag name args)" "literal_count (imap_line tag name args) = None"
proof -
  have a: "imap_atom tag" "imap_atom name" "\<forall>a \<in> set args. utf8_valid a" "\<forall>a \<in> set args. CHR 0x0A \<notin> set a"
    using assms by (auto simp: imap_fits_def)
  have "CHR 0x0A \<notin> set tag" "CHR 0x0A \<notin> set name" using a(1,2) token_no_newline unfolding imap_atom_def by blast+
  moreover have "\<forall>a \<in> set args. CHR 0x0A \<notin> set (quote a)" using a(4) quote_no_LF by blast
  ultimately show "CHR 0x0A \<notin> set (imap_line tag name args)" by (simp add: imap_line_def)
  have u: "from_utf8_lossy (imap_line tag name args) = imap_line tag name args"
    using command_line_utf8[OF a(1-3)] by simp
  have "CHR ''{'' \<notin> set (imap_line tag name args) \<or> (\<exists>x. imap_line tag name args = x @ [CHR 0x22])"
  proof (cases args rule: rev_cases)
    case Nil
    have "CHR ''{'' \<notin> set tag" "CHR ''{'' \<notin> set name" using a(1,2) unfolding imap_atom_def by blast+
    with Nil show ?thesis by (simp add: imap_line_def)
  next
    case (snoc xs y)
    then have "imap_line tag name args = (tag @ '' '' @ name @ concat (map (\<lambda>a. '' '' @ quote a) xs) @ '' '' @ [CHR 0x22] @ concat (map esc y)) @ [CHR 0x22]"
      by (simp add: imap_line_def quote_esc)
    then show ?thesis by blast
  qed
  then show "literal_count (imap_line tag name args) = None" by (intro literal_count_None) (simp add: u)
qed

lemma feed_loop_commands:
  assumes "list_all imap_fits cmds"
  shows "feed_loop (reader_default\<lparr>cr_buf := concat (map imap_bytes cmds) @ rest\<rparr>) acc =
    feed_loop (reader_default\<lparr>cr_buf := rest\<rparr>) (acc @ map imap_parsed cmds)"
  using assms
proof (induction cmds arbitrary: acc)
  case (Cons c cmds)
  obtain tag name args where c: "c = (tag, name, args)" by (metis prod.exhaust)
  have fits: "imap_fits (tag, name, args)" using Cons.prems c by simp
  then have p: "parse_line (imap_line tag name args) = Some (Inr (imap_parsed c))"
    using c parse_command_line by (simp add: imap_fits_def imap_parsed_def)
  let ?r = "reader_default\<lparr>cr_buf := concat (map imap_bytes (c # cmds)) @ rest\<rparr>"
  have "feed_loop ?r acc = feed_loop (?r\<lparr>cr_buf := concat (map imap_bytes cmds) @ rest, cr_pending_line := []\<rparr>) (acc @ [imap_parsed c])"
    by (rule feed_loop_line[where l = "imap_line tag name args"])
       (use command_line_shape[OF fits] p c in \<open>simp_all add: reader_default_def imap_bytes_def\<close>)
  also have "\<dots> = feed_loop (reader_default\<lparr>cr_buf := concat (map imap_bytes cmds) @ rest\<rparr>) (acc @ [imap_parsed c])"
    by (simp add: reader_default_def)
  finally show ?case using Cons by simp
qed simp

subsection \<open>The literal marker\<close>

lemma lossy_same: "CHR 0xEF \<notin> set (from_utf8_lossy s) \<Longrightarrow> from_utf8_lossy s = s"
  by (induction s rule: from_utf8_lossy.induct) (auto simp: Let_def replacement_char_def split: if_splits)

lemma lossy_suffix:
  assumes "from_utf8_lossy s = p @ d # q" "byte d < 128" "CHR 0xEF \<notin> set (d # q)"
  shows "\<exists>p'. s = p' @ d # q"
  using assms(1)
proof (induction s arbitrary: p rule: from_utf8_lossy.induct)
  case (2 c cs)
  let ?n = "snd (utf8_step c cs)"
  let ?B = "if fst (utf8_step c cs) then c # take ?n cs else replacement_char"
  have eq: "?B @ from_utf8_lossy (drop ?n cs) = p @ d # q" using "2.prems" by (simp only: from_utf8_lossy.simps Let_def)
  have hi: "128 \<le> byte x" if "x \<in> set (tl ?B)" for x
    using that cont_high[of c cs x] by (auto simp: replacement_char_def byte_def split: if_splits)
  from eq consider p2 where "p = ?B @ p2" "from_utf8_lossy (drop ?n cs) = p2 @ d # q"
    | b where "?B = p @ d # b" "b @ from_utf8_lossy (drop ?n cs) = q"
  proof -
    from eq obtain us where us: "?B = p @ us \<and> us @ from_utf8_lossy (drop ?n cs) = d # q \<or>
        ?B @ us = p \<and> from_utf8_lossy (drop ?n cs) = us @ d # q"
      unfolding append_eq_append_conv2 by blast
    with that show thesis by (cases us) auto
  qed
  then show ?case
  proof cases
    case 1
    then obtain p' where "drop ?n cs = p' @ d # q" using "2.IH"[OF refl] by blast
    then have "c # cs = (c # take ?n cs @ p') @ d # q" by (metis append.assoc append_Cons append_take_drop_id)
    then show ?thesis by blast
  next
    case (2 b)
    have "p = []"
    proof (cases p)
      case (Cons x xs)
      then have "d \<in> set (tl ?B)" using 2 by simp
      with hi assms(2) show ?thesis by fastforce
    qed simp
    with 2 assms(2) have f: "fst (utf8_step c cs)" and c: "c = d"
      by (auto simp: replacement_char_def byte_def split: if_splits)
    then have n: "?n = 0" using assms(2) by simp
    with 2 f c \<open>p = []\<close> have "from_utf8_lossy cs = q" by simp
    with lossy_same[of cs] assms(3) c show ?thesis by auto
  qed
qed simp

lemma ws_no_EF: "is_whitespace ch \<Longrightarrow> CHR 0xEF \<notin> set ch"
  by (auto simp: is_whitespace_def)

lemma trim_covers: "x \<in> set s \<Longrightarrow> x \<in> set (trim s) \<or> (\<exists>ch. is_whitespace ch \<and> x \<in> set ch)"
proof -
  assume "x \<in> set s"
  then have "x \<in> set (concat (chars s))" by simp
  then obtain ch where ch: "ch \<in> set (chars s)" "x \<in> set ch" unfolding set_concat by blast
  let ?d = "dropWhile is_whitespace (chars s)"
  have "ch \<in> set (dropWhile is_whitespace (rev ?d)) \<or> is_whitespace ch"
  proof (cases "ch \<in> set ?d")
    case True
    then show ?thesis using takeWhile_dropWhile_id[of is_whitespace "rev ?d"] set_takeWhileD[of ch is_whitespace "rev ?d"]
      by (metis Un_iff set_append set_rev)
  next
    case False
    then show ?thesis using ch(1) takeWhile_dropWhile_id[of is_whitespace "chars s"] set_takeWhileD[of ch is_whitespace "chars s"]
      by (metis Un_iff set_append)
  qed
  with ch(2) show ?thesis by (auto simp: trim_def)
qed

lemma digits_val_ascii: "digits_val acc s = Some n \<Longrightarrow> c \<in> set s \<Longrightarrow> byte c < 128"
  by (induction s arbitrary: acc) (auto simp: to_digit10_def split: option.splits if_splits)

lemma parse_uint_ascii: "parse_uint m s = Some n \<Longrightarrow> c \<in> set s \<Longrightarrow> byte c < 128"
proof -
  assume n: "parse_uint m s = Some n" and c: "c \<in> set s"
  from n have "digits_val 0 s = Some n \<or> (\<exists>cs. s = CHR ''+'' # cs \<and> digits_val 0 cs = Some n)"
    by (auto simp: parse_uint_def parse_digits_def simp del: digits_val.simps split: list.splits if_splits option.splits)
  then show ?thesis
  proof (elim disjE exE conjE)
    fix cs assume "s = CHR ''+'' # cs" "digits_val 0 cs = Some n"
    with c digits_val_ascii[of 0 cs n c] show ?thesis by (cases "c = CHR ''+''") (simp_all add: byte_def)
  qed (rule digits_val_ascii[OF _ c])
qed

lemma literal_count_suffix:
  assumes "literal_count l = Some (n, m)"
  shows "\<exists>pre inner. l = pre @ CHR ''{'' # inner @ ''}'' \<and> m = length inner + 2 \<and> n \<le> MAX_LITERAL"
proof -
  obtain a rest where r: "rsplit_once (CHR ''{'') (from_utf8_lossy l) = Some (a, rest)" "ends_with rest ''}''"
    and n: "parse_uint usize_max (trim (butlast rest)) = Some n" "n \<le> MAX_LITERAL" "m = 2 + length (butlast rest)"
    using assms by (auto simp: literal_count_def Let_def split: option.splits if_splits prod.splits)
  then obtain inner where inner: "rest = inner @ ''}''" by (auto simp: ends_with_iff)
  have "CHR 0xEF \<notin> set inner"
  proof
    assume e: "CHR 0xEF \<in> set inner"
    then have "CHR 0xEF \<in> set (trim inner)" using trim_covers[OF e] ws_no_EF by blast
    then show False using parse_uint_ascii[of usize_max "trim inner" n "CHR 0xEF"] n(1) inner by (simp add: byte_def)
  qed
  moreover have "from_utf8_lossy l = a @ CHR ''{'' # rest" using rsplit_once_SomeD[OF r(1)] by simp
  ultimately obtain p where "l = p @ CHR ''{'' # rest"
    using lossy_suffix[of l a "CHR ''{''" rest] inner by (auto simp: byte_def)
  with inner n(2,3) show ?thesis by auto
qed

subsection \<open>Claims\<close>

text \<open>
  Whatever the segmentation of the stream into reads, the reader returns exactly the commands a
  client wrote, in order, and is left empty: tag and command name are atoms, and the arguments are any
  UTF-8 texts without a line feed (quotes, backslashes, parentheses and braces included), written with
  the quoting of the response module.
\<close>

theorem imap_commands_roundtrip:
  assumes "list_all imap_fits cmds" "concat reads = concat (map imap_bytes cmds)" "reads \<noteq> []"
  shows "feed_all reads reader_default = Some (Inr (map imap_parsed cmds), reader_default)"
proof (rule feed_all_concat[OF _ _ _ assms(3)])
  have "feed_loop (reader_default\<lparr>cr_buf := []\<rparr>) (map imap_parsed cmds) = Some (Inr (map imap_parsed cmds), reader_default)"
    by (simp add: feed_loop_idle reader_default_def)
  then show "feed (concat reads) reader_default = Some (Inr (map imap_parsed cmds), reader_default)"
    using feed_loop_commands[OF assms(1), of "[]" "[]"] by (simp add: feed_def assms(2)) (simp add: reader_default_def)
qed (simp_all add: needs_continuation_def reader_default_def)

theorem imap_commands_roundtrip_witness:
  "feed_all [''A1 LOGIN '', quote ''al'' @ '' '', quote [CHR 0x22, CHR '')''] @ EOL] reader_default =
     Some (Inr [\<lparr>pc_tag = ''A1'', pc_name = ''LOGIN'', pc_args = [''al'', [CHR 0x22, CHR '')'']]\<rparr>], reader_default)"
proof -
  have f: "list_all imap_fits [(''A1'', ''LOGIN'', [''al'', [CHR 0x22, CHR '')'']])]"
    by (simp add: imap_fits_def imap_atom_def token_def ascii_ws_single byte_def)
  have u: "to_ascii_uppercase ''LOGIN'' = ''LOGIN''" by (simp add: to_ascii_uppercase_def upper_char_def byte_def)
  show ?thesis using imap_commands_roundtrip[OF f, of "[''A1 LOGIN '', quote ''al'' @ '' '', quote [CHR 0x22, CHR '')''] @ EOL]"] u
    by (simp add: imap_bytes_def imap_line_def imap_parsed_def)
qed

text \<open>
  C39. The tokenizer returns on a line exactly when no closing parenthesis stands outside of lists and
  quoted strings. On a line with such a parenthesis, which any unauthenticated peer can send, it never
  returns: the scan of an atom stops in front of the parenthesis and is started there again for ever.
\<close>

theorem tokenizer_returns_iff:
  "(\<exists>r. tokenize line = Some r) \<longleftrightarrow> \<not> stray_close Top (chars (from_utf8_lossy line))"
  unfolding tokenize_def using tokenize_loop_returns[of "chars (from_utf8_lossy line)" "[]"] by (auto simp: not_None_eq[symmetric])

text \<open>
  C40. A literal marker the reader recognises stands at the end of the line as it was received, even
  though it is looked for in the lossily decoded text: cutting it off is always within bounds, leaves
  the bytes in front of it, and the announced literal is at most one mebibyte.
\<close>

theorem literal_marker_in_bounds:
  assumes "literal_count l = Some (n, m)"
  shows "m \<le> length l \<and> n \<le> MAX_LITERAL \<and>
    (\<exists>inner. l = take (length l - m) l @ CHR ''{'' # inner @ ''}'' \<and> m = length inner + 2)"
proof -
  obtain pre inner where "l = pre @ CHR ''{'' # inner @ ''}''" "m = length inner + 2" "n \<le> MAX_LITERAL"
    using literal_count_suffix[OF assms] by blast
  then show ?thesis by (intro conjI exI[of _ inner]) simp_all
qed

theorem literal_marker_in_bounds_witness:
  "3 \<le> length (CHR 0xFF # ''{5}'') \<and> 5 \<le> MAX_LITERAL \<and>
    (\<exists>inner. CHR 0xFF # ''{5}'' = take (length (CHR 0xFF # ''{5}'') - 3) (CHR 0xFF # ''{5}'') @ CHR ''{'' # inner @ ''}'' \<and>
      3 = length inner + 2)"
proof (rule literal_marker_in_bounds)
  have t: "trim (show_nat 5) = show_nat 5" by (rule trim_token) simp
  have d: "''5'' = show_nat 5" by code_simp
  have "from_utf8_lossy (CHR 0xFF # ''{5}'') = replacement_char @ CHR ''{'' # ''5}''" by code_simp
  moreover have "rsplit_once (CHR ''{'') (replacement_char @ CHR ''{'' # ''5}'') = Some (replacement_char, ''5}'')"
    by (rule rsplit_once_sep) simp
  moreover have "parse_uint usize_max (trim ''5'') = Some 5" unfolding d t by (rule parse_uint_show_nat) simp
  ultimately show "literal_count (CHR 0xFF # ''{5}'') = Some (5, 3)"
    by (simp add: literal_count_def ends_with_iff Let_def MAX_LITERAL_def)
qed

text \<open>
  A line that does not parse also discards every command that precedes it in the same read: the
  reader answers the error alone, and those commands are never executed nor answered.
\<close>

theorem parse_error_drops_commands:
  assumes "list_all imap_fits cmds" "CHR 0x0A \<notin> set l" "literal_count l = None" "parse_line l = Some (Inl e)"
  shows "feed (concat (map imap_bytes cmds) @ l @ EOL) reader_default = Some (Inl e, reader_default)"
proof -
  have "feed_loop (reader_default\<lparr>cr_buf := l @ EOL\<rparr>) acc = Some (Inl e, reader_default)" for acc
    using next_line_crlf[OF assms(2), of "[]"] assms(3,4)
    by (subst feed_loop.simps) (simp add: reader_default_def EOL_def)
  then show ?thesis using feed_loop_commands[OF assms(1), of "l @ EOL" "[]"]
    by (simp add: feed_def) (simp add: reader_default_def)
qed

theorem parse_error_drops_commands_witness:
  "feed (concat (map imap_bytes [(''A1'', ''NOOP'', [])]) @ [] @ EOL) reader_default = Some (Inl InvalidCommand, reader_default)"
proof (rule parse_error_drops_commands)
  show "parse_line [] = Some (Inl InvalidCommand)" by (simp add: parse_line_def tokenize_def parse_tokens_def)
  show "literal_count [] = None" by (rule literal_count_None) simp
qed (simp_all add: imap_fits_def imap_atom_def token_def ascii_ws_single byte_def)

end
