(* ===== verification/Imap_Session.thy ===== *)
theory Imap_Session
  imports Imap_Parse Keys Secure
begin

text \<open>
  One IMAP session (\<^verbatim>\<open>talk-imap/src/session.rs\<close>): login, the mailbox commands and the FETCH responses,
  over the mail store. A command gives the text to write and the session and store it leaves. The
  formatting of dates (crate \<^verbatim>\<open>time\<close>) and the members of the system group (\<^verbatim>\<open>getgrnam\<close>) are functions
  of a record; password verification is the one of the secure service.
\<close>

record imap_ext =
  ix_format_internaldate :: "int \<Rightarrow> rstr option"
  ix_format_rfc2822 :: "int \<Rightarrow> rstr option"
  ix_zsmtp_group :: "rstr list option"

subsection \<open>State\<close>

datatype imap_state = NotAuthenticated | ImapAuthenticated | Selected

datatype auth_mode = Database | LocalAuth

record imap_session =
  is_state :: imap_state
  is_username :: rstr
  is_user_id :: int
  is_auth_mode :: auth_mode
  is_domain :: rstr
  is_selected :: rstr

definition MAILBOXES :: "rstr list" where "MAILBOXES = [INBOX, SENT]"

definition canonical_mailbox :: "rstr \<Rightarrow> rstr option" where
  "canonical_mailbox name = find (\<lambda>m. eq_ignore_ascii_case m name) MAILBOXES"

type_synonym imap_reply = "rstr \<times> imap_session \<times> store"

definition store_err :: "secure_ext \<Rightarrow> rstr \<Rightarrow> store_error \<Rightarrow> rstr" where
  "store_err S tag e = tagged tag ImapNo (''Storage error: '' @ show_store_error S e)"

subsection \<open>Texts\<close>

fun join_str :: "rstr \<Rightarrow> rstr list \<Rightarrow> rstr" where
  "join_str sep [] = []"
| "join_str sep [a] = a"
| "join_str sep (a # b # r) = a @ sep @ join_str sep (b # r)"

definition trim_matches :: "char list \<Rightarrow> rstr \<Rightarrow> rstr" where
  "trim_matches cs s = rev (dropWhile (\<lambda>c. c \<in> set cs) (rev (dropWhile (\<lambda>c. c \<in> set cs) s)))"

definition trim_start :: "rstr \<Rightarrow> rstr" where
  "trim_start s = concat (dropWhile is_whitespace (chars s))"

fun str_contains :: "rstr \<Rightarrow> rstr \<Rightarrow> bool" where
  "str_contains [] p = (p = [])"
| "str_contains (c # s) p = (starts_with (c # s) p \<or> str_contains s p)"

text \<open>\<^verbatim>\<open>n as u32\<close> for a length.\<close>

definition u32_of :: "nat \<Rightarrow> nat" where
  "u32_of n = n mod 2 ^ 32"

definition seq_num :: "rstr \<Rightarrow> nat \<Rightarrow> nat" where
  "seq_num s count = (if s = ''*'' then max count 1 else max (unwrap_or 1 (parse_uint u32_max s)) 1)"

definition in_range_part :: "nat \<Rightarrow> nat \<Rightarrow> rstr \<Rightarrow> bool" where
  "in_range_part uid count part =
     (case split_once (CHR '':'') part of
        Some (a, b) \<Rightarrow>
          (let a = seq_num a count; b = seq_num b count in min a b \<le> uid \<and> uid \<le> max a b)
      | None \<Rightarrow> uid = seq_num part count)"

definition in_range :: "rstr \<Rightarrow> nat \<Rightarrow> nat \<Rightarrow> bool" where
  "in_range rng uid count = list_ex (in_range_part uid count) (split_on (CHR '','') rng)"

definition flag_of_word :: "rstr \<Rightarrow> 32 word" where
  "flag_of_word f =
     (let f = to_ascii_uppercase (trim_matches [CHR ''('', CHR '')'', CHR 0x5C, CHR '';''] f) in
      if f = ''SEEN'' then SEEN else if f = ''ANSWERED'' then ANSWERED
      else if f = ''FLAGGED'' then FLAGGED else if f = ''DELETED'' then DELETED else 0)"

definition parse_flags :: "rstr \<Rightarrow> 32 word" where
  "parse_flags s = fold (\<lambda>f msk. msk OR flag_of_word f) (split_whitespace s) 0"

definition flags_display :: "message_flags \<Rightarrow> rstr" where
  "flags_display f =
     join_str '' '' (map snd (filter (\<lambda>(b, _). flags_contains f b)
       [(SEEN, CHR 0x5C # ''Seen''), (ANSWERED, CHR 0x5C # ''Answered''),
        (FLAGGED, CHR 0x5C # ''Flagged''), (DELETED, CHR 0x5C # ''Deleted'')]))"

definition join_uids :: "32 word list \<Rightarrow> rstr" where
  "join_uids uids = join_str '' '' (map (show_nat \<circ> unat) uids)"

subsection \<open>FETCH items\<close>

datatype body_section =
    BodyNone
  | BodyFull
  | BodyHeader
  | BodyHeaderFields "rstr list"
  | BodyHeaderFieldsNot "rstr list"
  | BodyText
  | BodyMime
  | BodyOther rstr

definition needs_stored_body :: "body_section \<Rightarrow> bool" where
  "needs_stored_body b = (case b of BodyFull \<Rightarrow> True | BodyText \<Rightarrow> True | BodyMime \<Rightarrow> True | BodyOther _ \<Rightarrow> True | _ \<Rightarrow> False)"

definition body_label :: "body_section \<Rightarrow> rstr" where
  "body_label b =
     (case b of BodyNone \<Rightarrow> ''BODY[]'' | BodyFull \<Rightarrow> ''BODY[]'' | BodyHeader \<Rightarrow> ''BODY[HEADER]''
      | BodyText \<Rightarrow> ''BODY[TEXT]'' | BodyMime \<Rightarrow> ''BODY[MIME]''
      | BodyHeaderFields fs \<Rightarrow> ''BODY[HEADER.FIELDS ('' @ join_str '' '' fs @ '')]''
      | BodyHeaderFieldsNot fs \<Rightarrow> ''BODY[HEADER.FIELDS.NOT ('' @ join_str '' '' fs @ '')]''
      | BodyOther s \<Rightarrow> ''BODY['' @ s @ '']'')"

record message_identity =
  mi_from :: rstr
  mi_to :: rstr

record fetch_request =
  fr_flags :: bool
  fr_uid :: bool
  fr_size :: bool
  fr_internaldate :: bool
  fr_envelope :: bool
  fr_bodystructure :: bool
  fr_body :: body_section

definition fetch_default :: fetch_request where
  "fetch_default = \<lparr>fr_flags = False, fr_uid = False, fr_size = False, fr_internaldate = False, fr_envelope = False,
     fr_bodystructure = False, fr_body = BodyNone\<rparr>"

text \<open>The content of a bracket whose opening is behind, with \<open>d\<close> further brackets open, and the rest.\<close>

fun bracket_scan :: "nat \<Rightarrow> rstr \<Rightarrow> (rstr \<times> rstr) option" where
  "bracket_scan d [] = None"
| "bracket_scan d (c # cs) =
     (if c = CHR '']'' \<and> d = 0 then Some ([], cs)
      else map_option (\<lambda>(a, b). (c # a, b))
        (bracket_scan (if c = CHR ''['' then Suc d else if c = CHR '']'' then d - 1 else d) cs))"

definition at_boundary :: "rstr \<Rightarrow> bool" where
  "at_boundary before \<longleftrightarrow> before = [] \<or> last before \<in> {CHR 0x20, CHR 0x09, CHR 0x0A, CHR 0x0C, CHR 0x0D, CHR ''('', CHR ''[''}"

fun extract_from :: "rstr \<Rightarrow> rstr \<Rightarrow> rstr \<times> rstr option" where
  "extract_from before [] = (before, None)"
| "extract_from before (c # cs) =
     (if at_boundary before \<and> starts_with (to_ascii_uppercase (c # cs)) ''BODY'' then
        (case dropWhile (\<lambda>x. x \<noteq> CHR ''['') (drop 4 (c # cs)) of
           [] \<Rightarrow> extract_from (before @ [c]) cs
         | _ # t \<Rightarrow>
             (case bracket_scan 0 t of
                None \<Rightarrow> extract_from (before @ [c]) cs
              | Some (section, rest) \<Rightarrow> (before @ rest, Some section)))
      else extract_from (before @ [c]) cs)"

definition extract_body_section :: "rstr \<Rightarrow> rstr \<times> rstr option" where
  "extract_body_section items = extract_from [] items"

definition extract_field_list :: "rstr \<Rightarrow> rstr option" where
  "extract_field_list s =
     (case split_once (CHR ''('') s of
        None \<Rightarrow> None
      | Some (_, b) \<Rightarrow> (case rsplit_once (CHR '')'') b of None \<Rightarrow> None | Some (l, _) \<Rightarrow> Some l))"

definition parse_body_section :: "rstr \<Rightarrow> body_section" where
  "parse_body_section section =
     (let s = trim section; upper = to_ascii_uppercase s in
      if s = [] then BodyFull
      else if upper = ''HEADER'' then BodyHeader
      else if upper = ''TEXT'' then BodyText
      else if upper = ''MIME'' then BodyMime
      else if starts_with upper ''HEADER.FIELDS'' then
        (case extract_field_list s of
           Some l \<Rightarrow>
             (if str_contains upper ''.NOT'' then BodyHeaderFieldsNot (split_whitespace l)
              else BodyHeaderFields (split_whitespace l))
         | None \<Rightarrow> BodyOther s)
      else BodyOther s)"

definition fetch_item :: "rstr \<Rightarrow> fetch_request \<Rightarrow> fetch_request" where
  "fetch_item item req =
     (let i = to_ascii_uppercase item in
      if i = ''FLAGS'' then req\<lparr>fr_flags := True\<rparr>
      else if i = ''UID'' then req\<lparr>fr_uid := True\<rparr>
      else if i = ''RFC822.SIZE'' then req\<lparr>fr_size := True\<rparr>
      else if i = ''INTERNALDATE'' then req\<lparr>fr_internaldate := True\<rparr>
      else if i = ''ENVELOPE'' then req\<lparr>fr_envelope := True\<rparr>
      else if i = ''BODYSTRUCTURE'' then req\<lparr>fr_bodystructure := True\<rparr>
      else req)"

definition parse_fetch_items :: "rstr \<Rightarrow> fetch_request" where
  "parse_fetch_items items =
     (let t = trim items;
          inner = (if starts_with t ''('' \<and> ends_with t '')'' then butlast (tl t) else t);
          upper = to_ascii_uppercase inner in
      if upper = [] \<or> upper = ''*'' then
        \<lparr>fr_flags = True, fr_uid = True, fr_size = True, fr_internaldate = True, fr_envelope = True,
         fr_bodystructure = True, fr_body = BodyFull\<rparr>
      else if upper = ''ALL'' \<or> upper = ''FULL'' then
        fetch_default\<lparr>fr_flags := True, fr_internaldate := True, fr_size := True, fr_envelope := True, fr_body := BodyFull\<rparr>
      else if upper = ''FAST'' then
        fetch_default\<lparr>fr_flags := True, fr_internaldate := True, fr_size := True\<rparr>
      else
        (case extract_body_section inner of (rest, section) \<Rightarrow>
          (let body = (case section of None \<Rightarrow> BodyNone | Some s \<Rightarrow> parse_body_section s);
               req = fold fetch_item (split_whitespace rest) (fetch_default\<lparr>fr_body := body\<rparr>) in
           if body = BodyNone then req else req\<lparr>fr_flags := True, fr_uid := True, fr_size := True\<rparr>)))"

subsection \<open>FETCH responses\<close>

definition format_internaldate :: "imap_ext \<Rightarrow> int \<Rightarrow> rstr" where
  "format_internaldate X t = unwrap_or ''01-Jan-1970 00:00:00 +0000'' (ix_format_internaldate X (max 0 t))"

definition format_rfc2822 :: "imap_ext \<Rightarrow> int \<Rightarrow> rstr" where
  "format_rfc2822 X t = unwrap_or ''Mon, 01 Jan 1970 00:00:00 +0000'' (ix_format_rfc2822 X (max 0 t))"

definition headers :: "imap_ext \<Rightarrow> message_meta \<Rightarrow> message_identity \<Rightarrow> (rstr \<times> rstr) list" where
  "headers X meta ident =
     (let from = (if mi_from ident = [] then ''(unknown sender)'' else mi_from ident);
          to = (if mi_to ident = [] then ''(unknown recipient)'' else mi_to ident) in
      [(''Content-Type'', ''text/html; charset=utf-8''), (''From'', from), (''To'', to), (''Reply-To'', from)] @
      (if mm_subject meta = [] then [] else [(''Subject'', mm_subject meta)]) @
      [(''Date'', format_rfc2822 X (mm_internaldate meta)), (''Message-ID'', ''<'' @ mm_message_id meta @ ''>'')] @
      (case mm_tx_state meta of None \<Rightarrow> []
       | Some s \<Rightarrow> (''X-Talk-Txn-Status'', s) #
           (case mm_tx_id meta of None \<Rightarrow> [] | Some i \<Rightarrow> [(''X-Talk-Txn-Id'', show_int i)])))"

definition header_lines :: "imap_ext \<Rightarrow> message_meta \<Rightarrow> (rstr list \<times> bool) option \<Rightarrow> message_identity \<Rightarrow> bytes" where
  "header_lines X meta flt ident =
     concat (map (\<lambda>(n, v). n @ '': '' @ v @ EOL)
       (filter (\<lambda>(n, _). case flt of None \<Rightarrow> True
          | Some (fs, negate) \<Rightarrow> list_ex (\<lambda>f. eq_ignore_ascii_case f n) fs \<noteq> negate) (headers X meta ident))) @ [CHR 0x0A]"

definition body_content :: "imap_ext \<Rightarrow> body_section \<Rightarrow> message_meta \<Rightarrow> bytes \<Rightarrow> message_identity \<Rightarrow> bytes" where
  "body_content X b meta body ident =
     (case b of BodyNone \<Rightarrow> [] | BodyFull \<Rightarrow> body | BodyText \<Rightarrow> body | BodyOther _ \<Rightarrow> body
      | BodyMime \<Rightarrow> ''Content-Type: text/plain'' @ EOL
      | BodyHeader \<Rightarrow> header_lines X meta None ident
      | BodyHeaderFields fs \<Rightarrow> header_lines X meta (Some (fs, False)) ident
      | BodyHeaderFieldsNot fs \<Rightarrow> header_lines X meta (Some (fs, True)) ident)"

definition address_group :: "rstr \<Rightarrow> rstr" where
  "address_group s =
     (if s = [] \<or> s = ''(unknown sender)'' \<or> s = ''(unknown recipient)'' then ''NIL''
      else (case rsplit_once (CHR ''@'') s of
              Some (loc, host) \<Rightarrow> ''(('' @ quote loc @ '' NIL '' @ quote loc @ '' '' @ quote host @ ''))''
            | None \<Rightarrow> ''(('' @ quote s @ '' NIL NIL NIL))''))"

definition envelope_response :: "imap_ext \<Rightarrow> message_meta \<Rightarrow> message_identity \<Rightarrow> rstr" where
  "envelope_response X meta ident =
     (let from = address_group (mi_from ident); to = address_group (mi_to ident) in
      format_rfc2822 X (mm_internaldate meta) @ '' '' @ quote (mm_subject meta) @ '' '' @ from @ '' '' @ from @ '' '' @ from @ '' '' @
      to @ '' NIL NIL NIL '' @ quote (mm_message_id meta))"

definition body_lines :: "bytes \<Rightarrow> nat" where
  "body_lines body = (if body = [] then 1 else length (filter (\<lambda>b. b = CHR 0x0A) body) + 1)"

definition fetch_parts :: "imap_ext \<Rightarrow> message_meta \<Rightarrow> fetch_request \<Rightarrow> bytes \<Rightarrow> message_identity \<Rightarrow> rstr list" where
  "fetch_parts X meta req body ident =
     (if fr_flags req then [''FLAGS ('' @ flags_display (mm_flags meta) @ '')''] else []) @
     (if fr_uid req then [''UID '' @ show_nat (unat (mm_uid meta))] else []) @
     (if fr_size req then [''RFC822.SIZE '' @ show_nat (mm_size meta)] else []) @
     (if fr_internaldate req then [''INTERNALDATE '' @ [CHR 0x22] @ format_internaldate X (mm_internaldate meta) @ [CHR 0x22]] else []) @
     (if fr_envelope req then [''ENVELOPE ('' @ envelope_response X meta ident @ '')''] else []) @
     (if fr_bodystructure req
      then [''BODYSTRUCTURE ('' @ quote ''text'' @ '' '' @ quote ''html'' @ '' NIL NIL NIL NIL '' @ show_nat (mm_size meta) @ '' '' @
            show_nat (body_lines body) @ '')''] else [])"

definition fetch_response :: "imap_ext \<Rightarrow> message_meta \<Rightarrow> fetch_request \<Rightarrow> bytes \<Rightarrow> message_identity \<Rightarrow> rstr" where
  "fetch_response X meta req body ident =
     (let parts = join_str '' '' (fetch_parts X meta req body ident); uid = show_nat (unat (mm_uid meta)) in
      if fr_body req = BodyNone then untagged (uid @ '' FETCH ('' @ parts @ '')'')
      else
        (let content = body_content X (fr_body req) meta body ident in
         untagged (uid @ '' FETCH ('' @ parts @ '' '' @ body_label (fr_body req) @ '' {'' @ show_nat (length content) @ ''}'') @
         from_utf8_lossy content @ '')'' @ EOL))"

subsection \<open>Login\<close>

definition is_in_zsmtp_group :: "imap_ext \<Rightarrow> rstr \<Rightarrow> bool" where
  "is_in_zsmtp_group X username = (case ix_zsmtp_group X of None \<Rightarrow> False | Some members \<Rightarrow> username \<in> set members)"

definition wrapped_share :: "ext \<Rightarrow> rstr \<times> bytes \<Rightarrow> wrapped_by_share" where
  "wrapped_share E = (\<lambda>(share_id, wrapped).
     \<lparr>ws_share_id = (case hex_decode E share_id of Some b \<Rightarrow> if length b = 16 then b else replicate 16 (CHR 0x00)
                     | None \<Rightarrow> replicate 16 (CHR 0x00)),
      ws_wrapped = wrapped\<rparr>)"

definition app_password_ok :: "ext \<Rightarrow> crypto \<Rightarrow> rstr \<Rightarrow> int \<Rightarrow> store \<Rightarrow> bool" where
  "app_password_ok E K password uid st =
     (case hex_decode E password of
        None \<Rightarrow> False
      | Some share \<Rightarrow>
          length share = 32 \<and>
          (case fst (get_shares uid st) of
             Inl _ \<Rightarrow> False
           | Inr wrappers \<Rightarrow>
               is_ok (share_resolver_unwrap (share_unwrap K) (map (wrapped_share E) wrappers) (ShareCred share))))"

definition password_ok :: "secure_ext \<Rightarrow> imap_ext \<Rightarrow> auth_mode \<Rightarrow> rstr \<Rightarrow> rstr \<Rightarrow> store \<Rightarrow> bool" where
  "password_ok S X mode loc password st =
     (case mode of
        Database \<Rightarrow>
          (case fst (password_hash loc st) of
             Inr (Some hash) \<Rightarrow> (case verify_password (sx_argon2 S) password hash of Inr ok \<Rightarrow> ok | Inl _ \<Rightarrow> False)
           | _ \<Rightarrow> False)
      | LocalAuth \<Rightarrow> is_in_zsmtp_group X loc)"

definition login_text :: "bool \<Rightarrow> rstr" where
  "login_text is_app = (if is_app then ''LOGIN completed (app password)'' else ''LOGIN completed'')"

definition imap_login ::
    "ext \<Rightarrow> crypto \<Rightarrow> secure_ext \<Rightarrow> imap_ext \<Rightarrow> rstr \<Rightarrow> rstr \<Rightarrow> rstr \<Rightarrow> imap_session \<Rightarrow> store \<Rightarrow> rstr \<times> imap_session" where
  "imap_login E K S X tag username password s st =
     (let (base, is_app) = (case strip_suffix '':app'' username of Some b \<Rightarrow> (b, True) | None \<Rightarrow> (username, False));
          refused = (tagged tag ImapNo ''Authentication failed'', s) in
      case local_username base (is_domain s) of
        None \<Rightarrow> refused
      | Some loc \<Rightarrow>
          (case fst (get_user loc st) of
             Inr (Some user) \<Rightarrow>
               if (if is_app then app_password_ok E K password (user_id user) st
                   else password_ok S X (is_auth_mode s) loc password st)
               then (tagged tag ImapOk (login_text is_app),
                     s\<lparr>is_user_id := user_id user, is_username := user_name user, is_state := ImapAuthenticated\<rparr>)
               else refused
           | _ \<Rightarrow> refused))"

definition cmd_auth ::
    "ext \<Rightarrow> crypto \<Rightarrow> secure_ext \<Rightarrow> imap_ext \<Rightarrow> rstr \<Rightarrow> parsed_command \<Rightarrow> imap_session \<Rightarrow> store \<Rightarrow> rstr \<times> imap_session" where
  "cmd_auth E K S X tag cmd s st =
     (if is_state s \<noteq> NotAuthenticated then (tagged tag ImapBad ''Already authenticated'', s)
      else if pc_name cmd = ''AUTHENTICATE'' then
        (case pc_args cmd of
           [mech, tok] \<Rightarrow>
             if \<not> eq_ignore_ascii_case mech ''PLAIN'' then (tagged tag ImapBad ''Only AUTHENTICATE PLAIN <token> supported'', s)
             else
               (case b64_decode E tok of
                  None \<Rightarrow> (tagged tag ImapBad ''Invalid base64'', s)
                | Some t \<Rightarrow>
                    (case split_on (CHR 0x00) t of
                       [_, u, p] \<Rightarrow> imap_login E K S X tag (from_utf8_lossy u) (from_utf8_lossy p) s st
                     | _ \<Rightarrow> (tagged tag ImapBad ''Invalid SASL PLAIN payload'', s)))
         | _ \<Rightarrow> (tagged tag ImapBad ''Only AUTHENTICATE PLAIN <token> supported'', s))
      else
        (case pc_args cmd of
           [u, p] \<Rightarrow> imap_login E K S X tag u p s st
         | _ \<Rightarrow> (tagged tag ImapBad ''LOGIN requires username and password'', s)))"

subsection \<open>Mailbox commands\<close>

definition first_arg_mailbox :: "parsed_command \<Rightarrow> rstr option" where
  "first_arg_mailbox cmd = (case pc_args cmd of [] \<Rightarrow> None | a # _ \<Rightarrow> canonical_mailbox a)"

definition unseen_of :: "message_meta list \<Rightarrow> nat" where
  "unseen_of ms = length (filter (\<lambda>m. \<not> is_seen (mm_flags m)) ms)"

definition cmd_select :: "secure_ext \<Rightarrow> rstr \<Rightarrow> parsed_command \<Rightarrow> imap_session \<Rightarrow> store \<Rightarrow> rstr \<times> imap_session" where
  "cmd_select S tag cmd s st =
     (if is_state s = NotAuthenticated then (tagged tag ImapBad ''Not authenticated'', s)
      else
        (case first_arg_mailbox cmd of
           None \<Rightarrow> (tagged tag ImapNo ''Mailbox does not exist'', s)
         | Some mbx \<Rightarrow>
             (case fst (list_messages_in (is_user_id s) mbx st) of
                Inl e \<Rightarrow> (store_err S tag e, s)
              | Inr ms \<Rightarrow>
                  (let read_only = (pc_name cmd = ''EXAMINE'');
                       uidvalidity = (case ms of [] \<Rightarrow> 1 | m # _ \<Rightarrow> mm_uidvalidity m);
                       next_uid = (case fst (uidnext_in (is_user_id s) mbx st) of Inr n \<Rightarrow> n
                                   | Inl _ \<Rightarrow> (case ms of [] \<Rightarrow> 1 | m # _ \<Rightarrow> mm_uid m + 1)) in
                   (select_responses (u32_of (length ms)) (u32_of (unseen_of ms)) (unat uidvalidity) (unat next_uid) @
                    tagged tag ImapOk (''['' @ (if read_only then ''READ-ONLY'' else ''READ-WRITE'') @ ''] '' @
                      (if read_only then ''EXAMINE'' else ''SELECT'') @ '' completed''),
                    s\<lparr>is_selected := mbx, is_state := Selected\<rparr>)))))"

definition list_line :: "rstr \<Rightarrow> rstr" where
  "list_line name = untagged (''LIST ('' @ [CHR 0x5C] @ ''HasNoChildren) '' @ quote ''/'' @ '' '' @ quote name)"

definition cmd_list :: "rstr \<Rightarrow> parsed_command \<Rightarrow> imap_session \<Rightarrow> rstr" where
  "cmd_list tag cmd s =
     (if is_state s = NotAuthenticated then tagged tag ImapBad ''Not authenticated''
      else
        (let pattern = unwrap_or [] (nth_opt (pc_args cmd) 1);
             wanted = (\<lambda>name. pattern = [] \<or> pattern = ''*'' \<or> eq_ignore_ascii_case pattern name) in
         (if wanted ''INBOX'' then list_line ''INBOX'' else []) @ (if wanted ''Sent'' then list_line ''Sent'' else []) @
         tagged tag ImapOk ''LIST completed''))"

definition cmd_namespace :: "rstr \<Rightarrow> imap_session \<Rightarrow> rstr" where
  "cmd_namespace tag s =
     (if is_state s = NotAuthenticated then tagged tag ImapBad ''Not authenticated''
      else untagged (''NAMESPACE (('' @ quote [] @ '' '' @ quote ''/'' @ '')) NIL NIL'') @ tagged tag ImapOk ''NAMESPACE completed'')"

definition cmd_status :: "secure_ext \<Rightarrow> rstr \<Rightarrow> parsed_command \<Rightarrow> imap_session \<Rightarrow> store \<Rightarrow> rstr" where
  "cmd_status S tag cmd s st =
     (if is_state s = NotAuthenticated then tagged tag ImapBad ''Not authenticated''
      else
        (case first_arg_mailbox cmd of
           None \<Rightarrow> tagged tag ImapNo ''Mailbox does not exist''
         | Some mbx \<Rightarrow>
             (case fst (list_messages_in (is_user_id s) mbx st) of
                Inl e \<Rightarrow> store_err S tag e
              | Inr ms \<Rightarrow>
                  (let next_uid = (case fst (uidnext_in (is_user_id s) mbx st) of Inr n \<Rightarrow> unat n
                                   | Inl _ \<Rightarrow> u32_of (u32_of (length ms) + 1));
                       uidvalidity = (case ms of [] \<Rightarrow> 1 | m # _ \<Rightarrow> mm_uidvalidity m) in
                   untagged (''STATUS '' @ [CHR 0x22] @ mbx @ [CHR 0x22] @ '' (MESSAGES '' @ show_nat (length ms) @
                     '' RECENT 0 UNSEEN '' @ show_nat (unseen_of ms) @ '' UIDNEXT '' @ show_nat next_uid @
                     '' UIDVALIDITY '' @ show_nat (unat uidvalidity) @ '')'') @
                   tagged tag ImapOk ''STATUS completed''))))"

definition message_identity_of :: "imap_session \<Rightarrow> message_meta \<Rightarrow> message_identity" where
  "message_identity_of s meta =
     (let loc = is_username s @ ''@'' @ is_domain s in
      if is_selected s = SENT then \<lparr>mi_from = loc, mi_to = mm_sender meta\<rparr>
      else \<lparr>mi_from = mm_sender meta, mi_to = loc\<rparr>)"

text \<open>The sequence set and the items of FETCH and UID FETCH, or the text of the refusal.\<close>

definition fetch_args :: "parsed_command \<Rightarrow> (rstr, rstr \<times> rstr) result" where
  "fetch_args cmd =
     (let sub = (case pc_args cmd of [] \<Rightarrow> None | a # _ \<Rightarrow> Some (to_ascii_uppercase a)) in
      if sub = Some ''FETCH'' \<and> pc_name cmd = ''UID'' then
        (if length (pc_args cmd) < 3 then Inl ''UID FETCH requires arguments''
         else Inr (pc_args cmd ! 1, join_str '' '' (drop 2 (pc_args cmd))))
      else if pc_name cmd = ''FETCH'' \<or> pc_name cmd = ''UID'' then
        (case pc_args cmd of
           [] \<Rightarrow> Inl ''FETCH requires a sequence set''
         | [a] \<Rightarrow> Inr (a, ''BODY[]'')
         | a # items \<Rightarrow> Inr (a, join_str '' '' items))
      else Inl ''FETCH requires a sequence set'')"

fun fetch_loop :: "(message_meta \<Rightarrow> (store_error, bytes) result) \<Rightarrow> (message_meta \<Rightarrow> bytes \<Rightarrow> rstr) \<Rightarrow> message_meta list \<Rightarrow>
    (store_error, rstr) result" where
  "fetch_loop get show [] = Inr []"
| "fetch_loop get show (m # ms) =
     bind_r (get m) (\<lambda>body. bind_r (fetch_loop get show ms) (\<lambda>out. Inr (show m body @ out)))"

definition cmd_fetch :: "secure_ext \<Rightarrow> imap_ext \<Rightarrow> rstr \<Rightarrow> parsed_command \<Rightarrow> imap_session \<Rightarrow> store \<Rightarrow> rstr" where
  "cmd_fetch S X tag cmd s st =
     (if is_state s \<noteq> Selected then tagged tag ImapBad ''No mailbox selected''
      else
        (case fetch_args cmd of
           Inl text \<Rightarrow> tagged tag ImapBad text
         | Inr (rng, items) \<Rightarrow>
             (case fst (list_messages_in (is_user_id s) (is_selected s) st) of
                Inl e \<Rightarrow> store_err S tag e
              | Inr ms \<Rightarrow>
                  (let req = (if pc_name cmd = ''UID'' then (parse_fetch_items items)\<lparr>fr_uid := True\<rparr> else parse_fetch_items items);
                       get = (\<lambda>m. if needs_stored_body (fr_body req)
                               then bind_r (fst (fetch_message_in (is_user_id s) (is_selected s) (mm_id m) st)) (Inr \<circ> msg_body)
                               else Inr []);
                       show = (\<lambda>m body. fetch_response X m req body (message_identity_of s m)) in
                   case fetch_loop get show (filter (\<lambda>m. in_range rng (unat (mm_uid m)) (u32_of (length ms))) ms) of
                     Inl e \<Rightarrow> store_err S tag e
                   | Inr out \<Rightarrow> out @ tagged tag ImapOk ''FETCH completed''))))"

text \<open>The sequence set, the mode and the flags of STORE and UID STORE, or the text of the refusal.\<close>

definition store_args :: "parsed_command \<Rightarrow> (rstr, rstr \<times> rstr \<times> rstr) result" where
  "store_args cmd =
     (let sub = (case pc_args cmd of [] \<Rightarrow> None | a # _ \<Rightarrow> Some (to_ascii_uppercase a)) in
      if sub = Some ''STORE'' \<and> pc_name cmd = ''UID'' then
        (case pc_args cmd of _ # a # b # c # _ \<Rightarrow> Inr (a, b, c) | _ \<Rightarrow> Inl ''UID STORE requires arguments'')
      else if pc_name cmd = ''STORE'' \<or> pc_name cmd = ''UID'' then
        (case pc_args cmd of a # b # c # _ \<Rightarrow> Inr (a, b, c) | _ \<Rightarrow> Inl ''STORE requires arguments'')
      else Inl ''STORE requires arguments'')"

definition new_flags :: "bool \<Rightarrow> 32 word \<Rightarrow> message_flags \<Rightarrow> message_flags" where
  "new_flags val msk f = (if val then flags_insert f msk else flags_remove f msk)"

fun store_loop :: "int \<Rightarrow> rstr \<Rightarrow> 32 word \<Rightarrow> bool \<Rightarrow> message_meta list \<Rightarrow> store \<Rightarrow> (store_error, rstr) result \<times> store" where
  "store_loop uid box msk val [] st = (Inr [], st)"
| "store_loop uid box msk val (m # ms) st =
     (case set_flags_in uid box (mm_id m) msk val st of
        (Inl e, st') \<Rightarrow> (Inl e, st')
      | (Inr _, st') \<Rightarrow>
          (case store_loop uid box msk val ms st' of
             (Inl e, st'') \<Rightarrow> (Inl e, st'')
           | (Inr out, st'') \<Rightarrow>
               (Inr (untagged (show_nat (unat (mm_uid m)) @ '' FETCH (FLAGS ('' @ flags_display (new_flags val msk (mm_flags m)) @ ''))'') @ out),
                st'')))"

definition cmd_store :: "secure_ext \<Rightarrow> rstr \<Rightarrow> parsed_command \<Rightarrow> imap_session \<Rightarrow> store \<Rightarrow> rstr \<times> store" where
  "cmd_store S tag cmd s st =
     (if is_state s \<noteq> Selected then (tagged tag ImapBad ''No mailbox selected'', st)
      else
        (case store_args cmd of
           Inl text \<Rightarrow> (tagged tag ImapBad text, st)
         | Inr (rng, mode, flagspec) \<Rightarrow>
             (case fst (list_messages_in (is_user_id s) (is_selected s) st) of
                Inl e \<Rightarrow> (store_err S tag e, st)
              | Inr ms \<Rightarrow>
                  (let msk = parse_flags flagspec; val = (\<not> starts_with (trim_start mode) ''-'') in
                   if msk = 0 then (tagged tag ImapBad ''No supported flags in flag list'', st)
                   else
                     (case store_loop (is_user_id s) (is_selected s) msk val
                             (filter (\<lambda>m. in_range rng (unat (mm_uid m)) (u32_of (length ms))) ms) st of
                        (Inl e, st') \<Rightarrow> (store_err S tag e, st')
                      | (Inr out, st') \<Rightarrow> (out @ tagged tag ImapOk ''STORE completed'', st'))))))"

definition search_args :: "parsed_command \<Rightarrow> rstr list" where
  "search_args cmd =
     (case pc_args cmd of
        a # r \<Rightarrow> if pc_name cmd = ''UID'' \<and> eq_ignore_ascii_case a ''SEARCH'' then r else pc_args cmd
      | [] \<Rightarrow> [])"

definition search_step :: "rstr \<Rightarrow> bool \<times> bool \<Rightarrow> bool \<times> bool" where
  "search_step a = (\<lambda>(all, unseen).
     (let u = to_ascii_uppercase a in
      if u = ''ALL'' then (True, unseen) else if u = ''UNSEEN'' then (all, True) else (False, unseen)))"

definition cmd_search :: "secure_ext \<Rightarrow> rstr \<Rightarrow> parsed_command \<Rightarrow> imap_session \<Rightarrow> store \<Rightarrow> rstr" where
  "cmd_search S tag cmd s st =
     (if is_state s \<noteq> Selected then tagged tag ImapBad ''No mailbox selected''
      else
        (case fst (list_messages_in (is_user_id s) (is_selected s) st) of
           Inl e \<Rightarrow> store_err S tag e
         | Inr ms \<Rightarrow>
             (let args = search_args cmd; (all, unseen) = fold search_step args (args = [], False) in
              untagged (''SEARCH '' @ join_uids (map mm_uid (filter (\<lambda>m. all \<or> (unseen \<and> \<not> is_seen (mm_flags m))) ms))) @
              tagged tag ImapOk ''SEARCH completed'')))"

definition cmd_expunge :: "secure_ext \<Rightarrow> rstr \<Rightarrow> imap_session \<Rightarrow> store \<Rightarrow> rstr \<times> store" where
  "cmd_expunge S tag s st =
     (if is_state s \<noteq> Selected then (tagged tag ImapBad ''No mailbox selected'', st)
      else
        (case expunge_in (is_user_id s) (is_selected s) st of
           (Inr uids, st') \<Rightarrow>
             (concat (map (\<lambda>u. untagged (show_nat (unat u) @ '' EXPUNGE'')) uids) @ tagged tag ImapOk ''EXPUNGE completed'', st')
         | (Inl e, st') \<Rightarrow> (store_err S tag e, st')))"

definition cmd_close :: "secure_ext \<Rightarrow> rstr \<Rightarrow> imap_session \<Rightarrow> store \<Rightarrow> imap_reply" where
  "cmd_close S tag s st =
     (if is_state s \<noteq> Selected then (tagged tag ImapBad ''No mailbox selected'', s, st)
      else
        (case expunge (is_user_id s) st of
           (Inl e, st') \<Rightarrow> (store_err S tag e, s, st')
         | (Inr _, st') \<Rightarrow> (tagged tag ImapOk ''CLOSE completed'', s\<lparr>is_state := ImapAuthenticated\<rparr>, st')))"

definition cmd_idle :: "rstr \<Rightarrow> imap_session \<Rightarrow> rstr" where
  "cmd_idle tag s = (if is_state s \<noteq> Selected then tagged tag ImapBad ''No mailbox selected'' else continuation ''idle'')"

definition cmd_uid :: "secure_ext \<Rightarrow> imap_ext \<Rightarrow> rstr \<Rightarrow> parsed_command \<Rightarrow> imap_session \<Rightarrow> store \<Rightarrow> rstr \<times> store" where
  "cmd_uid S X tag cmd s st =
     (if is_state s \<noteq> Selected then (tagged tag ImapBad ''No mailbox selected'', st)
      else
        (case pc_args cmd of
           [] \<Rightarrow> (tagged tag ImapBad ''UID requires a subcommand'', st)
         | sub # _ \<Rightarrow>
             (let u = to_ascii_uppercase sub in
              if u = ''FETCH'' then (cmd_fetch S X tag cmd s st, st)
              else if u = ''STORE'' then cmd_store S tag cmd s st
              else if u = ''SEARCH'' then (cmd_search S tag cmd s st, st)
              else (tagged tag ImapBad ''Unsupported UID subcommand'', st))))"

definition cmd_capability :: "rstr \<Rightarrow> rstr" where
  "cmd_capability tag = untagged ''CAPABILITY IMAP4rev1 IDLE NAMESPACE AUTH=PLAIN'' @ tagged tag ImapOk ''CAPABILITY completed''"

definition cmd_logout :: "rstr \<Rightarrow> rstr" where
  "cmd_logout tag = untagged ''BYE Talk IMAP server logging out'' @ tagged tag ImapOk ''LOGOUT completed''"

definition unsupported_commands :: "rstr list" where
  "unsupported_commands = [''APPEND'', ''COPY'', ''MOVE'', ''SORT'', ''THREAD'', ''CREATE'', ''DELETE'', ''RENAME'', ''SUBSCRIBE'',
     ''UNSUBSCRIBE'', ''LSUB'', ''CHECK'', ''LANGUAGE'']"

definition imap_handle ::
    "ext \<Rightarrow> crypto \<Rightarrow> secure_ext \<Rightarrow> imap_ext \<Rightarrow> parsed_command \<Rightarrow> imap_session \<Rightarrow> store \<Rightarrow> imap_reply" where
  "imap_handle E K S X cmd s st =
     (let tag = pc_tag cmd; name = pc_name cmd in
      if name = ''CAPABILITY'' then (cmd_capability tag, s, st)
      else if name = ''NOOP'' then (tagged tag ImapOk ''NOOP completed'', s, st)
      else if name = ''LOGOUT'' then (cmd_logout tag, s, st)
      else if name = ''LOGIN'' \<or> name = ''AUTHENTICATE'' then (case cmd_auth E K S X tag cmd s st of (out, s') \<Rightarrow> (out, s', st))
      else if name = ''SELECT'' \<or> name = ''EXAMINE'' then (case cmd_select S tag cmd s st of (out, s') \<Rightarrow> (out, s', st))
      else if name = ''LIST'' then (cmd_list tag cmd s, s, st)
      else if name = ''NAMESPACE'' then (cmd_namespace tag s, s, st)
      else if name = ''STATUS'' then (cmd_status S tag cmd s st, s, st)
      else if name = ''FETCH'' then (cmd_fetch S X tag cmd s st, s, st)
      else if name = ''UID'' then (case cmd_uid S X tag cmd s st of (out, st') \<Rightarrow> (out, s, st'))
      else if name = ''STORE'' then (case cmd_store S tag cmd s st of (out, st') \<Rightarrow> (out, s, st'))
      else if name = ''SEARCH'' then (cmd_search S tag cmd s st, s, st)
      else if name = ''EXPUNGE'' then (case cmd_expunge S tag s st of (out, st') \<Rightarrow> (out, s, st'))
      else if name = ''CLOSE'' then cmd_close S tag s st
      else if name = ''IDLE'' then (cmd_idle tag s, s, st)
      else if name \<in> set unsupported_commands then (tagged tag ImapNo ''command not supported'', s, st)
      else (tagged tag ImapBad ''Unknown command'', s, st))"

subsection \<open>What a session may change\<close>

text \<open>
  Between two stores only the mail of one user differs: no message is added, the messages of other
  users are the same rows, and of a message that is kept only the flags may differ.
\<close>

definition boxes_of :: "int \<Rightarrow> store \<Rightarrow> int set" where
  "boxes_of uid st = mb_id ` {b \<in> set (mailboxes st). mb_user_id b = uid}"

definition own_mail_only :: "int \<Rightarrow> store \<Rightarrow> store \<Rightarrow> bool" where
  "own_mail_only uid st st' \<longleftrightarrow>
     st' = st\<lparr>messages := messages st'\<rparr> \<and>
     filter (\<lambda>m. m_mailbox_id m \<notin> boxes_of uid st) (messages st') = filter (\<lambda>m. m_mailbox_id m \<notin> boxes_of uid st) (messages st) \<and>
     (\<forall>m' \<in> set (messages st'). \<exists>m \<in> set (messages st). m' = m\<lparr>m_flags := m_flags m'\<rparr>)"

lemma same_row: "m \<in> A \<Longrightarrow> \<exists>m' \<in> A. m = m'\<lparr>m_flags := m_flags m\<rparr>"
  by (rule bexI[of _ m]) simp_all

lemma own_mail_refl: "own_mail_only uid st st"
  by (simp add: own_mail_only_def same_row)

lemma own_mail_trans:
  assumes a: "own_mail_only uid st st'" and b: "own_mail_only uid st' st''"
  shows "own_mail_only uid st st''"
proof -
  have s: "st' = st\<lparr>messages := messages st'\<rparr>" "st'' = st'\<lparr>messages := messages st''\<rparr>"
    using a b by (simp_all add: own_mail_only_def)
  then have bx: "boxes_of uid st' = boxes_of uid st" by (metis boxes_of_def store.select_convs(4) store.surjective store.update_convs(5))
  have "st'' = st\<lparr>messages := messages st''\<rparr>" using s by (metis store.cases_scheme store.update_convs(5))
  moreover have "\<exists>m \<in> set (messages st). m'' = m\<lparr>m_flags := m_flags m''\<rparr>" if m: "m'' \<in> set (messages st'')" for m''
  proof -
    obtain m' where m': "m' \<in> set (messages st')" "m'' = m'\<lparr>m_flags := m_flags m''\<rparr>" using b m unfolding own_mail_only_def by blast
    then obtain m where m2: "m \<in> set (messages st)" "m' = m\<lparr>m_flags := m_flags m'\<rparr>" using a unfolding own_mail_only_def by blast
    have "m'' = m\<lparr>m_flags := m_flags m''\<rparr>" by (subst m'(2), subst m2(2)) simp
    with m2(1) show ?thesis by blast
  qed
  ultimately show ?thesis using a b bx by (simp add: own_mail_only_def)
qed

lemma own_mail_box:
  assumes "mailbox_named uid name st = (Inr (bid, v, n), st1)" shows "bid \<in> boxes_of uid st"
  using assms by (elim mailbox_named_ok) (auto simp: boxes_of_def)

lemma own_mail_set_flags: "set_flags_in uid name i msk v st = (r, st') \<Longrightarrow> own_mail_only uid st st'"
proof -
  assume s: "set_flags_in uid name i msk v st = (r, st')"
  obtain x st1 where n: "mailbox_named uid name st = (x, st1)" by fastforce
  have st1: "st1 = st" using mailbox_named_state[of uid name st] n by simp
  show ?thesis
  proof (cases "\<exists>b. x = Inr b \<and> \<not> poisoned st")
    case True
    then obtain bid u w where x: "x = Inr (bid, u, w)" "\<not> poisoned st" by (metis prod.exhaust)
    have box: "bid \<in> boxes_of uid st" using n x own_mail_box by blast
    let ?f = "\<lambda>m. m\<lparr>m_flags := (if v then m_flags m OR msk else m_flags m AND NOT msk)\<rparr>"
    let ?ms = "update_where (\<lambda>m. m_mailbox_id m = bid \<and> m_id m = i) ?f (messages st)"
    have st': "st' = st\<lparr>messages := ?ms\<rparr>" using s n x st1 by (simp add: set_flags_in_def bind_op_def locked_def)
    have "filter (\<lambda>m. \<not> m_mailbox_id m \<in> boxes_of uid st) ?ms = filter (\<lambda>m. \<not> m_mailbox_id m \<in> boxes_of uid st) (messages st)"
      by (rule filter_update_where(2)) (use box in auto)
    moreover have "\<exists>m \<in> set (messages st). m' = m\<lparr>m_flags := m_flags m'\<rparr>" if mm: "m' \<in> set ?ms" for m'
    proof -
      obtain y where "y \<in> set (messages st)" "m' = (if m_mailbox_id y = bid \<and> m_id y = i then ?f y else y)"
        using mm unfolding in_update_where by blast
      then show ?thesis by (intro bexI[of _ y]) auto
    qed
    ultimately show ?thesis by (simp add: own_mail_only_def st')
  next
    case False
    then have "st' = st" using s n st1 by (cases x) (auto simp: set_flags_in_def bind_op_def locked_def)
    then show ?thesis by (simp add: own_mail_refl)
  qed
qed

lemma own_mail_expunge: "expunge_in uid name st = (r, st') \<Longrightarrow> own_mail_only uid st st'"
proof -
  assume s: "expunge_in uid name st = (r, st')"
  obtain x st1 where n: "mailbox_named uid name st = (x, st1)" by fastforce
  have st1: "st1 = st" using mailbox_named_state[of uid name st] n by simp
  show ?thesis
  proof (cases "\<exists>b. x = Inr b \<and> \<not> poisoned st")
    case True
    then obtain bid u w where x: "x = Inr (bid, u, w)" "\<not> poisoned st" by (metis prod.exhaust)
    have box: "bid \<in> boxes_of uid st" using n x own_mail_box by blast
    let ?ms = "filter (\<lambda>m. \<not> expunged bid m) (messages st)"
    have st': "st' = st\<lparr>messages := ?ms\<rparr>" using s n x st1
      by (simp add: expunge_in_def bind_op_def locked_def Let_def expunged_def[abs_def])
    have "filter (\<lambda>m. m_mailbox_id m \<notin> boxes_of uid st) ?ms = filter (\<lambda>m. m_mailbox_id m \<notin> boxes_of uid st) (messages st)"
      using box by (auto simp: expunged_def intro!: filter_cong)
    then show ?thesis by (simp add: own_mail_only_def st' same_row)
  next
    case False
    then have "st' = st" using s n st1 by (cases x) (auto simp: expunge_in_def bind_op_def locked_def)
    then show ?thesis by (simp add: own_mail_refl)
  qed
qed

text \<open>What one command does to a session and its store.\<close>

definition session_step :: "imap_session \<Rightarrow> store \<Rightarrow> imap_session \<Rightarrow> store \<Rightarrow> bool" where
  "session_step s st s' st' \<longleftrightarrow>
     (store_inv st \<longrightarrow> store_inv st') \<and> own_mail_only (is_user_id s') st st' \<and>
     (is_state s' = NotAuthenticated \<longrightarrow> st' = st \<and> is_state s = NotAuthenticated) \<and>
     (is_state s \<noteq> NotAuthenticated \<longrightarrow> is_user_id s' = is_user_id s \<and> is_username s' = is_username s) \<and>
     (is_selected s \<in> set MAILBOXES \<longrightarrow> is_selected s' \<in> set MAILBOXES) \<and>
     is_domain s' = is_domain s \<and> is_auth_mode s' = is_auth_mode s"

lemma session_step_refl: "session_step s st s st"
  by (simp add: session_step_def own_mail_refl)

lemma session_step_trans: "session_step s st s' st' \<Longrightarrow> session_step s' st' s'' st'' \<Longrightarrow> session_step s st s'' st''"
  unfolding session_step_def by (cases "is_state s' = NotAuthenticated") (auto intro: own_mail_trans)

lemma session_step_same: "is_state s \<noteq> NotAuthenticated \<Longrightarrow> store_inv st \<longrightarrow> store_inv st' \<Longrightarrow> own_mail_only (is_user_id s) st st' \<Longrightarrow>
   session_step s st s st'"
  by (simp add: session_step_def)

lemma store_loop_step:
  "store_loop uid box msk v ms st = (r, st') \<Longrightarrow> own_mail_only uid st st' \<and> (store_inv st \<longrightarrow> store_inv st')"
proof (induction ms arbitrary: st st' r)
  case Nil
  then show ?case by (simp add: own_mail_refl)
next
  case (Cons m ms)
  obtain x st1 where f: "set_flags_in uid box (mm_id m) msk v st = (x, st1)" by fastforce
  obtain y st2 where l: "store_loop uid box msk v ms st1 = (y, st2)" by fastforce
  have "own_mail_only uid st st1" "store_inv st \<longrightarrow> store_inv st1"
    using own_mail_set_flags[OF f] keepsD[OF keeps_set_flags_in(2) _ f] by blast+
  moreover have "own_mail_only uid st1 st2 \<and> (store_inv st1 \<longrightarrow> store_inv st2)" by (rule Cons.IH[OF l])
  ultimately show ?case using Cons.prems f l own_mail_trans by (cases x; cases y) auto
qed

lemma cmd_store_step: "cmd_store S tag cmd s st = (out, st') \<Longrightarrow> session_step s st s st'"
  by (auto simp: cmd_store_def Let_def session_step_refl split: if_splits sum.splits prod.splits
      intro!: session_step_same dest: store_loop_step)

lemma cmd_uid_step: "cmd_uid S X tag cmd s st = (out, st') \<Longrightarrow> session_step s st s st'"
  by (auto simp: cmd_uid_def Let_def session_step_refl split: if_splits list.splits dest: cmd_store_step)

lemma cmd_expunge_step: "cmd_expunge S tag s st = (out, st') \<Longrightarrow> session_step s st s st'"
  by (auto simp: cmd_expunge_def session_step_refl split: if_splits sum.splits prod.splits
      intro!: session_step_same dest: own_mail_expunge keepsD[OF keeps_expunge_in(2)])

lemma cmd_close_step: "cmd_close S tag s st = (out, s', st') \<Longrightarrow> session_step s st s' st'"
  by (auto simp: cmd_close_def session_step_refl session_step_def own_mail_refl expunge_def split: if_splits sum.splits prod.splits
      dest: own_mail_expunge keepsD[OF keeps_expunge_in(2)])

lemma imap_login_step: "imap_login E K S X tag u p s st = (out, s') \<Longrightarrow> is_state s = NotAuthenticated \<Longrightarrow> session_step s st s' st"
  by (auto simp: imap_login_def Let_def session_step_def own_mail_refl split: option.splits sum.splits if_splits prod.splits)

lemma cmd_auth_step: "cmd_auth E K S X tag cmd s st = (out, s') \<Longrightarrow> session_step s st s' st"
  by (auto simp: cmd_auth_def session_step_refl split: if_splits list.splits option.splits dest: imap_login_step)

lemma canonical_mailbox_in: "canonical_mailbox n = Some m \<Longrightarrow> m \<in> set MAILBOXES"
  by (auto simp: canonical_mailbox_def dest: find_Some_in)

lemma cmd_select_step: "cmd_select S tag cmd s st = (out, s') \<Longrightarrow> session_step s st s' st"
  by (auto simp: cmd_select_def Let_def session_step_def own_mail_refl first_arg_mailbox_def
      split: if_splits list.splits option.splits sum.splits dest: canonical_mailbox_in)

lemma imap_handle_step: "imap_handle E K S X cmd s st = (out, s', st') \<Longrightarrow> session_step s st s' st'"
  unfolding imap_handle_def Let_def
  by (auto split: if_splits prod.splits simp: session_step_refl
      dest: cmd_auth_step cmd_select_step cmd_uid_step cmd_store_step cmd_expunge_step cmd_close_step)

subsection \<open>Who is logged in\<close>

text \<open>
  The credentials the session accepted: the name resolves to a user of the store and the password is
  an app password of that user or passes the check of the configured mode.
\<close>

definition credentials_ok :: "ext \<Rightarrow> crypto \<Rightarrow> secure_ext \<Rightarrow> imap_ext \<Rightarrow> imap_session \<Rightarrow> rstr \<Rightarrow> rstr \<Rightarrow> user \<Rightarrow> store \<Rightarrow> bool" where
  "credentials_ok E K S X s username password user st \<longleftrightarrow>
     (case strip_suffix '':app'' username of
        Some base \<Rightarrow>
          (\<exists>loc. local_username base (is_domain s) = Some loc \<and> fst (get_user loc st) = Inr (Some user)) \<and>
          app_password_ok E K password (user_id user) st
      | None \<Rightarrow>
          (\<exists>loc. local_username username (is_domain s) = Some loc \<and> fst (get_user loc st) = Inr (Some user) \<and>
             password_ok S X (is_auth_mode s) loc password st))"

definition logged_in :: "imap_session \<Rightarrow> user \<Rightarrow> imap_session" where
  "logged_in s user = s\<lparr>is_user_id := user_id user, is_username := user_name user, is_state := ImapAuthenticated\<rparr>"

lemma imap_login_iff:
  "(\<forall>user. credentials_ok E K S X s u p user st \<longrightarrow> snd (imap_login E K S X tag u p s st) = logged_in s user) \<and>
   ((\<nexists>user. credentials_ok E K S X s u p user st) \<longrightarrow>
      imap_login E K S X tag u p s st = (tagged tag ImapNo ''Authentication failed'', s))"
  unfolding imap_login_def credentials_ok_def logged_in_def Let_def
  by (cases "strip_suffix '':app'' u") (auto split: option.splits sum.splits)

text \<open>The credentials of an authentication command.\<close>

definition auth_credentials :: "ext \<Rightarrow> parsed_command \<Rightarrow> (rstr \<times> rstr) option" where
  "auth_credentials E cmd =
     (if pc_name cmd = ''LOGIN'' then (case pc_args cmd of [u, p] \<Rightarrow> Some (u, p) | _ \<Rightarrow> None)
      else if pc_name cmd = ''AUTHENTICATE'' then
        (case pc_args cmd of
           [mech, tok] \<Rightarrow>
             (if eq_ignore_ascii_case mech ''PLAIN''
              then (case b64_decode E tok of
                      Some t \<Rightarrow> (case split_on (CHR 0x00) t of [_, u, p] \<Rightarrow> Some (from_utf8_lossy u, from_utf8_lossy p) | _ \<Rightarrow> None)
                    | None \<Rightarrow> None)
              else None)
         | _ \<Rightarrow> None)
      else None)"

lemma imap_login_auth:
  assumes "imap_login E K S X tag u p s st = (out, s')" "is_state s = NotAuthenticated" "is_state s' \<noteq> NotAuthenticated"
  shows "\<exists>user. credentials_ok E K S X s u p user st \<and> s' = logged_in s user"
  using imap_login_iff[of E K S X s u p st tag] assms by (cases "\<exists>user. credentials_ok E K S X s u p user st") auto

lemma cmd_auth_auth:
  assumes "cmd_auth E K S X tag cmd s st = (out, s')" "is_state s = NotAuthenticated" "is_state s' \<noteq> NotAuthenticated"
    and "pc_name cmd = ''LOGIN'' \<or> pc_name cmd = ''AUTHENTICATE''"
  shows "\<exists>u p user. auth_credentials E cmd = Some (u, p) \<and> credentials_ok E K S X s u p user st \<and> s' = logged_in s user"
proof -
  obtain u p where "auth_credentials E cmd = Some (u, p)" "imap_login E K S X tag u p s st = (out, s')"
    using assms by (auto simp: cmd_auth_def auth_credentials_def split: if_splits list.splits option.splits)
  with imap_login_auth[of E K S X tag u p s st out s'] assms(2,3) show ?thesis by blast
qed

lemma imap_handle_auth:
  assumes "imap_handle E K S X cmd s st = (out, s', st')" "is_state s = NotAuthenticated" "is_state s' \<noteq> NotAuthenticated"
  shows "\<exists>u p user. auth_credentials E cmd = Some (u, p) \<and> credentials_ok E K S X s u p user st \<and> s' = logged_in s user"
proof -
  have "pc_name cmd = ''LOGIN'' \<or> pc_name cmd = ''AUTHENTICATE''"
  proof (rule ccontr)
    assume n: "\<not> (pc_name cmd = ''LOGIN'' \<or> pc_name cmd = ''AUTHENTICATE'')"
    have c: "fst (snd (cmd_close S tag s st)) = s" for tag using assms(2) by (simp add: cmd_close_def)
    have "snd (cmd_select S tag cmd s st) = s" for tag using assms(2) by (simp add: cmd_select_def)
    with n c assms(1) have "s' = s" unfolding imap_handle_def Let_def
      by (auto split: if_splits prod.splits) (metis fst_conv snd_conv)+
    with assms(2,3) show False by simp
  qed
  moreover from this assms(1) obtain out' where "cmd_auth E K S X (pc_tag cmd) cmd s st = (out', s')"
    by (auto simp: imap_handle_def Let_def split: prod.splits)
  ultimately show ?thesis using cmd_auth_auth assms(2,3) by blast
qed

end
