(* ===== verification/Tls.thy ===== *)
theory Tls
  imports Template Client
begin

text \<open>
  Transport security: the server configuration that IMAP and ZSMTP share (\<^verbatim>\<open>talk-imap/src/tls.rs\<close>), and the
  client connections with the verifier that accepts every certificate (the end of \<^verbatim>\<open>talk-protocol/src/client.rs\<close>).
  The PEM reader, the key check and the handshakes of the TLS library, and the sockets, are functions of records.
\<close>

subsection \<open>The server configuration\<close>

datatype tls_error =
    TlsIo rstr rstr
  | NoCertificates rstr
  | NoPrivateKey rstr
  | InvalidPrivateKey rstr
  | TlsConfig rstr

text \<open>
  Opening a file that does not exist gives the text of an error. The PEM reader yields the certificates of a file one by one, any of which may be malformed, and
  the first private key, if there is one. A chain and a key are refused when they do not fit.
\<close>

record tls_ext =
  tx_open_text :: "rstr \<Rightarrow> rstr"
  tx_certs :: "bytes \<Rightarrow> (rstr, bytes) result list"
  tx_private_key :: "bytes \<Rightarrow> (rstr, bytes option) result"
  tx_single_cert :: "bytes list \<Rightarrow> bytes \<Rightarrow> rstr option"

record server_config =
  sc_certs :: "bytes list"
  sc_private_key :: bytes

text \<open>Collecting an iterator of results: its first error, or all values.\<close>

fun collect_results :: "('e, 'a) result list \<Rightarrow> ('e, 'a list) result" where
  "collect_results [] = Inr []"
| "collect_results (Inl e # _) = Inl e"
| "collect_results (Inr x # rs) = (case collect_results rs of Inl e \<Rightarrow> Inl e | Inr xs \<Rightarrow> Inr (x # xs))"

definition load_server_config :: "tls_ext \<Rightarrow> files \<Rightarrow> rstr \<Rightarrow> rstr \<Rightarrow> (tls_error, server_config) result" where
  "load_server_config X fs cert_path key_path =
     (case fs cert_path of
        None \<Rightarrow> Inl (TlsIo cert_path (tx_open_text X cert_path))
      | Some cert_pem \<Rightarrow>
     (case collect_results (tx_certs X cert_pem) of
        Inl e \<Rightarrow> Inl (TlsIo cert_path e)
      | Inr certs \<Rightarrow>
          if certs = [] then Inl (NoCertificates cert_path)
          else
     (case fs key_path of
        None \<Rightarrow> Inl (TlsIo key_path (tx_open_text X key_path))
      | Some key_pem \<Rightarrow>
     (case tx_private_key X key_pem of
        Inl e \<Rightarrow> Inl (TlsIo key_path e)
      | Inr None \<Rightarrow> Inl (NoPrivateKey key_path)
      | Inr (Some key) \<Rightarrow>
          if tx_single_cert X certs key \<noteq> None then Inl (InvalidPrivateKey key_path)
          else Inr \<lparr>sc_certs = certs, sc_private_key = key\<rparr>))))"

subsection \<open>Client connections\<close>

text \<open>
  What a TLS client asks of its verifier: whether a certificate chain is good for a name, and whether
  a handshake signature (of TLS 1.2 or 1.3) is good for a certificate and a message.
\<close>

datatype signature_scheme = ED25519 | RSA_PSS_SHA256 | RSA_PKCS1_SHA256 | ECDSA_NISTP256_SHA256

record cert_verifier =
  cv_server_cert :: "bytes \<Rightarrow> bytes list \<Rightarrow> rstr \<Rightarrow> bytes \<Rightarrow> int \<Rightarrow> (rstr, unit) result"
  cv_tls12_signature :: "bytes \<Rightarrow> bytes \<Rightarrow> bytes \<Rightarrow> (rstr, unit) result"
  cv_tls13_signature :: "bytes \<Rightarrow> bytes \<Rightarrow> bytes \<Rightarrow> (rstr, unit) result"
  cv_schemes :: "signature_scheme list"

definition AcceptAnyCert :: cert_verifier where
  "AcceptAnyCert =
     \<lparr>cv_server_cert = (\<lambda>_ _ _ _ _. Inr ()), cv_tls12_signature = (\<lambda>_ _ _. Inr ()), cv_tls13_signature = (\<lambda>_ _ _. Inr ()),
      cv_schemes = [ED25519, RSA_PSS_SHA256, RSA_PKCS1_SHA256, ECDSA_NISTP256_SHA256]\<rparr>"

record client_config =
  cc_verifier :: cert_verifier
  cc_client_auth :: "bytes option"

definition accept_any_cert_client_config :: client_config where
  "accept_any_cert_client_config = \<lparr>cc_verifier = AcceptAnyCert, cc_client_auth = None\<rparr>"

text \<open>Connecting gives what the other side will send, as seen after the handshake where there is one.\<close>

record 's net_ext =
  nx_server_name :: "rstr \<Rightarrow> (rstr, rstr) result"
  nx_unix :: "rstr \<Rightarrow> (rstr, bytes) result"
  nx_tcp :: "rstr \<Rightarrow> (rstr, 's) result"
  nx_plain :: "'s \<Rightarrow> bytes"
  nx_tls :: "client_config \<Rightarrow> rstr \<Rightarrow> 's \<Rightarrow> (rstr, bytes) result"

definition connect_unix :: "'s net_ext \<Rightarrow> rstr \<Rightarrow> rstr \<Rightarrow> (client_error, client) result" where
  "connect_unix X path sender =
     (case nx_unix X path of Inl e \<Rightarrow> Inl (ClIo e) | Inr inp \<Rightarrow> client_connect inp sender)"

definition connect_tcp :: "'s net_ext \<Rightarrow> rstr \<Rightarrow> rstr \<Rightarrow> (client_error, client) result" where
  "connect_tcp X addr sender =
     (case nx_tcp X addr of Inl e \<Rightarrow> Inl (ClIo e) | Inr s \<Rightarrow> client_connect (nx_plain X s) sender)"

text \<open>The network of a daemon: the part of \<^verbatim>\<open>connect_tcp_tls\<close> before the greeting is read.\<close>

definition tls_network :: "'s net_ext \<Rightarrow> client_config \<Rightarrow> network" where
  "tls_network X cfg addr server_name =
     (case nx_server_name X server_name of
        Inl e \<Rightarrow> Inl (ClAuth (''invalid server name: '' @ e))
      | Inr name \<Rightarrow>
     (case nx_tcp X addr of
        Inl e \<Rightarrow> Inl (ClIo e)
      | Inr s \<Rightarrow>
     (case nx_tls X cfg name s of
        Inl e \<Rightarrow> Inl (ClIo e)
      | Inr inp \<Rightarrow> Inr inp)))"

subsection \<open>Facts\<close>

lemma collect_results_Inr: "collect_results rs = Inr xs \<longleftrightarrow> rs = map Inr xs"
proof (induction rs arbitrary: xs rule: collect_results.induct)
  case (3 x rs)
  show ?case
  proof (cases xs)
    case (Cons y ys)
    have "collect_results (Inr x # rs) = Inr xs \<longleftrightarrow> x = y \<and> collect_results rs = Inr ys"
      unfolding Cons by (cases "collect_results rs") auto
    with 3[of ys] Cons show ?thesis by (simp only: list.map list.inject sum.inject)
  qed (cases "collect_results rs"; simp)
qed auto

text \<open>A configuration is exactly what the two files hold: a nonempty chain of well formed certificates and a key that fits.\<close>

lemma load_server_config_iff:
  "load_server_config X fs cert_path key_path = Inr sc \<longleftrightarrow>
   (\<exists>cert_pem key_pem. fs cert_path = Some cert_pem \<and> fs key_path = Some key_pem \<and>
      tx_certs X cert_pem = map Inr (sc_certs sc) \<and> sc_certs sc \<noteq> [] \<and>
      tx_private_key X key_pem = Inr (Some (sc_private_key sc)) \<and> tx_single_cert X (sc_certs sc) (sc_private_key sc) = None)"
  unfolding load_server_config_def collect_results_Inr[symmetric]
  by (cases sc) (auto split: option.splits sum.splits if_splits)

text \<open>Every failure names the file at fault, and the certificate file is looked at first.\<close>

lemma load_server_config_error:
  assumes "load_server_config X fs cert_path key_path = Inl e"
  shows "e = NoCertificates cert_path \<or> (\<exists>m. e = TlsIo cert_path m) \<or>
    (e \<in> {NoPrivateKey key_path, InvalidPrivateKey key_path} \<or> (\<exists>m. e = TlsIo key_path m)) \<and>
    (\<exists>pem certs. fs cert_path = Some pem \<and> tx_certs X pem = map Inr certs \<and> certs \<noteq> [])"
  using assms unfolding load_server_config_def collect_results_Inr[symmetric]
  by (auto split: option.splits sum.splits if_splits)

text \<open>The client configuration accepts every certificate for every name, and every signature of a handshake.\<close>

lemma any_certificate_accepted:
  "cv_server_cert (cc_verifier accept_any_cert_client_config) cert chain name ocsp now = Inr ()"
  "cv_tls12_signature (cc_verifier accept_any_cert_client_config) msg cert sig = Inr ()"
  "cv_tls13_signature (cc_verifier accept_any_cert_client_config) msg cert sig = Inr ()"
  by (simp_all add: accept_any_cert_client_config_def AcceptAnyCert_def)

text \<open>Over the network of the daemon a connection fails before the greeting only for a bad name or the transport.\<close>

lemma tls_network_error:
  assumes "tls_network X cfg addr name = Inl e"
  shows "(\<exists>m. e = ClIo m) \<or> (\<exists>m. e = ClAuth (''invalid server name: '' @ m) \<and> nx_server_name X name = Inl m)"
  using assms by (auto simp: tls_network_def split: sum.splits)

text \<open>A library that takes every file for one certificate and every file for a key.\<close>

definition demo_tls :: tls_ext where
  "demo_tls = \<lparr>tx_open_text = id, tx_certs = (\<lambda>pem. [Inr pem]), tx_private_key = (\<lambda>pem. Inr (Some pem)), tx_single_cert = (\<lambda>_ _. None)\<rparr>"

end
