(* ===== verification/Imap_Server.thy ===== *)
theory Imap_Server
  imports Imap_Session Tls
begin

text \<open>
  The connection loop of the IMAP server (\<^verbatim>\<open>talk-imap/src/server.rs\<close>): reading, dispatch of the commands
  of one read, IDLE with mailbox events, and the end of the connection. What a connection does next
  depends on the network and on the events of other tasks: the connection is a step relation over the
  handlers of one read and one event. Accepting connections is in the theory \<^verbatim>\<open>Listeners\<close>.
\<close>

record imap_server =
  sr_hostname :: rstr
  sr_auth_mode :: auth_mode
  sr_domain :: rstr
  sr_tls :: "server_config option"
  sr_capture_dir :: "rstr option"

definition imap_server_new :: "rstr \<Rightarrow> imap_server" where
  "imap_server_new hostname =
     \<lparr>sr_hostname = hostname, sr_auth_mode = Database, sr_domain = [], sr_tls = None, sr_capture_dir = None\<rparr>"

definition server_with_domain :: "rstr \<Rightarrow> imap_server \<Rightarrow> imap_server" where
  "server_with_domain d v = v\<lparr>sr_domain := d\<rparr>"

definition server_with_auth_mode :: "auth_mode \<Rightarrow> imap_server \<Rightarrow> imap_server" where
  "server_with_auth_mode m v = v\<lparr>sr_auth_mode := m\<rparr>"

definition server_with_tls :: "server_config \<Rightarrow> imap_server \<Rightarrow> imap_server" where
  "server_with_tls c v = v\<lparr>sr_tls := Some c\<rparr>"

definition server_with_capture_dir :: "rstr \<Rightarrow> imap_server \<Rightarrow> imap_server" where
  "server_with_capture_dir dir v = v\<lparr>sr_capture_dir := Some dir\<rparr>"

definition new_session :: "imap_server \<Rightarrow> imap_session" where
  "new_session v =
     \<lparr>is_state = NotAuthenticated, is_username = [], is_user_id = 0, is_auth_mode = sr_auth_mode v,
      is_domain = sr_domain v, is_selected = INBOX\<rparr>"

subsection \<open>A connection\<close>

record imap_conn =
  ic_session :: imap_session
  ic_reader :: command_reader
  ic_store :: store
  ic_out :: bytes

text \<open>In IDLE the tag, the commands still to serve and the replies not yet written are kept.\<close>

datatype conn_mode = ConnRunning | ConnIdling rstr "parsed_command list" rstr | ConnClosed

type_synonym imap_handler = "parsed_command \<Rightarrow> imap_session \<Rightarrow> store \<Rightarrow> imap_reply"

definition conn_write :: "bytes \<Rightarrow> imap_conn \<Rightarrow> imap_conn" where
  "conn_write b c = c\<lparr>ic_out := ic_out c @ b\<rparr>"

definition conn_start :: "imap_server \<Rightarrow> store \<Rightarrow> imap_conn" where
  "conn_start v st = \<lparr>ic_session = new_session v, ic_reader = reader_default, ic_store = st, ic_out = imap_greeting (sr_hostname v)\<rparr>"

text \<open>The loop over the commands of one read; \<open>out\<close> collects the replies.\<close>

fun serve_commands :: "imap_handler \<Rightarrow> parsed_command list \<Rightarrow> rstr \<Rightarrow> imap_conn \<Rightarrow> conn_mode \<times> imap_conn" where
  "serve_commands h [] out c = (ConnRunning, if out = [] then c else conn_write out c)"
| "serve_commands h (cmd # cmds) out c =
     (if pc_name cmd = ''IDLE'' then (ConnIdling (pc_tag cmd) cmds out, conn_write (continuation ''idle'') c)
      else
        (case h cmd (ic_session c) (ic_store c) of (reply, s, st) \<Rightarrow>
           (let c' = c\<lparr>ic_session := s, ic_store := st\<rparr> in
            if pc_name cmd = ''LOGOUT'' then (ConnClosed, conn_write (out @ reply) c')
            else serve_commands h cmds (out @ reply) c')))"

definition on_read :: "imap_handler \<Rightarrow> bytes \<Rightarrow> imap_conn \<Rightarrow> (conn_mode \<times> imap_conn) option" where
  "on_read h data c =
     (case feed data (ic_reader c) of
        None \<Rightarrow> None
      | Some (Inl e, r) \<Rightarrow>
          Some (if e = Unterminated then (ConnClosed, conn_write (tagged [] ImapBad ''malformed line'') (c\<lparr>ic_reader := r\<rparr>))
                else (ConnRunning, conn_write (untagged (''BAD Invalid command: '' @ show_parse_error e)) (c\<lparr>ic_reader := r\<rparr>)))
      | Some (Inr cmds, r) \<Rightarrow>
          (let c' = c\<lparr>ic_reader := r\<rparr> in
           Some (serve_commands h cmds []
                   (if needs_continuation r then conn_write (continuation ''send literal'') c' else c'))))"

definition on_idle_read ::
    "imap_handler \<Rightarrow> rstr \<Rightarrow> parsed_command list \<Rightarrow> rstr \<Rightarrow> bytes \<Rightarrow> imap_conn \<Rightarrow> (conn_mode \<times> imap_conn) option" where
  "on_idle_read h tag cmds out data c =
     (case feed data (ic_reader c) of
        None \<Rightarrow> None
      | Some (Inl e, r) \<Rightarrow> Some (ConnClosed, c\<lparr>ic_reader := r\<rparr>)
      | Some (Inr cs, r) \<Rightarrow>
          Some (if list_ex (\<lambda>cmd. pc_name cmd = ''DONE'') cs
                then serve_commands h cmds (out @ tagged tag ImapOk ''IDLE terminated'') (c\<lparr>ic_reader := r\<rparr>)
                else (ConnIdling tag cmds out, c\<lparr>ic_reader := r\<rparr>)))"

definition on_idle_event :: "mailbox_event \<Rightarrow> imap_conn \<Rightarrow> imap_conn" where
  "on_idle_event ev c =
     (case ev of MessageAppended uid \<Rightarrow>
        if uid = is_user_id (ic_session c)
        then conn_write (untagged (show_nat (case fst (list_messages uid (ic_store c)) of Inr ms \<Rightarrow> length ms | Inl _ \<Rightarrow> 0) @ '' EXISTS'')) c
        else c)"

text \<open>One step of a connection: a read, an event in IDLE, or the end.\<close>

inductive imap_step :: "imap_handler \<Rightarrow> conn_mode \<times> imap_conn \<Rightarrow> conn_mode \<times> imap_conn \<Rightarrow> bool" for h where
  step_read: "data \<noteq> [] \<Longrightarrow> length data \<le> 4096 \<Longrightarrow> on_read h data c = Some mc \<Longrightarrow> imap_step h (ConnRunning, c) mc"
| step_idle_read: "data \<noteq> [] \<Longrightarrow> length data \<le> 4096 \<Longrightarrow> on_idle_read h tag cmds out data c = Some mc \<Longrightarrow>
    imap_step h (ConnIdling tag cmds out, c) mc"
| step_idle_event: "imap_step h (ConnIdling tag cmds out, c) (ConnIdling tag cmds out, on_idle_event ev c)"
| step_end: "m \<noteq> ConnClosed \<Longrightarrow> imap_step h (m, c) (ConnClosed, c)"

inductive imap_run :: "imap_handler \<Rightarrow> conn_mode \<times> imap_conn \<Rightarrow> conn_mode \<times> imap_conn \<Rightarrow> bool" for h where
  run_refl: "imap_run h x x"
| run_step: "imap_run h x y \<Longrightarrow> imap_step h y z \<Longrightarrow> imap_run h x z"

inductive_cases imap_closedE: "imap_step h (ConnClosed, c) mc"

subsection \<open>The contract of a command handler\<close>

text \<open>
  A relation between the session and store before and after that every command keeps and that
  composes is kept by every run of the connection.
\<close>

locale command_contract =
  fixes h :: imap_handler and R :: "imap_session \<Rightarrow> store \<Rightarrow> imap_session \<Rightarrow> store \<Rightarrow> bool"
  assumes R_refl: "R s st s st"
    and R_trans: "R s st s' st' \<Longrightarrow> R s' st' s'' st'' \<Longrightarrow> R s st s'' st''"
    and R_cmd: "h cmd s st = (out, s', st') \<Longrightarrow> R s st s' st'"
begin

abbreviation conn_R :: "imap_conn \<Rightarrow> imap_conn \<Rightarrow> bool" where
  "conn_R c c' \<equiv> R (ic_session c) (ic_store c) (ic_session c') (ic_store c')"

lemma serve_commands_R: "serve_commands h cmds out c = (m, c') \<Longrightarrow> conn_R c c'"
proof (induction cmds arbitrary: out c)
  case Nil
  then show ?case by (auto simp: conn_write_def R_refl split: if_splits)
next
  case (Cons cmd cmds)
  obtain reply s st where hd: "h cmd (ic_session c) (ic_store c) = (reply, s, st)" by (metis prod.exhaust)
  show ?case
  proof (cases "pc_name cmd = ''IDLE''")
    case False
    let ?c = "c\<lparr>ic_session := s, ic_store := st\<rparr>"
    have r: "conn_R c ?c" using R_cmd[OF hd] by simp
    show ?thesis
    proof (cases "pc_name cmd = ''LOGOUT''")
      case True
      with r hd Cons.prems show ?thesis by (auto simp: conn_write_def)
    next
      case nl: False
      then have "conn_R ?c c'" using Cons.prems False hd by (intro Cons.IH[of "out @ reply"]) simp
      with r show ?thesis using R_trans by blast
    qed
  qed (use Cons.prems in \<open>auto simp: conn_write_def R_refl\<close>)
qed

lemma step_R: "imap_step h (m, c) (m', c') \<Longrightarrow> conn_R c c'"
proof (induction "(m, c)" "(m', c')" rule: imap_step.induct)
  case (step_read data)
  obtain x r where f: "feed data (ic_reader c) = Some (x, r)" using step_read by (auto simp: on_read_def split: option.splits)
  show ?case
  proof (cases x)
    case (Inr cmds)
    let ?c = "if needs_continuation r then conn_write (continuation ''send literal'') (c\<lparr>ic_reader := r\<rparr>) else c\<lparr>ic_reader := r\<rparr>"
    have "serve_commands h cmds [] ?c = (m', c')" using step_read(3) f Inr by (simp add: on_read_def Let_def)
    from serve_commands_R[OF this] show ?thesis by (simp add: conn_write_def split: if_splits)
  qed (use step_read(3) f in \<open>auto simp: on_read_def conn_write_def R_refl split: if_splits\<close>)
next
  case (step_idle_read data tag cmds out)
  obtain x r where f: "feed data (ic_reader c) = Some (x, r)" using step_idle_read by (auto simp: on_idle_read_def split: option.splits)
  show ?case
  proof (cases x)
    case (Inr cs)
    show ?thesis
    proof (cases "list_ex (\<lambda>cmd. pc_name cmd = ''DONE'') cs")
      case True
      then have "serve_commands h cmds (out @ tagged tag ImapOk ''IDLE terminated'') (c\<lparr>ic_reader := r\<rparr>) = (m', c')"
        using step_idle_read(3) f Inr by (simp add: on_idle_read_def)
      from serve_commands_R[OF this] show ?thesis by simp
    qed (use step_idle_read(3) f Inr in \<open>auto simp: on_idle_read_def R_refl\<close>)
  qed (use step_idle_read(3) f in \<open>auto simp: on_idle_read_def R_refl\<close>)
qed (auto simp: on_idle_event_def conn_write_def R_refl split: mailbox_event.splits)

lemma run_R: "imap_run h x y \<Longrightarrow> conn_R (snd x) (snd y)"
proof (induction rule: imap_run.induct)
  case (run_step x y z)
  obtain m c m' c' where "y = (m, c)" "z = (m', c')" by fastforce
  with run_step step_R show ?case using R_trans by fastforce
qed (rule R_refl)

end

subsection \<open>The handler of the program\<close>

definition accepted_login ::
    "ext \<Rightarrow> crypto \<Rightarrow> secure_ext \<Rightarrow> imap_ext \<Rightarrow> imap_session \<Rightarrow> store \<Rightarrow> imap_session \<Rightarrow> store \<Rightarrow> bool" where
  "accepted_login E K S X s st s' st' \<longleftrightarrow> session_step s st s' st' \<and>
     (is_state s = NotAuthenticated \<and> is_state s' \<noteq> NotAuthenticated \<longrightarrow>
       (\<exists>u p user. credentials_ok E K S X s u p user st \<and> is_user_id s' = user_id user \<and> is_username s' = user_name user))"

lemma credentials_ok_cong: "is_domain s' = is_domain s \<Longrightarrow> is_auth_mode s' = is_auth_mode s \<Longrightarrow>
   credentials_ok E K S X s' u p user st = credentials_ok E K S X s u p user st"
  by (simp add: credentials_ok_def cong: option.case_cong)

interpretation imap: command_contract "imap_handle E K S X" "accepted_login E K S X" for E K S X
proof unfold_locales
  show "accepted_login E K S X s st s st" for s st by (simp add: accepted_login_def session_step_refl)
  show "accepted_login E K S X s st s' st'" if "imap_handle E K S X cmd s st = (out, s', st')" for cmd s st out s' st'
  proof -
    have "\<exists>u p user. credentials_ok E K S X s u p user st \<and> is_user_id s' = user_id user \<and> is_username s' = user_name user"
      if a: "is_state s = NotAuthenticated" "is_state s' \<noteq> NotAuthenticated"
    proof -
      obtain u p user where "credentials_ok E K S X s u p user st" "s' = logged_in s user"
        using imap_handle_auth[OF \<open>imap_handle E K S X cmd s st = (out, s', st')\<close> a] by blast
      then show ?thesis by (intro exI[of _ u] exI[of _ p] exI[of _ user]) (simp add: logged_in_def)
    qed
    with imap_handle_step[OF that] show ?thesis by (simp add: accepted_login_def)
  qed
next
  fix s st s' st' s'' st''
  assume a: "accepted_login E K S X s st s' st'" and b: "accepted_login E K S X s' st' s'' st''"
  have step: "session_step s st s'' st''" using a b session_step_trans unfolding accepted_login_def by blast
  have d: "is_domain s' = is_domain s" "is_auth_mode s' = is_auth_mode s" using a by (simp_all add: accepted_login_def session_step_def)
  show "accepted_login E K S X s st s'' st''"
  proof (cases "is_state s' = NotAuthenticated")
    case True
    then have "is_state s = NotAuthenticated" "st' = st" using a by (simp_all add: accepted_login_def session_step_def)
    with True b step credentials_ok_cong[OF d] show ?thesis by (simp add: accepted_login_def)
  next
    case False
    then have "is_user_id s'' = is_user_id s'" "is_username s'' = is_username s'" using b by (simp_all add: accepted_login_def session_step_def)
    with a False step show ?thesis by (simp add: accepted_login_def)
  qed
qed

subsection \<open>A conversation\<close>

text \<open>The commands and replies of a client that does not use IDLE and LOGOUT, without bytes.\<close>

fun imap_converse :: "imap_handler \<Rightarrow> parsed_command list \<Rightarrow> imap_session \<Rightarrow> store \<Rightarrow> rstr \<times> imap_session \<times> store" where
  "imap_converse h [] s st = ([], s, st)"
| "imap_converse h (cmd # cmds) s st =
     (case h cmd s st of (reply, s', st') \<Rightarrow>
      (case imap_converse h cmds s' st' of (out, s'', st'') \<Rightarrow> (reply @ out, s'', st'')))"

definition plain_command :: "imap_command \<Rightarrow> bool" where
  "plain_command c \<longleftrightarrow> imap_fits c \<and> pc_name (imap_parsed c) \<notin> {''IDLE'', ''LOGOUT''}"

text \<open>The successive reads of a connection that is not in IDLE.\<close>

fun serve_reads :: "imap_handler \<Rightarrow> bytes list \<Rightarrow> conn_mode \<times> imap_conn \<Rightarrow> (conn_mode \<times> imap_conn) option" where
  "serve_reads h [] x = Some x"
| "serve_reads h (data # reads) x =
     (case x of (ConnRunning, c) \<Rightarrow>
        (case on_read h data c of None \<Rightarrow> None | Some y \<Rightarrow> serve_reads h reads y)
      | _ \<Rightarrow> Some x)"

lemma serve_commands_converse:
  assumes "\<forall>cmd \<in> set cmds. pc_name cmd \<notin> {''IDLE'', ''LOGOUT''}" "imap_converse h cmds (ic_session c) (ic_store c) = (o', s, st)"
  shows "serve_commands h cmds out c = (ConnRunning, conn_write (out @ o') (c\<lparr>ic_session := s, ic_store := st\<rparr>))"
  using assms
proof (induction cmds arbitrary: c out o' s st)
  case Nil
  then show ?case by (cases c) (auto simp: conn_write_def)
next
  case (Cons cmd cmds)
  obtain reply s1 st1 where h: "h cmd (ic_session c) (ic_store c) = (reply, s1, st1)" by (metis prod.exhaust)
  obtain o2 s2 st2 where t: "imap_converse h cmds s1 st1 = (o2, s2, st2)" by (metis prod.exhaust)
  let ?c = "c\<lparr>ic_session := s1, ic_store := st1\<rparr>"
  have "serve_commands h cmds (out @ reply) ?c = (ConnRunning, conn_write ((out @ reply) @ o2) (?c\<lparr>ic_session := s2, ic_store := st2\<rparr>))"
    by (rule Cons.IH) (use Cons.prems(1) t in auto)
  with Cons.prems h t show ?case by (cases c) (auto simp: conn_write_def)
qed

lemma imap_converse_append:
  "imap_converse h (a @ b) s st =
     (case imap_converse h a s st of (o1, s1, st1) \<Rightarrow>
      (case imap_converse h b s1 st1 of (o2, s2, st2) \<Rightarrow> (o1 @ o2, s2, st2)))"
  by (induction a arbitrary: s st) (auto split: prod.splits)

lemma serve_reads_converse:
  assumes "feed (concat reads) (ic_reader c) = Some (Inr cmds, r)" "\<not> needs_continuation (ic_reader c)" "\<not> needs_continuation r"
    and "reads \<noteq> []" "\<forall>cmd \<in> set cmds. pc_name cmd \<notin> {''IDLE'', ''LOGOUT''}"
    and "imap_converse h cmds (ic_session c) (ic_store c) = (out, s, st)"
  shows "serve_reads h reads (ConnRunning, c) =
    Some (ConnRunning, \<lparr>ic_session = s, ic_reader = r, ic_store = st, ic_out = ic_out c @ out\<rparr>)"
  using assms
proof (induction reads arbitrary: c cmds out)
  case (Cons data reads)
  have one: "on_read h data c = Some (ConnRunning, \<lparr>ic_session = s1, ic_reader = r1, ic_store = st1, ic_out = ic_out c @ o1\<rparr>)"
    if "feed data (ic_reader c) = Some (Inr c1, r1)" "\<not> needs_continuation r1" "set c1 \<subseteq> set cmds"
      "imap_converse h c1 (ic_session c) (ic_store c) = (o1, s1, st1)" for c1 r1 o1 s1 st1
    using that serve_commands_converse[of c1 h "c\<lparr>ic_reader := r1\<rparr>" o1 s1 st1 "[]"] Cons.prems(5)
    by (cases c) (auto simp: on_read_def Let_def conn_write_def)
  show ?case
  proof (cases reads)
    case Nil
    with one[of cmds r out s st] Cons.prems show ?thesis by simp
  next
    case (Cons d ds)
    have h: "feed (data @ concat reads) (ic_reader c) = Some (Inr cmds, r)" using Cons.prems(1) by simp
    obtain c1 c2 r1 where f: "feed data (ic_reader c) = Some (Inr c1, r1)" "\<not> needs_continuation r1"
        "feed (concat reads) r1 = Some (Inr c2, r)" "cmds = c1 @ c2"
      by (rule feed_append[OF h Cons.prems(2,3)])
    obtain o1 s1 st1 where k1: "imap_converse h c1 (ic_session c) (ic_store c) = (o1, s1, st1)" by (metis prod.exhaust)
    obtain o2 where k2: "imap_converse h c2 s1 st1 = (o2, s, st)" "out = o1 @ o2"
      using Cons.prems(6) f(4) k1 by (auto simp: imap_converse_append split: prod.splits)
    let ?c = "\<lparr>ic_session = s1, ic_reader = r1, ic_store = st1, ic_out = ic_out c @ o1\<rparr>"
    have "serve_reads h reads (ConnRunning, ?c) =
        Some (ConnRunning, \<lparr>ic_session = s, ic_reader = r, ic_store = st, ic_out = ic_out ?c @ o2\<rparr>)"
      by (rule Cons.IH[of _ c2]) (use f k2 Cons.prems(3,5) Cons in auto)
    with one[OF f(1,2) _ k1] f(4) k2(2) show ?thesis by simp
  qed
qed simp

end
