(* ===== verification/Imap_Claims.thy ===== *)
theory Imap_Claims
  imports Imap_Server
begin

text \<open>
  What the IMAP server guarantees: isolation of users over whole connections, the correspondence of
  the byte stream with the sequence of commands, exact effects of FETCH, STORE, EXPUNGE and CLOSE, and
  the length of literals.
\<close>

subsection \<open>Sequence sets\<close>

lemma show_nat_no: "CHR '','' \<notin> set (show_nat n)" "CHR '':'' \<notin> set (show_nat n)" "show_nat n \<noteq> ''*''"
proof -
  have b: "48 \<le> byte c \<and> byte c \<le> 57" if "c \<in> set (show_nat n)" for c using that by (rule show_nat_byte)
  show "CHR '','' \<notin> set (show_nat n)" using b[of "CHR '',''"] by (auto simp: byte_def)
  show "CHR '':'' \<notin> set (show_nat n)" using b[of "CHR '':''"] by (auto simp: byte_def)
  show "show_nat n \<noteq> ''*''" using b[of "CHR ''*''"] by (auto simp: byte_def)
qed

lemma seq_num_show: "1 \<le> n \<Longrightarrow> n \<le> u32_max \<Longrightarrow> seq_num (show_nat n) count = n"
  by (simp add: seq_num_def show_nat_no unwrap_or_def)

lemma in_range_single: "1 \<le> n \<Longrightarrow> n \<le> u32_max \<Longrightarrow> in_range (show_nat n) uid count \<longleftrightarrow> uid = n"
  by (simp add: in_range_def in_range_part_def show_nat_no seq_num_show)

lemma in_range_interval:
  assumes "1 \<le> a" "a \<le> u32_max" "1 \<le> b" "b \<le> u32_max"
  shows "in_range (show_nat a @ CHR '':'' # show_nat b) uid count \<longleftrightarrow> min a b \<le> uid \<and> uid \<le> max a b"
proof -
  have "split_on (CHR '','') (show_nat a @ CHR '':'' # show_nat b) = [show_nat a @ CHR '':'' # show_nat b]"
    using show_nat_no by (intro split_on_single) auto
  with assms show ?thesis by (simp add: in_range_def in_range_part_def show_nat_no seq_num_show Let_def)
qed

subsection \<open>Listings and bodies\<close>

text \<open>The session has selected the mailbox \<open>b\<close>.\<close>

definition selects :: "imap_session \<Rightarrow> mailbox_row \<Rightarrow> bool" where
  "selects s b \<longleftrightarrow> is_state s = Selected \<and> is_user_id s = mb_user_id b \<and> is_selected s = mb_name b"

lemma listed_row:
  assumes "m \<in> set (metas v (mailbox_rows bid st))"
  obtains row t where "row \<in> set (messages st)" "m_mailbox_id row = bid" "m = row_to_meta row t v"
  using assms mailbox_rows_in by (fastforce simp: metas_def)

lemma rows_by_id:
  assumes "store_inv st" "row \<in> set (messages st)"
  shows "filter (\<lambda>m. m_mailbox_id m = m_mailbox_id row \<and> m_id m = m_id row) (messages st) = [row]"
proof -
  have d: "distinct (map m_id (messages st))" using assms(1) by (simp add: store_inv_def schema_inv_def messages_ok_def)
  have u: "x = row" if "x \<in> set (messages st)" "m_id x = m_id row" for x using distinct_map_eqD[OF d that(1) assms(2) that(2)] .
  let ?f = "filter (\<lambda>m. m_mailbox_id m = m_mailbox_id row \<and> m_id m = m_id row) (messages st)"
  have s: "set ?f = {row}" using u assms(2) unfolding set_filter by blast
  have "distinct ?f" using d by (simp add: distinct_map)
  then have "length ?f = Suc 0" using s distinct_card by fastforce
  then obtain y where "?f = [y]" by (auto simp: length_Suc_conv)
  with s show ?thesis by simp
qed

lemma fetch_listed:
  assumes "store_inv st" "\<not> poisoned st" "b \<in> set (mailboxes st)" "m \<in> set (metas (mb_uidvalidity b) (mailbox_rows (mb_id b) st))"
  shows "\<exists>row \<in> set (messages st). m_mailbox_id row = mb_id b \<and> m_id row = mm_id m \<and>
    bind_r (fst (fetch_message_in (mb_user_id b) (mb_name b) (mm_id m) st)) (Inr \<circ> msg_body) = Inr (m_body row)"
proof -
  obtain row t where r: "row \<in> set (messages st)" "m_mailbox_id row = mb_id b" "m = row_to_meta row t (mb_uidvalidity b)"
    by (rule listed_row[OF assms(4)])
  have i: "mm_id m = m_id row" using r(3) by (simp add: row_to_meta_def)
  obtain x t' js where j: "join_tx (transactions st) row = (x, t') # js" "x = row"
  proof (cases "join_tx (transactions st) row")
    case Nil
    then show thesis by (auto simp: join_tx_def split: list.splits)
  next
    case (Cons p ps)
    then show thesis using that[of "fst p" "snd p" ps] in_join_tx[of "fst p" "snd p" "transactions st" row]
      by (cases p) simp
  qed
  have "filter (\<lambda>m. m_mailbox_id m = mb_id b \<and> m_id m = m_id row) (messages st) = [row]"
    using rows_by_id[OF assms(1) r(1)] r(2) by simp
  with j assms(2) have "fst (fetch_message_in (mb_user_id b) (mb_name b) (m_id row) st) =
      Inr \<lparr>msg_meta = row_to_meta row t' (mb_uidvalidity b), msg_body = m_body row\<rparr>"
    using mailbox_named_eq[OF store_inv_boxes[OF assms(1)] assms(3,2)] by (simp add: fetch_message_in_def bind_op_def locked_def)
  with r(1,2) i show ?thesis by auto
qed

text \<open>The body stored for a listed message.\<close>

definition stored_body :: "store \<Rightarrow> message_meta \<Rightarrow> bytes" where
  "stored_body st m = (case find (\<lambda>row. m_id row = mm_id m) (messages st) of None \<Rightarrow> [] | Some row \<Rightarrow> m_body row)"

lemma fetch_stored_body:
  assumes "store_inv st" "\<not> poisoned st" "b \<in> set (mailboxes st)" "m \<in> set (metas (mb_uidvalidity b) (mailbox_rows (mb_id b) st))"
  shows "bind_r (fst (fetch_message_in (mb_user_id b) (mb_name b) (mm_id m) st)) (Inr \<circ> msg_body) = Inr (stored_body st m)"
proof -
  obtain row where r: "row \<in> set (messages st)" "m_id row = mm_id m"
      "bind_r (fst (fetch_message_in (mb_user_id b) (mb_name b) (mm_id m) st)) (Inr \<circ> msg_body) = Inr (m_body row)"
    using fetch_listed[OF assms] by blast
  have "distinct (map m_id (messages st))" using assms(1) by (simp add: store_inv_def schema_inv_def messages_ok_def)
  then have "find (\<lambda>row. m_id row = mm_id m) (messages st) = Some row"
    using r(1,2) distinct_map_eqD[of m_id "messages st"] by (intro find_unique) auto
  with r(3) show ?thesis by (simp add: stored_body_def)
qed

lemma fetch_loop_ok:
  "(\<And>m. m \<in> set ms \<Longrightarrow> get m = Inr (f m)) \<Longrightarrow> fetch_loop get show ms = Inr (concat (map (\<lambda>m. show m (f m)) ms))"
  by (induction ms) auto

definition body_request :: fetch_request where
  "body_request = fetch_default\<lparr>fr_flags := True, fr_uid := True, fr_size := True, fr_body := BodyFull\<rparr>"

lemma parse_body_request: "parse_fetch_items ''BODY[]'' = body_request"
  by code_simp

lemma fetch_response_literal:
  assumes "fr_body req = BodyFull"
  shows "\<exists>head. fetch_response X m req body ident =
    head @ '' {'' @ show_nat (length body) @ ''}'' @ EOL @ from_utf8_lossy body @ '')'' @ EOL"
proof -
  let ?head = "''* '' @ show_nat (unat (mm_uid m)) @ '' FETCH ('' @ join_str '' '' (fetch_parts X m req body ident) @ '' '' @ body_label BodyFull"
  show ?thesis by (rule exI[of _ ?head]) (simp add: assms fetch_response_def Let_def body_content_def untagged_def)
qed

subsection \<open>STORE over a mailbox\<close>

abbreviation listing :: "mailbox_row \<Rightarrow> store \<Rightarrow> message_meta list" where
  "listing b st \<equiv> metas (mb_uidvalidity b) (mailbox_rows (mb_id b) st)"

lemma listing_eq: "store_inv st \<Longrightarrow> \<not> poisoned st \<Longrightarrow> b \<in> set (mailboxes st) \<Longrightarrow>
   list_messages_in (mb_user_id b) (mb_name b) st = (Inr (listing b st), st)"
  by (rule list_messages_in_eq[OF store_inv_boxes])

lemma flag_update_idem: "flag_update k v (flag_update k v f) = flag_update k v f"
  by (simp add: flag_update_def flags_insert_def flags_remove_def or.assoc and.assoc)

lemma set_flags_listing:
  assumes "store_inv st" "\<not> poisoned st" "b \<in> set (mailboxes st)" "c \<in> set (mailboxes st)"
  shows "\<exists>st'. set_flags_in (mb_user_id b) (mb_name b) i k v st = (Inr (), st') \<and> store_inv st' \<and> \<not> poisoned st' \<and>
    mailboxes st' = mailboxes st \<and>
    listing c st' = map (\<lambda>m. if c = b \<and> mm_id m = i then m\<lparr>mm_flags := flag_update k v (mm_flags m)\<rparr> else m) (listing c st)"
proof -
  let ?ms = "map (\<lambda>m. if m_mailbox_id m = mb_id b \<and> m_id m = i
       then m\<lparr>m_flags := bits (flag_update k v (MessageFlags (m_flags m)))\<rparr> else m) (messages st)"
  let ?st = "st\<lparr>messages := ?ms\<rparr>"
  have e: "set_flags_in (mb_user_id b) (mb_name b) i k v st = (Inr (), ?st)" by (rule set_flags_in_eq[OF assms(1-3)])
  have inv: "store_inv ?st" using keepsD[OF keeps_set_flags_in(2) assms(1) e] .
  have "fst (list_messages_in (mb_user_id c) (mb_name c) ?st) = Inr (listing c ?st)"
    using listing_eq[OF inv, of c] assms(2,4) by simp
  then show ?thesis using list_after_set_flags[OF assms, of i k v] e inv assms(2) by auto
qed

lemma store_loop_listing:
  assumes "store_inv st" "\<not> poisoned st" "b \<in> set (mailboxes st)" "c \<in> set (mailboxes st)"
  shows "\<exists>out st'. store_loop (mb_user_id b) (mb_name b) k v xs st = (Inr out, st') \<and> store_inv st' \<and> \<not> poisoned st' \<and>
    mailboxes st' = mailboxes st \<and>
    listing c st' = map (\<lambda>m. if c = b \<and> mm_id m \<in> mm_id ` set xs then m\<lparr>mm_flags := flag_update k v (mm_flags m)\<rparr> else m) (listing c st)"
  using assms
proof (induction xs arbitrary: st)
  case (Cons x xs)
  obtain st1 where s1: "set_flags_in (mb_user_id b) (mb_name b) (mm_id x) k v st = (Inr (), st1)" "store_inv st1" "\<not> poisoned st1"
      "mailboxes st1 = mailboxes st"
      "listing c st1 = map (\<lambda>m. if c = b \<and> mm_id m = mm_id x then m\<lparr>mm_flags := flag_update k v (mm_flags m)\<rparr> else m) (listing c st)"
    using set_flags_listing[OF Cons.prems, of "mm_id x" k v] by blast
  obtain out st2 where s2: "store_loop (mb_user_id b) (mb_name b) k v xs st1 = (Inr out, st2)" "store_inv st2" "\<not> poisoned st2"
      "mailboxes st2 = mailboxes st1"
      "listing c st2 = map (\<lambda>m. if c = b \<and> mm_id m \<in> mm_id ` set xs then m\<lparr>mm_flags := flag_update k v (mm_flags m)\<rparr> else m) (listing c st1)"
    using Cons.IH[of st1] s1 Cons.prems by auto
  have "listing c st2 = map (\<lambda>m. if c = b \<and> mm_id m \<in> mm_id ` set (x # xs) then m\<lparr>mm_flags := flag_update k v (mm_flags m)\<rparr> else m) (listing c st)"
    unfolding s2(5) s1(5) map_map by (rule map_cong[OF refl]) (auto simp: flag_update_idem)
  with s1 s2 show ?case by simp
qed simp

lemma listed_uid:
  assumes "store_inv st" "b \<in> set (mailboxes st)" "m \<in> set (listing b st)" "m' \<in> set (listing b st)" "mm_id m = mm_id m'"
  shows "mm_uid m = mm_uid m'"
proof -
  obtain r t where r: "r \<in> set (messages st)" "m = row_to_meta r t (mb_uidvalidity b)" using listed_row[OF assms(3)] by metis
  obtain r' t' where r': "r' \<in> set (messages st)" "m' = row_to_meta r' t' (mb_uidvalidity b)" using listed_row[OF assms(4)] by metis
  have "distinct (map m_id (messages st))" using assms(1) by (simp add: store_inv_def schema_inv_def messages_ok_def)
  then have "r = r'" using distinct_map_eqD[OF _ r(1) r'(1)] r(2) r'(2) assms(5) by (simp add: row_to_meta_def)
  with r(2) r'(2) show ?thesis by (simp add: row_to_meta_def)
qed

definition store_command :: "rstr \<Rightarrow> rstr \<Rightarrow> parsed_command" where
  "store_command tag rng = \<lparr>pc_tag = tag, pc_name = ''STORE'', pc_args = [rng, ''+FLAGS'', ''('' @ [CHR 0x5C] @ ''Deleted)'']\<rparr>"

lemma store_command_args:
  "store_args (store_command tag rng) = Inr (rng, ''+FLAGS'', ''('' @ [CHR 0x5C] @ ''Deleted)'')"
  "parse_flags (''('' @ [CHR 0x5C] @ ''Deleted)'') = DELETED" "\<not> starts_with (trim_start ''+FLAGS'') ''-''" "DELETED \<noteq> 0"
  by (simp add: store_args_def store_command_def) code_simp+

lemma filter_map_upd:
  "(\<And>m. m \<in> set l \<Longrightarrow> sel m \<Longrightarrow> \<not> P (g m)) \<Longrightarrow> filter P (map (\<lambda>m. if sel m then g m else m) l) = filter (\<lambda>m. \<not> sel m \<and> P m) l"
  by (induction l) auto

lemma deleted_flag: "is_deleted (flag_update DELETED True f)"
proof -
  have "DELETED AND DELETED \<noteq> 0" by code_simp
  then show ?thesis by (simp only: is_deleted_def flag_update_def if_True flag_bits(1)) blast
qed

lemma cmd_store_listing:
  assumes "store_inv st" "\<not> poisoned st" "b \<in> set (mailboxes st)" "c \<in> set (mailboxes st)" "selects s b"
    and "cmd_store S tag (store_command tag rng) s st = (out, st')"
  shows "store_inv st' \<and> \<not> poisoned st' \<and> mailboxes st' = mailboxes st \<and>
    listing c st' = map (\<lambda>m. if c = b \<and> in_range rng (unat (mm_uid m)) (u32_of (length (listing b st)))
      then m\<lparr>mm_flags := flag_update DELETED True (mm_flags m)\<rparr> else m) (listing c st)"
proof -
  let ?sel = "\<lambda>m. in_range rng (unat (mm_uid m)) (u32_of (length (listing b st)))"
  have s: "is_state s = Selected" "is_user_id s = mb_user_id b" "is_selected s = mb_name b" using assms(5) by (simp_all add: selects_def)
  obtain o' st1 where l: "store_loop (mb_user_id b) (mb_name b) DELETED True (filter ?sel (listing b st)) st = (Inr o', st1)"
      "store_inv st1" "\<not> poisoned st1" "mailboxes st1 = mailboxes st"
      "listing c st1 = map (\<lambda>m. if c = b \<and> mm_id m \<in> mm_id ` set (filter ?sel (listing b st))
         then m\<lparr>mm_flags := flag_update DELETED True (mm_flags m)\<rparr> else m) (listing c st)"
    using store_loop_listing[OF assms(1-4), of DELETED True "filter ?sel (listing b st)"] by blast
  have "st' = st1"
    using assms(6) s l(1) listing_eq[OF assms(1-3)] store_command_args by (simp add: cmd_store_def Let_def)
  moreover have "mm_id m \<in> mm_id ` set (filter ?sel (listing b st)) \<longleftrightarrow> ?sel m" if mm: "m \<in> set (listing b st)" for m
  proof
    assume "mm_id m \<in> mm_id ` set (filter ?sel (listing b st))"
    then obtain m' where m': "mm_id m = mm_id m'" "m' \<in> set (listing b st)" "?sel m'" by (elim imageE) simp
    with listed_uid[OF assms(1,3) mm m'(2,1)] show "?sel m" by simp
  qed (use mm in simp)
  then have "listing c st1 = map (\<lambda>m. if c = b \<and> ?sel m then m\<lparr>mm_flags := flag_update DELETED True (mm_flags m)\<rparr> else m) (listing c st)"
    unfolding l(5) by (intro map_cong refl if_cong) auto
  ultimately show ?thesis using l(2-4) by simp
qed

lemma imap_read_conversation:
  assumes "list_all plain_command cmds" "concat reads = concat (map imap_bytes cmds)" "reads \<noteq> []"
    and "imap_converse (imap_handle E K S X) (map imap_parsed cmds) (new_session v) st = (out, s, st')"
  shows "serve_reads (imap_handle E K S X) reads (ConnRunning, conn_start v st) =
    Some (ConnRunning, \<lparr>ic_session = s, ic_reader = reader_default, ic_store = st',
      ic_out = imap_greeting (sr_hostname v) @ out\<rparr>)"
proof -
  have fits: "list_all imap_fits cmds" using assms(1) by (auto simp: list_all_iff plain_command_def)
  have "feed_loop (reader_default\<lparr>cr_buf := []\<rparr>) (map imap_parsed cmds) = Some (Inr (map imap_parsed cmds), reader_default)"
    by (simp add: feed_loop_idle reader_default_def)
  then have f: "feed (concat reads) reader_default = Some (Inr (map imap_parsed cmds), reader_default)"
    using feed_loop_commands[OF fits, of "[]" "[]"] by (simp add: feed_def assms(2)) (simp add: reader_default_def)
  have "\<not> needs_continuation reader_default" by (simp add: needs_continuation_def reader_default_def)
  moreover have "\<forall>cmd \<in> set (map imap_parsed cmds). pc_name cmd \<notin> {''IDLE'', ''LOGOUT''}"
    using assms(1) by (auto simp: list_all_iff plain_command_def)
  ultimately show ?thesis
    using serve_reads_converse[of reads "conn_start v st" "map imap_parsed cmds" reader_default "imap_handle E K S X" out s st'] f assms(3,4)
    by (simp add: conn_start_def)
qed

subsection \<open>Concrete values\<close>

definition demo_imap :: imap_ext where
  "demo_imap = \<lparr>ix_format_internaldate = (\<lambda>_. None), ix_format_rfc2822 = (\<lambda>_. None), ix_zsmtp_group = None\<rparr>"

definition demo_box :: mailbox_row where
  "demo_box = bob_inbox\<lparr>mb_uidnext := 3\<rparr>"

definition demo_selected :: "rstr \<Rightarrow> imap_session" where
  "demo_selected name = \<lparr>is_state = Selected, is_username = ''bob'', is_user_id = 1, is_auth_mode = Database, is_domain = ''a'', is_selected = name\<rparr>"

lemma demo_mail: "store_inv flagged_store" "\<not> poisoned flagged_store" "demo_box \<in> set (mailboxes flagged_store)"
  "selects (demo_selected ''INBOX'') demo_box" "mb_user_id demo_box = 1" "mb_name demo_box = ''INBOX''"
proof -
  have "store_reach flagged_store" unfolding flagged_store_def by (intro store_reach.intros bob_reach)
  then show "store_inv flagged_store" by (rule store_reach_inv)
  show "\<not> poisoned flagged_store" "demo_box \<in> set (mailboxes flagged_store)" unfolding demo_box_def by code_simp+
  show "selects (demo_selected ''INBOX'') demo_box" "mb_user_id demo_box = 1" "mb_name demo_box = ''INBOX''"
    by (simp_all add: selects_def demo_selected_def demo_box_def bob_inbox_def)
qed

lemma demo_command: "list_all plain_command [(''A1'', ''LOGIN'', [''bob'', ''pw''])]"
  by (simp add: plain_command_def imap_fits_def imap_parsed_def imap_atom_def token_def ascii_ws_single byte_def
      to_ascii_uppercase_def upper_char_def)

subsection \<open>Claims\<close>

text \<open>
  C9. Isolation of users over a whole connection, whatever the peer sends and however the reads and
  events interleave: the store keeps its invariant; as long as the peer has not logged in nothing
  changes; once it has, the credentials it gave were accepted for the user the session names, and
  everything the connection did to the store concerns the mail of that user alone: no message was
  added, no body, subject or UID was altered, only flags were changed and deleted messages removed.
\<close>

theorem imap_connection_isolation:
  assumes "imap_run (imap_handle E K S X) (ConnRunning, conn_start v st) (m, c)" "store_inv st"
  shows "store_inv (ic_store c) \<and> own_mail_only (is_user_id (ic_session c)) st (ic_store c) \<and>
    is_selected (ic_session c) \<in> set MAILBOXES \<and>
    (is_state (ic_session c) = NotAuthenticated \<longrightarrow> ic_store c = st) \<and>
    (is_state (ic_session c) \<noteq> NotAuthenticated \<longrightarrow>
      (\<exists>u p user. credentials_ok E K S X (new_session v) u p user st \<and>
        is_user_id (ic_session c) = user_id user \<and> is_username (ic_session c) = user_name user))"
proof -
  have "accepted_login E K S X (new_session v) st (ic_session c) (ic_store c)"
    using imap.run_R[OF assms(1)] by (simp add: conn_start_def)
  with assms(2) show ?thesis
    by (auto simp: accepted_login_def session_step_def new_session_def MAILBOXES_def)
qed

theorem imap_connection_isolation_witness:
  "\<exists>m c. imap_run (imap_handle demo_ext demo_crypto demo_secure demo_imap) (ConnRunning, conn_start (imap_server_new ''h'') bob_store) (m, c) \<and>
     c \<noteq> conn_start (imap_server_new ''h'') bob_store \<and> store_inv (ic_store c) \<and>
     own_mail_only (is_user_id (ic_session c)) bob_store (ic_store c)"
proof -
  let ?h = "imap_handle demo_ext demo_crypto demo_secure demo_imap" let ?c = "conn_start (imap_server_new ''h'') bob_store"
  let ?cmds = "[(''A1'', ''LOGIN'', [''bob'', ''pw''])]" let ?data = "concat (map imap_bytes ?cmds)"
  obtain out s st where k: "imap_converse ?h (map imap_parsed ?cmds) (new_session (imap_server_new ''h'')) bob_store = (out, s, st)"
    by (metis prod.exhaust)
  let ?d = "\<lparr>ic_session = s, ic_reader = reader_default, ic_store = st, ic_out = imap_greeting ''h'' @ out\<rparr>"
  have "serve_reads ?h [?data] (ConnRunning, ?c) = Some (ConnRunning, ?d)"
    using imap_read_conversation[OF demo_command _ _ k, of "[?data]"] by (simp add: imap_server_new_def)
  then have "on_read ?h ?data ?c = Some (ConnRunning, ?d)" by (auto split: option.splits)
  moreover have "?data \<noteq> []" "length ?data \<le> 4096" by (simp_all add: imap_bytes_def imap_line_def quote_def EOL_def)
  ultimately have r: "imap_run ?h (ConnRunning, ?c) (ConnRunning, ?d)" by (intro run_step[OF run_refl] step_read)
  have "out \<noteq> []" using k by (auto simp: imap_parsed_def imap_handle_def Let_def cmd_auth_def imap_login_def tagged_def
        to_ascii_uppercase_def upper_char_def byte_def split: prod.splits option.splits sum.splits if_splits list.splits)
  then have "?d \<noteq> ?c" by (simp add: conn_start_def imap_server_new_def)
  moreover have "store_inv (ic_store ?d) \<and> own_mail_only (is_user_id (ic_session ?d)) bob_store (ic_store ?d)"
    using imap_connection_isolation[OF r store_reach_inv[OF bob_reach]] by blast
  ultimately show ?thesis using r by blast
qed





text \<open>
  C38. STORE with \<open>+FLAGS (\Deleted)\<close> followed by EXPUNGE removes from the selected mailbox exactly the
  messages whose UID is in the given set and those that were flagged before, keeps the others in order,
  and leaves every other mailbox of every user as it was. The set \<open>a:b\<close> is the interval between the two
  numbers in either order.
\<close>

theorem store_expunge_exact:
  assumes "store_inv st" "\<not> poisoned st" "b \<in> set (mailboxes st)" "c \<in> set (mailboxes st)" "selects s b"
    and "cmd_store S tag (store_command tag rng) s st = (out1, st1)" "cmd_expunge S tag' s st1 = (out2, st2)"
  shows "fst (list_messages_in (mb_user_id c) (mb_name c) st2) =
      Inr (filter (\<lambda>m. c = b \<longrightarrow> \<not> in_range rng (unat (mm_uid m)) (u32_of (length (listing b st))) \<and> \<not> is_deleted (mm_flags m))
        (listing c st)) \<and>
    (\<forall>x y uid n. 1 \<le> x \<and> x \<le> u32_max \<and> 1 \<le> y \<and> y \<le> u32_max \<longrightarrow>
      (in_range (show_nat x @ CHR '':'' # show_nat y) uid n \<longleftrightarrow> min x y \<le> uid \<and> uid \<le> max x y))"
proof -
  let ?sel = "\<lambda>m. in_range rng (unat (mm_uid m)) (u32_of (length (listing b st)))"
  have st1: "store_inv st1" "\<not> poisoned st1" "mailboxes st1 = mailboxes st"
    and l: "listing c st1 = map (\<lambda>m. if c = b \<and> ?sel m then m\<lparr>mm_flags := flag_update DELETED True (mm_flags m)\<rparr> else m) (listing c st)"
    using cmd_store_listing[OF assms(1-6)] by blast+
  have e: "st2 = snd (expunge_in (mb_user_id b) (mb_name b) st1)"
    using assms(5,7) by (auto simp: cmd_expunge_def selects_def split: sum.splits prod.splits)
  have "fst (list_messages_in (mb_user_id c) (mb_name c) st2) =
      Inr (filter (\<lambda>m. c = b \<longrightarrow> \<not> is_deleted (mm_flags m)) (listing c st1))"
    unfolding e using list_after_expunge[OF st1(1,2), of b c] st1(3) assms(3,4) by simp
  also have "filter (\<lambda>m. c = b \<longrightarrow> \<not> is_deleted (mm_flags m)) (listing c st1) =
      filter (\<lambda>m. c = b \<longrightarrow> \<not> ?sel m \<and> \<not> is_deleted (mm_flags m)) (listing c st)"
    unfolding l by (cases "c = b") (simp_all add: filter_map_upd deleted_flag)
  finally show ?thesis using in_range_interval by blast
qed

theorem store_expunge_exact_witness:
  "\<exists>out1 st1 out2 st2. cmd_store demo_secure ''A1'' (store_command ''A1'' ''2'') (demo_selected ''INBOX'') flagged_store = (out1, st1) \<and>
     cmd_expunge demo_secure ''A2'' (demo_selected ''INBOX'') st1 = (out2, st2) \<and>
     fst (list_messages_in 1 ''INBOX'' st2) =
       Inr (filter (\<lambda>m. \<not> in_range ''2'' (unat (mm_uid m)) (u32_of (length (listing demo_box flagged_store))) \<and> \<not> is_deleted (mm_flags m))
         (listing demo_box flagged_store))"
proof -
  obtain out1 st1 where a: "cmd_store demo_secure ''A1'' (store_command ''A1'' ''2'') (demo_selected ''INBOX'') flagged_store = (out1, st1)"
    by fastforce
  obtain out2 st2 where e: "cmd_expunge demo_secure ''A2'' (demo_selected ''INBOX'') st1 = (out2, st2)" by fastforce
  from store_expunge_exact[OF demo_mail(1,2,3,3,4) a e] a e demo_mail(5,6) show ?thesis by auto
qed





text \<open>
  CLOSE does not look at the selected mailbox: with Sent selected it expunges the INBOX of the user
  instead, so that messages flagged \<open>\Deleted\<close> in the INBOX are lost although another mailbox was
  open, and those flagged in Sent stay.
\<close>

theorem close_expunges_inbox:
  assumes "store_inv st" "\<not> poisoned st" "b \<in> set (mailboxes st)" "c \<in> set (mailboxes st)"
    and "mb_name b = INBOX" "mb_name c = SENT" "mb_user_id c = mb_user_id b" "selects s c"
    and "cmd_close S tag s st = (out, s', st')"
  shows "out = tagged tag ImapOk ''CLOSE completed'' \<and>
    fst (list_messages_in (mb_user_id b) INBOX st') = Inr (filter (\<lambda>m. \<not> is_deleted (mm_flags m)) (listing b st)) \<and>
    fst (list_messages_in (mb_user_id b) SENT st') = Inr (listing c st)"
proof -
  have ne: "c \<noteq> b" using assms(5,6) by (auto simp: INBOX_def SENT_def)
  have e: "expunge_in (mb_user_id b) (mb_name b) st = (Inr u, x) \<Longrightarrow> out = tagged tag ImapOk ''CLOSE completed'' \<and> st' = x" for u x
    using assms(5,7-9) by (simp add: cmd_close_def selects_def expunge_def)
  have x: "out = tagged tag ImapOk ''CLOSE completed''" "st' = snd (expunge_in (mb_user_id b) (mb_name b) st)"
    using e[OF expunge_in_eq[OF assms(1-3)]] expunge_in_eq[OF assms(1-3)] by auto
  show ?thesis
    using list_after_expunge[OF assms(1-3) assms(3)] list_after_expunge[OF assms(1-4)] x ne assms(5-7) by simp
qed

definition demo_sent :: mailbox_row where
  "demo_sent = \<lparr>mb_id = 2, mb_user_id = 1, mb_name = ''Sent'', mb_uidvalidity = 1000, mb_uidnext = 1\<rparr>"

theorem close_expunges_inbox_witness:
  "\<exists>out s' st'. cmd_close demo_secure ''A1'' (demo_selected ''Sent'') flagged_store = (out, s', st') \<and>
     map_sum id length (fst (list_messages_in 1 INBOX flagged_store)) = Inr 2 \<and>
     fst (list_messages_in 1 INBOX st') = Inr (filter (\<lambda>m. \<not> is_deleted (mm_flags m)) (listing demo_box flagged_store))"
proof -
  obtain out s' st' where c: "cmd_close demo_secure ''A1'' (demo_selected ''Sent'') flagged_store = (out, s', st')" by (metis prod.exhaust)
  have m: "demo_sent \<in> set (mailboxes flagged_store)" unfolding demo_sent_def by code_simp
  have l: "map_sum id length (fst (list_messages_in 1 INBOX flagged_store)) = Inr 2" by code_simp
  have sel: "selects (demo_selected ''Sent'') demo_sent" by (simp add: selects_def demo_selected_def demo_sent_def)
  have n: "mb_name demo_box = INBOX" "mb_name demo_sent = SENT" "mb_user_id demo_sent = mb_user_id demo_box"
    by (simp_all add: demo_box_def demo_sent_def bob_inbox_def INBOX_def SENT_def)
  from close_expunges_inbox[OF demo_mail(1,2,3) m n sel c] c l demo_mail(5) show ?thesis by auto
qed

text \<open>
  The announced length of a FETCH literal is that of the stored bytes, but the bytes written are
  their lossy decoding: for a body that is not UTF-8 (an opaque sealed payload, say) the client receives
  something other than what is stored, and not even the announced number of bytes: a one-byte body
  is announced as \<open>{1}\<close> and followed by three bytes.
\<close>

theorem fetch_literal_not_bytes:
  assumes "fr_body req = BodyFull"
  shows "(\<exists>head. fetch_response X m req body ident =
      head @ '' {'' @ show_nat (length body) @ ''}'' @ EOL @ from_utf8_lossy body @ '')'' @ EOL) \<and>
    (from_utf8_lossy body = body \<longleftrightarrow> utf8_valid body) \<and>
    (body = [CHR 0xFF] \<longrightarrow> show_nat (length body) = ''1'' \<and> length (from_utf8_lossy body) = 3)"
proof (intro conjI impI)
  show "\<exists>head. fetch_response X m req body ident =
      head @ '' {'' @ show_nat (length body) @ ''}'' @ EOL @ from_utf8_lossy body @ '')'' @ EOL"
    using fetch_response_literal[OF assms] .
  show "from_utf8_lossy body = body \<longleftrightarrow> utf8_valid body"
    using from_utf8_lossy_is_valid[of body] from_utf8_lossy_valid[of body] by metis
  show "show_nat (length body) = ''1''" if "body = [CHR 0xFF]" unfolding that by code_simp
  show "length (from_utf8_lossy body) = 3" if "body = [CHR 0xFF]" unfolding that by code_simp
qed

definition demo_meta :: message_meta where
  "demo_meta = \<lparr>mm_id = 1, mm_message_id = ''m'', mm_uid = 1, mm_uidvalidity = 1, mm_internaldate = 0, mm_flags = flags_default,
     mm_subject = [], mm_size = 1, mm_sender = [], mm_trust_state = [], mm_tx_state = None, mm_tx_id = None\<rparr>"

theorem fetch_literal_not_bytes_witness:
  "(\<exists>head. fetch_response demo_imap demo_meta body_request [CHR 0xFF] \<lparr>mi_from = ''x@y'', mi_to = ''bob@a''\<rparr> =
     head @ '' {'' @ show_nat 1 @ ''}'' @ EOL @ from_utf8_lossy [CHR 0xFF] @ '')'' @ EOL) \<and> length (from_utf8_lossy [CHR 0xFF]) = 3"
proof -
  have r: "fr_body body_request = BodyFull" "length [CHR 0xFF] = 1" by (simp_all add: body_request_def)
  show ?thesis
    using fetch_literal_not_bytes[OF r(1), of demo_imap demo_meta "[CHR 0xFF]" "\<lparr>mi_from = ''x@y'', mi_to = ''bob@a''\<rparr>"]
    unfolding r(2) by blast
qed

end
