(* ===== verification/Config.thy ===== *)
theory Config
  imports Template Framing Mailstore_Types "HOL-Library.Finite_Map"
begin

text \<open>
  The daemon's configuration (\<^verbatim>\<open>talk-core/src/config.rs\<close>) and the commands that inspect and edit its
  file (\<^verbatim>\<open>talk-ctl/src/config_cmd.rs\<close>). Reading and printing TOML (crate \<^verbatim>\<open>toml\<close>, with the readers
  \<^verbatim>\<open>serde\<close> derives from the structures), the quoted form of a string (\<^verbatim>\<open>{:?}\<close>) and the text of a failed
  read are a record of functions; a table is a finite map, its printed order being
  left to the printer. Writing a file succeeds.
\<close>

subsection \<open>Configuration\<close>

datatype cfg_auth_mode = CfgDatabase | CfgLocalAuth

definition auth_mode_deserialize :: "rstr \<Rightarrow> (rstr, cfg_auth_mode) result" where
  "auth_mode_deserialize s =
     (let l = to_ascii_lowercase s in
      if l = ''database'' then Inr CfgDatabase
      else if l = ''localauth'' then Inr CfgLocalAuth
      else Inl ''auth mode must be database or localauth'')"

record cfg_general =
  gn_data_dir :: rstr
  gn_domain :: rstr
  gn_log_level :: rstr

record cfg_network =
  nw_indexer_url :: rstr
  nw_send_endpoint :: rstr

record cfg_sockets =
  sc_secure_mailbox :: rstr
  sc_zsmtp :: rstr
  sc_zsmtp_listen :: rstr
  sc_imap_listen :: rstr

record cfg_tls =
  tl_cert :: rstr
  tl_key :: rstr

record cfg_mailbox =
  mx_encrypt_db :: bool
  mx_passphrase :: rstr
  mx_wallet_dir :: rstr
  mx_template_path :: "rstr option"

record config =
  cf_general :: cfg_general
  cf_network :: cfg_network
  cf_sockets :: cfg_sockets
  cf_tls :: cfg_tls
  cf_mailbox :: cfg_mailbox
  cf_auth :: cfg_auth_mode

definition default_log_level :: rstr where "default_log_level = ''info''"

definition default_true :: bool where "default_true = True"

datatype toml =
    TomlString rstr
  | TomlInteger int
  | TomlFloat rstr
  | TomlBoolean bool
  | TomlDatetime rstr
  | TomlArray "toml list"
  | TomlTable "(rstr, toml) fmap"

record toml_ext =
  tm_value :: "rstr \<Rightarrow> (rstr, toml) result"
  tm_config :: "rstr \<Rightarrow> (rstr, config) result"
  tm_pretty :: "toml \<Rightarrow> (rstr, rstr) result"
  tm_show :: "toml \<Rightarrow> rstr"
  tm_debug :: "rstr \<Rightarrow> rstr"
  tm_read_text :: "files \<Rightarrow> rstr \<Rightarrow> rstr"

datatype config_error = CfgRead rstr rstr | CfgParse rstr rstr | InvalidDomain rstr

definition config_validate :: "config \<Rightarrow> (config_error, unit) result" where
  "config_validate cfg =
     (let d = trim (gn_domain (cf_general cfg)) in
      if d = [] \<or> list_ex is_whitespace (chars d) then Inl (InvalidDomain (gn_domain (cf_general cfg))) else Inr ())"

definition config_parse :: "toml_ext \<Rightarrow> rstr \<Rightarrow> (config_error, config) result" where
  "config_parse X raw =
     (case tm_config X raw of
        Inl e \<Rightarrow> Inl (CfgParse [] e)
      | Inr cfg \<Rightarrow> bind_r (config_validate cfg) (\<lambda>_. Inr cfg))"

text \<open>\<^verbatim>\<open>fs::read_to_string\<close> fails on a missing file and on one that is not UTF-8.\<close>

definition read_to_string :: "files \<Rightarrow> rstr \<Rightarrow> rstr option" where
  "read_to_string fs path = (case fs path of None \<Rightarrow> None | Some raw \<Rightarrow> from_utf8 raw)"

definition config_load :: "toml_ext \<Rightarrow> files \<Rightarrow> rstr \<Rightarrow> (config_error, config) result" where
  "config_load X fs path =
     bind_r (ok_or (CfgRead path (tm_read_text X fs path)) (read_to_string fs path)) (\<lambda>raw.
       case tm_config X raw of
         Inl e \<Rightarrow> Inl (CfgParse path e)
       | Inr cfg \<Rightarrow> bind_r (config_validate cfg) (\<lambda>_. Inr cfg))"

subsection \<open>Paths into a document\<close>

definition as_table :: "toml \<Rightarrow> (rstr, toml) fmap option" where
  "as_table v = (case v of TomlTable t \<Rightarrow> Some t | _ \<Rightarrow> None)"

text \<open>The lookup loop; its errors are texts, as in the code.\<close>

definition not_a_table :: "rstr \<Rightarrow> rstr \<Rightarrow> rstr" where
  "not_a_table path p = path @ '': '' @ [CHR 0x27] @ p @ [CHR 0x27] @ '' is not a table''"

fun get_parts :: "rstr \<Rightarrow> rstr list \<Rightarrow> toml \<Rightarrow> (rstr, toml) result" where
  "get_parts path [] cur = Inr cur"
| "get_parts path (p # ps) cur =
     bind_r (ok_or (not_a_table path p) (as_table cur)) (\<lambda>t.
     bind_r (ok_or (''no such key: '' @ path) (fmlookup t p)) (get_parts path ps))"

definition get_path :: "toml \<Rightarrow> rstr \<Rightarrow> (rstr, toml) result" where
  "get_path root path = get_parts path (split_on (CHR ''.'') path) root"

text \<open>A mutable reference to a value of the document: the value and the document with another in its place.\<close>

fun get_parts_mut :: "rstr \<Rightarrow> rstr list \<Rightarrow> toml \<Rightarrow> (rstr, toml \<times> (toml \<Rightarrow> toml)) result" where
  "get_parts_mut path [] cur = Inr (cur, id)"
| "get_parts_mut path (p # ps) cur =
     bind_r (ok_or (not_a_table path p) (as_table cur)) (\<lambda>t.
     bind_r (ok_or (''no such key: '' @ path) (fmlookup t p)) (\<lambda>x.
     bind_r (get_parts_mut path ps x) (\<lambda>(v, put). Inr (v, \<lambda>y. TomlTable (fmupd p (put y) t)))))"

definition get_path_mut :: "toml \<Rightarrow> rstr \<Rightarrow> (rstr, toml \<times> (toml \<Rightarrow> toml)) result" where
  "get_path_mut root path = get_parts_mut path (split_on (CHR ''.'') path) root"

definition redact :: "toml \<Rightarrow> rstr \<Rightarrow> toml" where
  "redact root dotted = (case get_path_mut root dotted of Inr (_, put) \<Rightarrow> put (TomlString ''***'') | Inl _ \<Rightarrow> root)"

text \<open>The update loop: every key of the path must be there already.\<close>

fun set_parts :: "rstr \<Rightarrow> rstr list \<Rightarrow> toml \<Rightarrow> toml \<Rightarrow> (rstr, toml) result" where
  "set_parts path [] v cur = Inl ''invalid path''"
| "set_parts path (p # ps) v cur =
     bind_r (ok_or (not_a_table path p) (as_table cur)) (\<lambda>t.
     bind_r (ok_or (''unknown key: '' @ path) (fmlookup t p)) (\<lambda>x.
       if ps = [] then Inr (TomlTable (fmupd p v t))
       else bind_r (set_parts path ps v x) (\<lambda>x'. Inr (TomlTable (fmupd p x' t)))))"

definition set_path :: "toml \<Rightarrow> rstr \<Rightarrow> toml \<Rightarrow> (rstr, toml) result" where
  "set_path root path v = set_parts path (split_on (CHR ''.'') path) v root"

definition parse_value :: "toml_ext \<Rightarrow> rstr \<Rightarrow> toml" where
  "parse_value X s =
     (if trim s = [] then TomlString []
      else case tm_value X s of Inr v \<Rightarrow> v | Inl _ \<Rightarrow> TomlString s)"

subsection \<open>The commands\<close>

datatype ctl_error =
    CtlConfig config_error
  | CtlStore store_error
  | CtlIo io_error
  | CtlToml rstr
  | CtlProtocol framing_error
  | CtlMessage rstr

definition show_config_error :: "toml_ext \<Rightarrow> config_error \<Rightarrow> rstr" where
  "show_config_error X e =
     (case e of
        CfgRead path m \<Rightarrow> ''failed to read config file '' @ path @ '': '' @ m
      | CfgParse path m \<Rightarrow> ''failed to parse config file '' @ path @ '': '' @ m
      | InvalidDomain d \<Rightarrow> ''invalid domain '' @ tm_debug X d @ '': must be a non-empty string without whitespace'')"

datatype config_action = ConfigShow | ConfigGet rstr | ConfigSet rstr rstr | ConfigValidate

definition resolve_path :: "rstr option \<Rightarrow> rstr" where
  "resolve_path p = (case p of Some path \<Rightarrow> path | None \<Rightarrow> ''config.toml'')"

definition read_toml :: "toml_ext \<Rightarrow> files \<Rightarrow> rstr \<Rightarrow> (ctl_error, toml) result" where
  "read_toml X fs path =
     bind_r (ok_or (CtlMessage (''cannot read config '' @ path @ '': '' @ tm_read_text X fs path)) (read_to_string fs path)) (\<lambda>raw.
       case tm_value X raw of Inl e \<Rightarrow> Inl (CtlMessage (''malformed config: '' @ e)) | Inr v \<Rightarrow> Inr v)"

definition to_message :: "(rstr, 'a) result \<Rightarrow> (ctl_error, 'a) result" where
  "to_message r = (case r of Inl e \<Rightarrow> Inl (CtlMessage e) | Inr a \<Rightarrow> Inr a)"

definition config_set :: "toml_ext \<Rightarrow> rstr \<Rightarrow> rstr \<Rightarrow> rstr \<Rightarrow> files \<Rightarrow> (ctl_error, rstr) result" where
  "config_set X path key val fs =
     bind_r (read_toml X fs path) (\<lambda>root.
     bind_r (to_message (set_path root key (parse_value X val))) (\<lambda>root'.
     bind_r (to_message (tm_pretty X root')) (\<lambda>out.
       case config_parse X out of
         Inl e \<Rightarrow> Inl (CtlMessage (''refusing to write invalid config: '' @ show_config_error X e))
       | Inr _ \<Rightarrow> Inr out)))"

text \<open>One command: what it prints, and the files it leaves.\<close>

definition config_run :: "toml_ext \<Rightarrow> rstr option \<Rightarrow> config_action \<Rightarrow> files \<Rightarrow> (ctl_error, rstr) result \<times> files" where
  "config_run X config_path action fs =
     (let path = resolve_path config_path in
      case action of
        ConfigShow \<Rightarrow>
          (bind_r (read_toml X fs path) (\<lambda>v. to_message (tm_pretty X (redact v ''mailbox.passphrase''))), fs)
      | ConfigGet key \<Rightarrow>
          (bind_r (read_toml X fs path) (\<lambda>v. bind_r (to_message (get_path v key)) (\<lambda>x. Inr (tm_show X x))), fs)
      | ConfigSet key val \<Rightarrow>
          (case config_set X path key val fs of
             Inl e \<Rightarrow> (Inl e, fs)
           | Inr out \<Rightarrow> (Inr (''ok: '' @ key @ '' = '' @ val @ '' ('' @ path @ '')''), fs(path \<mapsto> out)))
      | ConfigValidate \<Rightarrow>
          (case config_load X fs path of
             Inl e \<Rightarrow> (Inl (CtlConfig e), fs)
           | Inr _ \<Rightarrow> (Inr (''ok: '' @ path @ '' is valid''), fs)))"

subsection \<open>Lookup after update\<close>

lemma fmupd_Some: "fmlookup t p = Some x \<Longrightarrow> fmlookup (fmupd q v t) p = (if p = q then Some v else Some x)"
  by simp

text \<open>Two paths are apart when neither leads through the other.\<close>

definition apart :: "rstr list \<Rightarrow> rstr list \<Rightarrow> bool" where
  "apart ps qs \<longleftrightarrow> take (length qs) ps \<noteq> qs \<and> take (length ps) qs \<noteq> ps"

lemma apart_Cons: "apart (p # ps) (q # qs) \<longleftrightarrow> p \<noteq> q \<or> apart ps qs"
  by (auto simp: apart_def)

lemma as_table_Some [simp]: "as_table c = Some t \<longleftrightarrow> c = TomlTable t"
  by (cases c) (auto simp: as_table_def)

lemma as_table_Table [simp]: "as_table (TomlTable t) = Some t"
  by (simp add: as_table_def)

lemma set_parts_get: "set_parts path ps v c = Inr c' \<Longrightarrow> get_parts path' ps c' = Inr v"
proof (induction path ps v c arbitrary: c' rule: set_parts.induct)
  case (2 path p ps v cur)
  then show ?case by (cases "ps = []") (auto simp: bind_r_Inr_iff)
qed simp

lemma set_parts_apart: "set_parts path ps v c = Inr c' \<Longrightarrow> apart ps qs \<Longrightarrow> get_parts path' qs c' = get_parts path' qs c"
proof (induction path ps v c arbitrary: c' qs rule: set_parts.induct)
  case (2 path p ps v cur)
  then obtain q qs' where q: "qs = q # qs'" by (cases qs) (auto simp: apart_def)
  with 2 show ?case by (cases "ps = []") (auto simp: bind_r_Inr_iff apart_Cons apart_def[of "[]"])
qed (simp add: apart_def)

lemma get_parts_mut_put:
  "ps \<noteq> [] \<Longrightarrow> get_parts_mut path ps c = Inr (x, put) \<Longrightarrow> get_parts path ps c = Inr x \<and> set_parts path ps v c = Inr (put v)"
proof (induction path ps c arbitrary: x put rule: get_parts_mut.induct)
  case (2 path p ps cur)
  then show ?case by (cases "ps = []") (auto simp: bind_r_Inr_iff)
qed simp

text \<open>What is documented of the TOML crate: a printed document is UTF-8 and reads back as the same value;
  the text given to \<^verbatim>\<open>toml::from_str\<close> is a document, so a table; and a reader of a boolean field refuses a string.\<close>

definition toml_ok :: "toml_ext \<Rightarrow> bool" where
  "toml_ok X \<longleftrightarrow> (\<forall>t s. tm_pretty X t = Inr s \<longrightarrow> utf8_valid s \<and> tm_value X s = Inr t)"

definition toml_documents :: "toml_ext \<Rightarrow> bool" where
  "toml_documents X \<longleftrightarrow>
     (\<forall>s v. tm_value X s = Inr v \<longrightarrow> as_table v \<noteq> None) \<and>
     (\<forall>s v x cfg. tm_value X s = Inr v \<longrightarrow> get_path v ''mailbox.encrypt_db'' = Inr x \<longrightarrow>
        tm_config X s = Inr cfg \<longrightarrow> (\<exists>b. x = TomlBoolean b))"

lemma to_message_Inr_iff [simp]: "to_message r = Inr a \<longleftrightarrow> r = Inr a"
  by (cases r) (simp_all add: to_message_def)

lemma set_path_get: "set_path root key v = Inr root' \<Longrightarrow> get_path root' key = Inr v"
  unfolding set_path_def get_path_def by (rule set_parts_get)

lemma set_path_apart:
  "set_path root key v = Inr root' \<Longrightarrow> apart (split_on (CHR ''.'') key) (split_on (CHR ''.'') q) \<Longrightarrow>
   get_path root' q = get_path root q"
  unfolding set_path_def get_path_def by (rule set_parts_apart)

lemma config_set_ok:
  assumes "config_set X path key val fs = Inr out" "toml_ok X"
  obtains root root' cfg where "read_toml X fs path = Inr root" "set_path root key (parse_value X val) = Inr root'"
    "tm_pretty X root' = Inr out" "utf8_valid out" "tm_value X out = Inr root'" "config_parse X out = Inr cfg"
proof -
  obtain root root' out' where *: "read_toml X fs path = Inr root" "set_path root key (parse_value X val) = Inr root'"
      "tm_pretty X root' = Inr out'"
      "(case config_parse X out' of
          Inl e \<Rightarrow> Inl (CtlMessage (''refusing to write invalid config: '' @ show_config_error X e)) | Inr _ \<Rightarrow> Inr out') = Inr out"
    using assms(1) by (auto simp: config_set_def bind_r_Inr_iff)
  obtain cfg where "config_parse X out' = Inr cfg" "out' = out" using *(4) by (cases "config_parse X out'") auto
  moreover have "utf8_valid out'" "tm_value X out' = Inr root'" using assms(2) *(3) by (auto simp: toml_ok_def)
  ultimately show thesis using that *(1-3) by blast
qed

lemma read_toml_written: "utf8_valid out \<Longrightarrow> read_toml X (fs(path \<mapsto> out)) path =
    (case tm_value X out of Inl e \<Rightarrow> Inl (CtlMessage (''malformed config: '' @ e)) | Inr v \<Rightarrow> Inr v)"
  by (simp add: read_toml_def read_to_string_def from_utf8_def)

lemma config_load_written:
  "utf8_valid out \<Longrightarrow> config_parse X out = Inr cfg \<Longrightarrow> config_load X (fs(path \<mapsto> out)) path = Inr cfg"
  by (auto simp: config_load_def config_parse_def read_to_string_def from_utf8_def split: sum.splits)

subsection \<open>Claims\<close>

text \<open>
  C28. \<^verbatim>\<open>talkctl config set\<close>: a refused change leaves every file as it was. An accepted one writes the
  configuration file only, and then \<^verbatim>\<open>config get\<close> prints the new value at that key, every key whose path is
  apart from it keeps its value (or its error), and the daemon can load the file.
\<close>

theorem config_set_exact:
  assumes "toml_ok X" and "config_run X cp (ConfigSet key val) fs = (r, fs')"
  shows "case r of
      Inl _ \<Rightarrow> fs' = fs
    | Inr _ \<Rightarrow> \<exists>root root' cfg.
        read_toml X fs (resolve_path cp) = Inr root \<and> read_toml X fs' (resolve_path cp) = Inr root' \<and>
        fst (config_run X cp (ConfigGet key) fs') = Inr (tm_show X (parse_value X val)) \<and>
        (\<forall>q. apart (split_on (CHR ''.'') key) (split_on (CHR ''.'') q) \<longrightarrow> get_path root' q = get_path root q) \<and>
        config_load X fs' (resolve_path cp) = Inr cfg \<and> (\<forall>p. p \<noteq> resolve_path cp \<longrightarrow> fs' p = fs p)"
proof (cases "config_set X (resolve_path cp) key val fs")
  case (Inl e)
  then have "r = Inl e" "fs' = fs" using assms(2) by (simp_all add: config_run_def)
  then show ?thesis by simp
next
  case (Inr out)
  have fs': "is_ok r" "fs' = fs(resolve_path cp \<mapsto> out)" using assms(2) Inr by (auto simp: config_run_def Let_def is_ok_def)
  obtain root root' cfg where o: "read_toml X fs (resolve_path cp) = Inr root" "set_path root key (parse_value X val) = Inr root'"
      "tm_pretty X root' = Inr out" "utf8_valid out" "tm_value X out = Inr root'" "config_parse X out = Inr cfg"
    using config_set_ok[OF Inr assms(1)] .
  have rd: "read_toml X fs' (resolve_path cp) = Inr root'" using o(4,5) by (simp add: fs' read_toml_written)
  have "get_path root' key = Inr (parse_value X val)"
    using o(2) by (rule set_path_get)
  then have "fst (config_run X cp (ConfigGet key) fs') = Inr (tm_show X (parse_value X val))"
    by (simp add: config_run_def rd to_message_def)
  moreover have "\<forall>q. apart (split_on (CHR ''.'') key) (split_on (CHR ''.'') q) \<longrightarrow> get_path root' q = get_path root q"
    using set_path_apart[OF o(2)] by blast
  moreover have "config_load X fs' (resolve_path cp) = Inr cfg" using o(4,6) by (simp add: fs' config_load_written)
  ultimately show ?thesis using o(1) rd fs' by (auto simp: is_ok_def split: sum.splits)
qed

definition demo_doc :: "rstr \<Rightarrow> toml" where
  "demo_doc d = TomlTable (fmupd ''general'' (TomlTable (fmupd ''domain'' (TomlString d) fmempty))
     (fmupd ''mailbox'' (TomlTable (fmupd ''encrypt_db'' (TomlBoolean False) fmempty)) fmempty))"

definition demo_config :: config where
  "demo_config =
     \<lparr>cf_general = \<lparr>gn_data_dir = ''/var'', gn_domain = ''b.org'', gn_log_level = default_log_level\<rparr>,
      cf_network = \<lparr>nw_indexer_url = [], nw_send_endpoint = []\<rparr>,
      cf_sockets = \<lparr>sc_secure_mailbox = ''m'', sc_zsmtp = ''z'', sc_zsmtp_listen = ''l'', sc_imap_listen = ''i''\<rparr>,
      cf_tls = \<lparr>tl_cert = ''c'', tl_key = ''k''\<rparr>,
      cf_mailbox = \<lparr>mx_encrypt_db = False, mx_passphrase = [], mx_wallet_dir = ''w'', mx_template_path = None\<rparr>,
      cf_auth = CfgDatabase\<rparr>"

definition demo_toml :: toml_ext where
  "demo_toml =
     \<lparr>tm_value = (\<lambda>s. if s = ''old'' then Inr (demo_doc ''a.org'') else if s = ''new'' then Inr (demo_doc ''b.org'') else Inl ''bad''),
      tm_config = (\<lambda>s. if s = ''new'' then Inr demo_config else Inl ''bad''),
      tm_pretty = (\<lambda>t. if t = demo_doc ''b.org'' then Inr ''new'' else Inl ''bad''),
      tm_show = (\<lambda>v. case v of TomlString s \<Rightarrow> s | _ \<Rightarrow> []), tm_debug = id, tm_read_text = (\<lambda>_ _. [])\<rparr>"

lemma demo_toml_ok: "toml_ok demo_toml"
proof -
  have "utf8_valid ''new''" by code_simp
  then show ?thesis by (simp add: toml_ok_def demo_toml_def)
qed

lemma demo_toml_documents: "toml_documents demo_toml"
  unfolding toml_documents_def demo_toml_def by (auto simp: demo_doc_def get_path_def split: if_splits)

lemma demo_set: "config_set demo_toml ''t'' ''general.domain'' ''b.org'' [''t'' \<mapsto> ''old''] = Inr ''new''"
proof -
  have u: "utf8_valid ''old''" "trim ''b.org'' = ''b.org''" "split_on (CHR ''.'') ''general.domain'' = [''general'', ''domain'']"
      "\<not> list_ex is_whitespace (chars ''b.org'')" by code_simp+
  have "set_path (demo_doc ''a.org'') ''general.domain'' (TomlString ''b.org'') = Inr (demo_doc ''b.org'')"
    by (simp add: set_path_def u demo_doc_def fmap_ext)
  moreover have "config_parse demo_toml ''new'' = Inr demo_config"
    by (simp add: config_parse_def demo_toml_def config_validate_def demo_config_def u is_whitespace_def)
  moreover have "read_toml demo_toml [''t'' \<mapsto> ''old''] ''t'' = Inr (demo_doc ''a.org'')" "parse_value demo_toml ''b.org'' = TomlString ''b.org''"
      "tm_pretty demo_toml (demo_doc ''b.org'') = Inr ''new''"
    by (simp_all add: read_toml_def read_to_string_def from_utf8_def u parse_value_def demo_toml_def)
  ultimately show ?thesis by (simp add: config_set_def to_message_def)
qed

theorem config_set_exact_witness:
  "\<exists>m fs' root cfg. config_run demo_toml (Some ''t'') (ConfigSet ''general.domain'' ''b.org'') [''t'' \<mapsto> ''old''] = (Inr m, fs') \<and>
     fst (config_run demo_toml (Some ''t'') (ConfigGet ''general.domain'') fs') = Inr ''b.org'' \<and>
     read_toml demo_toml fs' ''t'' = Inr root \<and>
     get_path root ''mailbox.encrypt_db'' = get_path (demo_doc ''a.org'') ''mailbox.encrypt_db'' \<and> config_load demo_toml fs' ''t'' = Inr cfg"
proof -
  have r: "config_run demo_toml (Some ''t'') (ConfigSet ''general.domain'' ''b.org'') [''t'' \<mapsto> ''old''] =
      (Inr ''ok: general.domain = b.org (t)'', [''t'' \<mapsto> ''old''](''t'' \<mapsto> ''new''))"
    by (simp add: config_run_def resolve_path_def demo_set)
  have c: "trim ''b.org'' = ''b.org''" "utf8_valid ''old''" "apart (split_on (CHR ''.'') ''general.domain'') (split_on (CHR ''.'') ''mailbox.encrypt_db'')"
    by code_simp+
  have p: "tm_show demo_toml (parse_value demo_toml ''b.org'') = ''b.org''" by (simp add: parse_value_def demo_toml_def c)
  have o: "read_toml demo_toml [''t'' \<mapsto> ''old''] ''t'' = Inr (demo_doc ''a.org'')"
    by (simp add: read_toml_def read_to_string_def from_utf8_def demo_toml_def c)
  show ?thesis using config_set_exact[OF demo_toml_ok r] c(3) r by (auto simp: resolve_path_def p o)
qed

text \<open>
  A boolean key cannot be set: \<^verbatim>\<open>parse_value\<close> reads its argument as a TOML document, so a bare \<^verbatim>\<open>true\<close>
  or \<^verbatim>\<open>false\<close> is not read as a boolean and becomes a string, or the argument is a whole table. Whatever value
  is given, \<^verbatim>\<open>config set mailbox.encrypt_db\<close> is refused and no file changes, although the file holds that key.
\<close>

theorem boolean_key_not_settable:
  assumes "toml_ok X" "toml_documents X"
  shows "\<exists>e. config_run X cp (ConfigSet ''mailbox.encrypt_db'' val) fs = (Inl e, fs)"
proof (cases "config_set X (resolve_path cp) ''mailbox.encrypt_db'' val fs")
  case (Inl e)
  then show ?thesis by (simp add: config_run_def)
next
  case (Inr out)
  obtain root root' cfg where o: "set_path root ''mailbox.encrypt_db'' (parse_value X val) = Inr root'"
      "tm_value X out = Inr root'" "config_parse X out = Inr cfg"
    using config_set_ok[OF Inr assms(1)] by metis
  from o(3) have "tm_config X out = Inr cfg" by (auto simp: config_parse_def bind_r_Inr_iff split: sum.splits)
  moreover have "get_path root' ''mailbox.encrypt_db'' = Inr (parse_value X val)"
    using o(1) by (rule set_path_get)
  ultimately obtain b where "parse_value X val = TomlBoolean b" using assms(2) o(2) by (fastforce simp: toml_documents_def)
  then have "tm_value X val = Inr (TomlBoolean b)" by (auto simp: parse_value_def split: if_splits sum.splits)
  then have "as_table (TomlBoolean b) \<noteq> None" using assms(2) unfolding toml_documents_def by blast
  then show ?thesis by (simp add: as_table_def)
qed

theorem boolean_key_not_settable_witness:
  "(\<exists>e. config_run demo_toml (Some ''t'') (ConfigSet ''mailbox.encrypt_db'' ''true'') [''t'' \<mapsto> ''old''] = (Inl e, [''t'' \<mapsto> ''old''])) \<and>
   get_path (demo_doc ''a.org'') ''mailbox.encrypt_db'' = Inr (TomlBoolean False)"
  using boolean_key_not_settable[OF demo_toml_ok demo_toml_documents, of "Some ''t''" "''true''" "[''t'' \<mapsto> ''old'']"]
  by (simp add: get_path_def demo_doc_def)

end
