(* ===== verification/Ctl.thy ===== *)
theory Ctl
  imports Config Secure Keys
begin

text \<open>
  The control tool (\<^verbatim>\<open>talk-ctl/src/lib.rs\<close>, \<^verbatim>\<open>store.rs\<close>, \<^verbatim>\<open>tx.rs\<close>): accounts, shares, keyring, settings and
  the ledger, on the daemon's store. A command is a state-passing operation on the daemon's world and on
  what the tool has printed. The command line parser (crate \<^verbatim>\<open>clap\<close>), the password prompt and the
  peers a command talks to are fields of a record of functions.
\<close>

record ctl_env =
  ce_ext :: ext
  ce_json :: json_ext
  ce_template :: template_ext
  ce_secure :: secure_ext
  ce_toml :: toml_ext
  ce_crypto :: crypto
  ce_emulate :: emulate_json
  ce_dns :: dns_ext
  ce_vars :: env
  ce_net :: network
  ce_socket :: "rstr \<Rightarrow> (rstr, bytes) result"
  ce_prompt :: "rstr \<Rightarrow> rstr"
  ce_stdin :: bytes
  ce_version :: rstr

record ctl =
  ct_world :: world
  ct_out :: "rstr list"
  ct_err :: "rstr list"

type_synonym 'a ctl_op = "ctl \<Rightarrow> (ctl_error, 'a) result \<times> ctl"

definition ctl_msg :: "rstr \<Rightarrow> (ctl_error, 'a) result" where
  "ctl_msg s = Inl (CtlMessage s)"

text \<open>The standard output and error are lists of the pieces written.\<close>

definition print_raw :: "bytes \<Rightarrow> unit ctl_op" where
  "print_raw b c = (Inr (), c\<lparr>ct_out := ct_out c @ [b]\<rparr>)"

definition println :: "rstr \<Rightarrow> unit ctl_op" where
  "println s = print_raw (s @ [CHR 0x0A])"

definition eprintln :: "rstr \<Rightarrow> unit ctl_op" where
  "eprintln s c = (Inr (), c\<lparr>ct_err := ct_err c @ [s @ [CHR 0x0A]]\<rparr>)"

definition ctl_store :: "'a op \<Rightarrow> 'a ctl_op" where
  "ctl_store f c =
     (case on_store f (ct_world c) of
        (Inl e, w) \<Rightarrow> (Inl (CtlStore e), c\<lparr>ct_world := w\<rparr>)
      | (Inr a, w) \<Rightarrow> (Inr a, c\<lparr>ct_world := w\<rparr>))"

definition unix_now :: "int ctl_op" where
  "unix_now c = (case tick (ct_world c) of (t, w) \<Rightarrow> (Inr t, c\<lparr>ct_world := w\<rparr>))"

text \<open>A store operation that reads the clock once.\<close>

definition ctl_store_now :: "(int \<Rightarrow> 'a op) \<Rightarrow> 'a ctl_op" where
  "ctl_store_now f = bind_s unix_now (\<lambda>now. ctl_store (f now))"

definition ctl_rand :: "nat \<Rightarrow> bytes ctl_op" where
  "ctl_rand n c = (case draw n (ct_world c) of (b, w) \<Rightarrow> (Inr b, c\<lparr>ct_world := w\<rparr>))"

fun for_each :: "('a \<Rightarrow> unit ctl_op) \<Rightarrow> 'a list \<Rightarrow> unit ctl_op" where
  "for_each f [] = lift_r (Inr ())"
| "for_each f (x # xs) = bind_s (f x) (\<lambda>_. for_each f xs)"

text \<open>The padding of \<^verbatim>\<open>{:<n}\<close> and \<^verbatim>\<open>{:>n}\<close>, in characters.\<close>

definition pad_right :: "nat \<Rightarrow> rstr \<Rightarrow> rstr" where
  "pad_right n s = s @ replicate (n - length (chars s)) (CHR '' '')"

definition pad_left :: "nat \<Rightarrow> rstr \<Rightarrow> rstr" where
  "pad_left n s = replicate (n - length (chars s)) (CHR '' '') @ s"

definition yes_no :: "bool \<Rightarrow> rstr" where
  "yes_no b = (if b then ''yes'' else ''no'')"

subsection \<open>The context of a command\<close>

definition ctx_load :: "ctl_env \<Rightarrow> rstr option \<Rightarrow> config ctl_op" where
  "ctx_load V config_path c =
     (case config_load (ce_toml V) (w_files (ct_world c)) (case config_path of Some p \<Rightarrow> p | None \<Rightarrow> ''config.toml'') of
        Inl e \<Rightarrow> (Inl (CtlConfig e), c)
      | Inr cfg \<Rightarrow> (Inr cfg, c))"

definition ctl_domain_key :: "ctl_env \<Rightarrow> config \<Rightarrow> bytes ctl_op" where
  "ctl_domain_key V cfg c =
     (let path = path_join (gn_data_dir (cf_general cfg)) ''domainkey''; fs = w_files (ct_world c) in
      case fs path of
        None \<Rightarrow> (ctl_msg (''cannot read domain key '' @ path @ '': '' @ tm_read_text (ce_toml V) fs path @
                   '' (run talkd once to create it)''), c)
      | Some raw \<Rightarrow> (if length raw \<noteq> 32 then ctl_msg ''domain key must be 32 bytes'' else Inr raw, c))"

definition socket_path :: "config \<Rightarrow> rstr" where
  "socket_path cfg = sc_secure_mailbox (cf_sockets cfg)"

definition domainkey_pubkey :: "ctl_env \<Rightarrow> rstr option \<Rightarrow> unit ctl_op" where
  "domainkey_pubkey V p =
     bind_s (ctx_load V p) (\<lambda>cfg.
     bind_s (ctl_domain_key V cfg) (\<lambda>key.
       println (hex_encode (ce_ext V) (ed_public (ce_ext V) key))))"

definition status_run :: "ctl_env \<Rightarrow> rstr option \<Rightarrow> unit ctl_op" where
  "status_run V p =
     bind_s (ctx_load V p) (\<lambda>cfg.
     bind_s (ctl_store list_users) (\<lambda>us.
     bind_s (ctl_store list_settings) (\<lambda>ss c.
       (let key = fst (ctl_domain_key V cfg c); dir = gn_data_dir (cf_general cfg); ep = nw_send_endpoint (cf_network cfg) in
        for_each println
          [''version        talkd '' @ ce_version V,
           ''domain         '' @ gn_domain (cf_general cfg),
           ''data_dir       '' @ dir,
           ''mailbox_db     '' @ path_join dir ''mailbox.db'',
           ''secure_mailbox '' @ socket_path cfg,
           ''indexer        '' @ nw_indexer_url (cf_network cfg),
           ''send_endpoint  '' @ (if ep = [] then ''srv'' else ep),
           ''users          '' @ show_nat (length us),
           ''settings       '' @ show_nat (length ss),
           (if is_ok key then ''domain_key     present'' else ''domain_key     missing (run talkd once)'')] c))))"

definition require_user :: "config \<Rightarrow> rstr \<Rightarrow> user ctl_op" where
  "require_user cfg username =
     bind_s (lift_r (ok_or (CtlMessage (''no such user: '' @ username)) (local_username username (gn_domain (cf_general cfg))))) (\<lambda>loc.
     bind_s (ctl_store (get_user loc)) (\<lambda>u.
       lift_r (ok_or (CtlMessage (''no such user: '' @ username)) u)))"

definition validate_username :: "rstr \<Rightarrow> (ctl_error, unit) result" where
  "validate_username u =
     (if u = [] then ctl_msg ''username is required''
      else if CHR ''@'' \<in> set u then ctl_msg ''username must be a bare local name (no @domain)''
      else if CHR '':'' \<in> set u then ctl_msg (''username must not contain '' @ [CHR 0x27] @ '':'' @ [CHR 0x27] @ '' (reserved for app passwords)'')
      else Inr ())"

subsection \<open>Settings\<close>

datatype settings_action = SettingsList | SettingsGet rstr | SettingsSet rstr rstr | SettingsDelete rstr

definition settings_run :: "ctl_env \<Rightarrow> rstr option \<Rightarrow> settings_action \<Rightarrow> unit ctl_op" where
  "settings_run V p action =
     bind_s (ctx_load V p) (\<lambda>_.
       case action of
         SettingsList \<Rightarrow> bind_s (ctl_store list_settings) (for_each (\<lambda>(k, v). println (k @ '' = '' @ v)))
       | SettingsGet key \<Rightarrow>
           bind_s (ctl_store (get_setting key)) (\<lambda>v.
             case v of Some x \<Rightarrow> println x | None \<Rightarrow> lift_r (ctl_msg (''no such setting: '' @ key)))
       | SettingsSet key val \<Rightarrow>
           bind_s (ctl_store (set_setting key val)) (\<lambda>_. println (''ok: '' @ key @ '' = '' @ val))
       | SettingsDelete key \<Rightarrow>
           bind_s (ctl_store (delete_setting key)) (\<lambda>_. println (''ok: deleted '' @ key)))"

subsection \<open>Shares\<close>

text \<open>The random bytes of the wrappers: sixteen for the share id and twelve for the nonce, in turn.\<close>

definition stream_rng :: "bytes \<Rightarrow> share_rng" where
  "stream_rng b i = (take 16 (drop (28 * i) b), take 12 (drop (28 * i + 16) b))"

definition split_keys :: "nat \<Rightarrow> bytes \<Rightarrow> bytes list" where
  "split_keys n b = map (\<lambda>i. take 32 (drop (32 * i) b)) [0..<n]"

definition print_share :: "ctl_env \<Rightarrow> rstr \<Rightarrow> bytes \<Rightarrow> rstr" where
  "print_share V i secret = ''share id='' @ i @ '' secret='' @ hex_encode (ce_ext V) secret"

definition add_one_share :: "ctl_env \<Rightarrow> int \<Rightarrow> bytes \<times> wrapped_by_share \<Rightarrow> unit ctl_op" where
  "add_one_share V uid = (\<lambda>(secret, wrapper).
     (let i = hex_encode (ce_ext V) (ws_share_id wrapper) in
      bind_s (ctl_store (add_share uid i (ws_wrapped wrapper))) (\<lambda>_. println (print_share V i secret))))"

definition init_shares :: "ctl_env \<Rightarrow> int \<Rightarrow> 32 word \<Rightarrow> unit ctl_op" where
  "init_shares V uid n =
     bind_s (ctl_rand 32) (\<lambda>dk.
     bind_s (ctl_rand (32 * unat n)) (\<lambda>b.
     bind_s (ctl_rand (28 * unat n)) (\<lambda>r.
       (let secrets = split_keys (unat n) b; wrappers = share_wrap (ce_crypto V) (stream_rng r) dk secrets in
        bind_s (for_each (add_one_share V uid) (zip secrets wrappers)) (\<lambda>_.
        bind_s (eprintln (''note: share secrets above are app passwords; store them safely. '' @
                  ''The DK is not stored by the server.'')) (\<lambda>_.
          println (''ok: registered '' @ show_nat (unat n) @ '' shares'')))))))"

datatype share_action = ShareList rstr | ShareInit rstr "32 word" | ShareRevoke rstr rstr

definition share_run :: "ctl_env \<Rightarrow> rstr option \<Rightarrow> share_action \<Rightarrow> unit ctl_op" where
  "share_run V p action =
     bind_s (ctx_load V p) (\<lambda>cfg.
       case action of
         ShareList username \<Rightarrow>
           bind_s (require_user cfg username) (\<lambda>u.
           bind_s (ctl_store (list_shares (user_id u))) (for_each (\<lambda>s.
             println (pad_right 16 (se_share_id s) @ '' '' @ (if se_revoked s then ''revoked'' else ''active '') @
               '' wrapped='' @ hex_encode (ce_ext V) (se_wrapped_dk s)))))
       | ShareInit username n \<Rightarrow>
           bind_s (require_user cfg username) (\<lambda>u.
             if n = 0 then lift_r (ctl_msg ''--shares must be >= 1'') else init_shares V (user_id u) n)
       | ShareRevoke username i \<Rightarrow>
           bind_s (require_user cfg username) (\<lambda>u.
           bind_s (ctl_store (revoke_share (user_id u) i)) (\<lambda>_.
             println (''ok: share '' @ i @ '' revoked for '' @ username))))"

subsection \<open>Users\<close>

datatype user_action =
    UserList
  | UserShow rstr
  | UserCreate rstr "rstr option" rstr "rstr option" "32 word"
  | UserDelete rstr
  | UserPasswd rstr "rstr option"
  | UserSetIvk rstr rstr
  | UserUnsetIvk rstr

definition user_show :: "ctl_env \<Rightarrow> config \<Rightarrow> rstr \<Rightarrow> unit ctl_op" where
  "user_show V cfg username =
     bind_s (require_user cfg username) (\<lambda>u.
     bind_s (for_each println
       ([''username      '' @ user_name u, ''id            '' @ show_int (user_id u),
         ''master_pubkey '' @ hex_encode (ce_ext V) (user_master_pubkey u),
         ''ivk_commitment '' @ unwrap_or ''(none)'' (user_ivk_commitment u)] @
        (case user_registration_attestation u of
           None \<Rightarrow> [''attestation   (none)'']
         | Some r \<Rightarrow>
             [''attestation   present'',
              (case reg_from_json (ce_json V) r of
                 Inr a \<Rightarrow> ''  R: domain='' @ reg_domain a @ '' registered_at='' @ show_int (reg_registered_at a) @
                   '' sig='' @ hex_encode (ce_ext V) (reg_signature a)
               | Inl _ \<Rightarrow> ''  R: unparseable'')]))) (\<lambda>_.
     bind_s (ctl_store (list_shares (user_id u))) (\<lambda>ss.
     bind_s (println (''shares        '' @ show_nat (length ss) @ '' ('' @
       show_nat (length (filter (\<lambda>s. \<not> se_revoked s) ss)) @ '')'')) (\<lambda>_.
     bind_s (ctl_store (list_keyring (user_id u))) (\<lambda>ks.
       println (''keyring       '' @ show_nat (length ks) @ '' pinned''))))))"

definition ctl_hash_password :: "ctl_env \<Rightarrow> rstr \<Rightarrow> rstr ctl_op" where
  "ctl_hash_password V pw =
     bind_s (ctl_rand 16) (\<lambda>salt.
       lift_r (case hash_password (sx_argon2 (ce_secure V)) salt pw of
                 Inl e \<Rightarrow> ctl_msg (''password hash failed: '' @ e)
               | Inr h \<Rightarrow> Inr h))"

definition user_create ::
    "ctl_env \<Rightarrow> config \<Rightarrow> rstr \<Rightarrow> rstr option \<Rightarrow> rstr \<Rightarrow> rstr option \<Rightarrow> 32 word \<Rightarrow> unit ctl_op" where
  "user_create V cfg username pw pubkey ivk n =
     (let password = (case pw of Some s \<Rightarrow> s | None \<Rightarrow> ce_prompt V ''Password: '') in
      bind_s (lift_r (ok_or (CtlMessage ''--pubkey must be 32 bytes of hex'') (decode_hex_32 (ce_ext V) pubkey))) (\<lambda>key.
      bind_s (lift_r (case ivk of
                        Some h \<Rightarrow> bind_r (ok_or (CtlMessage ''--ivk must be 32 bytes of hex'') (decode_hex_32 (ce_ext V) h)) (\<lambda>_. Inr (Some h))
                      | None \<Rightarrow> Inr None)) (\<lambda>ivk'.
      if username = [] \<or> password = [] then lift_r (ctl_msg ''username and password are required'')
      else
        bind_s (lift_r (validate_username username)) (\<lambda>_.
        bind_s (ctl_hash_password V password) (\<lambda>hash.
        bind_s (ctl_domain_key V cfg) (\<lambda>dkey.
        bind_s unix_now (\<lambda>now.
        (let r = reg_to_json (ce_json V) (reg_sign (ce_ext V) (gn_domain (cf_general cfg)) username key ivk' now dkey) in
         bind_s (ctl_store_now (\<lambda>t. create_user_full t username hash key ivk' (Some r))) (\<lambda>u.
         bind_s (println (''ok: registered '' @ user_name u)) (\<lambda>_.
           if n > 0 then init_shares V (user_id u) n else lift_r (Inr ())))))))))))"

definition user_run :: "ctl_env \<Rightarrow> rstr option \<Rightarrow> user_action \<Rightarrow> unit ctl_op" where
  "user_run V p action =
     bind_s (ctx_load V p) (\<lambda>cfg.
       case action of
         UserList \<Rightarrow>
           bind_s (ctl_store list_users) (for_each (\<lambda>u.
             println (pad_right 20 (us_username u) @ '' id='' @ show_int (us_id u) @ '' ivk='' @ yes_no (us_has_ivk u) @
               '' attested='' @ yes_no (us_has_attestation u))))
       | UserShow username \<Rightarrow> user_show V cfg username
       | UserCreate username pw pubkey ivk n \<Rightarrow> user_create V cfg username pw pubkey ivk n
       | UserDelete username \<Rightarrow>
           bind_s (ctl_store (delete_user username)) (\<lambda>_. println (''ok: deleted '' @ username))
       | UserPasswd username pw \<Rightarrow>
           bind_s (require_user cfg username) (\<lambda>_.
           bind_s (ctl_hash_password V (case pw of Some s \<Rightarrow> s | None \<Rightarrow> ce_prompt V ''New password: '')) (\<lambda>h.
           bind_s (ctl_store (set_password username h)) (\<lambda>_. println (''ok: password changed for '' @ username))))
       | UserSetIvk username ivk \<Rightarrow>
           bind_s (require_user cfg username) (\<lambda>_.
           bind_s (lift_r (ok_or (CtlMessage ''ivk must be 32 bytes of hex'') (decode_hex_32 (ce_ext V) ivk))) (\<lambda>_.
           bind_s (ctl_store (set_ivk username (Some ivk))) (\<lambda>_. println (''ok: ivk set for '' @ username))))
       | UserUnsetIvk username \<Rightarrow>
           bind_s (require_user cfg username) (\<lambda>_.
           bind_s (ctl_store (set_ivk username None)) (\<lambda>_. println (''ok: ivk cleared for '' @ username))))"

subsection \<open>Keyring\<close>

datatype keyring_action = KeyringPin rstr rstr "rstr option" | KeyringList rstr | KeyringUnpin rstr rstr

definition keyring_run :: "ctl_env \<Rightarrow> rstr option \<Rightarrow> keyring_action \<Rightarrow> unit ctl_op" where
  "keyring_run V p action =
     bind_s (ctx_load V p) (\<lambda>cfg.
       case action of
         KeyringPin username sender pubkey \<Rightarrow>
           bind_s (require_user cfg username) (\<lambda>u.
           bind_s (ctl_store_now (\<lambda>t. keyring_set_trusted t (user_id u) sender (unwrap_or [] pubkey) [])) (\<lambda>_.
             println (''ok: pinned '' @ sender @ '' for '' @ username)))
       | KeyringList username \<Rightarrow>
           bind_s (require_user cfg username) (\<lambda>u.
           bind_s (ctl_store (list_keyring (user_id u))) (for_each (\<lambda>e.
             println (pad_right 28 (ke_sender_mailbox e) @ '' '' @ ke_state e @ '' pubkey='' @
               (if ke_sender_pubkey e = [] then ''(none)'' else ke_sender_pubkey e)))))
       | KeyringUnpin username sender \<Rightarrow>
           bind_s (require_user cfg username) (\<lambda>u.
           bind_s (ctl_store (unpin_keyring (user_id u) sender)) (\<lambda>_.
             println (''ok: unpinned '' @ sender @ '' for '' @ username))))"

end
