(* ===== verification/Ctl_Remote.thy ===== *)
theory Ctl_Remote
  imports Ctl
begin

text \<open>
  The commands of the control tool that talk to the daemon or to a peer (\<^verbatim>\<open>talk-ctl/src/remote.rs\<close>), the
  ledger commands (\<^verbatim>\<open>tx.rs\<close>), the key commands (\<^verbatim>\<open>key.rs\<close>) and the dispatch of a command line (\<^verbatim>\<open>lib.rs\<close>).
  The daemon's socket gives the bytes the daemon answers, or the text of a failed connect; file
  permissions are not modelled.
\<close>

definition read_file :: "rstr \<Rightarrow> ctl_env \<Rightarrow> rstr \<Rightarrow> bytes ctl_op" where
  "read_file what V path c =
     (case w_files (ct_world c) path of
        Some b \<Rightarrow> (Inr b, c)
      | None \<Rightarrow> (ctl_msg (what @ path @ '': '' @ tm_read_text (ce_toml V) (w_files (ct_world c)) path), c))"

definition write_file :: "rstr \<Rightarrow> bytes \<Rightarrow> unit ctl_op" where
  "write_file path b c = (Inr (), c\<lparr>ct_world := (ct_world c)\<lparr>w_files := (w_files (ct_world c))(path \<mapsto> b)\<rparr>\<rparr>)"

subsection \<open>Attest\<close>

definition ctl_parse_mode :: "rstr \<Rightarrow> (ctl_error, attestation_mode) result" where
  "ctl_parse_mode s =
     (if s = ''ephemeral'' then Inr Ephemeral else if s = ''attested'' then Inr Attested
      else ctl_msg (''invalid attestation mode: '' @ s))"

definition print_attestation :: "ctl_env \<Rightarrow> bytes \<Rightarrow> unit ctl_op" where
  "print_attestation V blob =
     (case att_from_json (ce_json V) (from_utf8_lossy blob) of
        Inl e \<Rightarrow> lift_r (ctl_msg (''daemon returned invalid attestation: '' @ show_attestation_error e))
      | Inr a \<Rightarrow>
          for_each println
            [''domain      '' @ att_domain a, ''user        '' @ att_user a, ''mode        '' @ mode_text (att_mode a),
             ''address     '' @ att_address a, ''pubkey      '' @ att_pubkey a,
             ''signature   '' @ hex_encode (ce_ext V) (att_signature a)])"

definition show_attest_failure :: "secure_ext \<Rightarrow> attest_failure \<Rightarrow> rstr" where
  "show_attest_failure S e = (case e of AttestLine l \<Rightarrow> l | AttestFraming x \<Rightarrow> show_framing_error S x)"

definition attest_run :: "ctl_env \<Rightarrow> rstr option \<Rightarrow> rstr \<Rightarrow> rstr \<Rightarrow> unit ctl_op" where
  "attest_run V p user mode_arg =
     bind_s (lift_r (ctl_parse_mode mode_arg)) (\<lambda>mode.
     bind_s (ctx_load V p) (\<lambda>cfg.
       case ce_socket V (socket_path cfg) of
         Inr replies \<Rightarrow>
           (case fst (mbc_attest user mode \<lparr>mk_in = replies, mk_out = []\<rparr>) of
              Inl e \<Rightarrow> lift_r (ctl_msg (''daemon: '' @ show_attest_failure (ce_secure V) e))
            | Inr blob \<Rightarrow> print_attestation V blob)
       | Inl _ \<Rightarrow>
           bind_s (ctl_domain_key V cfg) (\<lambda>key.
           bind_s (ctl_rand 32) (\<lambda>rnd.
             (let (address, pubkey) = mint_pair rnd mode in
              print_attestation V (att_to_json (ce_json V)
                (att_sign (ce_ext V) (gn_domain (cf_general cfg)) user mode address pubkey key)))))))"

subsection \<open>Recording and delivering an invoice\<close>

definition ctl_render_sent :: "ctl_env \<Rightarrow> config \<Rightarrow> rstr \<Rightarrow> bytes \<Rightarrow> world \<Rightarrow> (rstr \<times> bytes) \<times> world" where
  "ctl_render_sent V cfg sender_mailbox body w =
     (case resolve_template (ce_template V) (w_files w) (mx_template_path (cf_mailbox cfg)) (gn_data_dir (cf_general cfg)) of
        Inl _ \<Rightarrow> ((''Sent invoice'', body), w)
      | Inr spec \<Rightarrow>
          (case tick w of (now, w') \<Rightarrow>
             (case render_invoice (ce_template V) spec sender_mailbox sender_mailbox [] (from_utf8_lossy body)
                     (received_at (ce_template V) now) of
                Inr (s, b) \<Rightarrow> ((s, b), w')
              | Inl _ \<Rightarrow> ((''Sent invoice'', body), w'))))"

definition record_outbound ::
    "ctl_env \<Rightarrow> config \<Rightarrow> rstr \<Rightarrow> rstr \<Rightarrow> rstr \<Rightarrow> payload \<Rightarrow> bytes \<Rightarrow> tx_state \<Rightarrow> world \<Rightarrow> world" where
  "record_outbound V cfg sender recipient mid p body st w =
     (let sender_mailbox = sender @ ''@'' @ gn_domain (cf_general cfg);
          (tx, w1) =
            (case fst (tx_by_message_id TxOut mid (w_store w)) of
               Inr (Some existing) \<Rightarrow>
                 (case tick w of (now, v) \<Rightarrow> (Some (tx_id existing), snd (on_store (tx_transition now (tx_id existing) st) v)))
             | _ \<Rightarrow>
                 (case tick w of (now, v) \<Rightarrow>
                  case on_store (tx_create now
                    \<lparr>nt_direction = TxOut, nt_state = st, nt_sender_mailbox = sender_mailbox, nt_recipient_mailbox = recipient,
                     nt_amount = [], nt_binding = None, nt_message_id = mid, nt_outbound_body = Some body,
                     nt_payload = payload_str p\<rparr>) v of
                    (Inr t, v') \<Rightarrow> (Some (tx_id t), v') | (Inl _, v') \<Rightarrow> (None, v')))
      in case tx of
           None \<Rightarrow> w1
         | Some tid \<Rightarrow>
             (case fst (get_user sender (w_store w1)) of
                Inr (Some user) \<Rightarrow>
                  (case ctl_render_sent V cfg sender_mailbox body w1 of ((subject, stored_body), w2) \<Rightarrow>
                     (let msg = \<lparr>nm_message_id = mid, nm_subject = subject, nm_body = stored_body, nm_flags = flags_default,
                                 nm_sender = recipient, nm_trust_state = ''unverified''\<rparr> in
                      case tick w2 of (now, w3) \<Rightarrow>
                      (case on_store (append_message_to now (user_id user) SENT msg) w3 of
                         (Inr meta, w4) \<Rightarrow>
                           (case tick w4 of (now', w5) \<Rightarrow> snd (on_store (tx_link_message now' tid (mm_id meta)) w5))
                       | (Inl _, w4) \<Rightarrow> w4)))
              | _ \<Rightarrow> w1))"

definition deliver_invoice ::
    "ctl_env \<Rightarrow> config \<Rightarrow> rstr \<Rightarrow> rstr \<Rightarrow> rstr \<Rightarrow> payload \<Rightarrow> bytes \<Rightarrow> tx_state ctl_op" where
  "deliver_invoice V cfg sender recipient mid p body c =
     (case nth_opt (split_on (CHR ''@'') recipient) 1 of
        None \<Rightarrow> (ctl_msg ''malformed recipient mailbox'', c)
      | Some receiver \<Rightarrow>
     (case doh_resolving_key (ce_ext V) (ce_dns V) (ce_vars V) DOH_ENDPOINT receiver of
        Inl e \<Rightarrow> (ctl_msg (''cannot resolve domain key: '' @ show_resolver_error e), c)
      | Inr pub \<Rightarrow>
     (let ep = nw_send_endpoint (cf_network cfg) in
      case (case doh_resolve_endpoint (ce_dns V) (ce_vars V) DOH_ENDPOINT receiver of
              Inr x \<Rightarrow> Some x | Inl _ \<Rightarrow> if ep \<noteq> [] then Some ep else None) of
        None \<Rightarrow> (ctl_msg ''cannot resolve endpoint (no SRV, no send_endpoint override)'', c)
      | Some endpoint \<Rightarrow>
          (let user = unwrap_or [] (nth_opt (split_on (CHR ''@'') recipient) 0);
               invoice = \<lparr>si_endpoint = endpoint, si_receiver_domain = receiver,
                          si_sender_domain = gn_domain (cf_general cfg), si_sender_username = sender,
                          si_recipient_user = user, si_receiver_pub = pub, si_message_id = mid, si_payload = p, si_body = body\<rparr>;
               (rnd, w1) = draw 16 (ct_world c); (issued, w2) = tick w1; (now, w3) = tick w2;
               r = send_invoice_deliver (ce_ext V) (ce_json V) (ce_net V) rnd issued now invoice;
               st = (case r of Inr _ \<Rightarrow> TxSent | Inl (ClRetryLater _) \<Rightarrow> TxRetrying | Inl _ \<Rightarrow> TxFailed);
               c' = c\<lparr>ct_world := record_outbound V cfg sender recipient mid p body st w3\<rparr>
           in case r of
                Inl e \<Rightarrow> (ctl_msg (''deliver: '' @ show_client_error (ce_secure V) e), c')
              | Inr _ \<Rightarrow> (Inr st, c')))))"

subsection \<open>Send and emulate\<close>

definition gen_message_id :: "ctl_env \<Rightarrow> rstr ctl_op" where
  "gen_message_id V = bind_s (ctl_rand 8) (\<lambda>b. lift_r (Inr (''talkctl-'' @ hex_encode (ce_ext V) b)))"

definition daemon_reply :: "rstr \<Rightarrow> unit ctl_op" where
  "daemon_reply resp = (if starts_with resp ''OK '' then println resp else lift_r (ctl_msg (''daemon: '' @ resp)))"

definition send_run ::
    "ctl_env \<Rightarrow> rstr option \<Rightarrow> rstr \<Rightarrow> rstr \<Rightarrow> rstr \<Rightarrow> bool \<Rightarrow> rstr option \<Rightarrow> unit ctl_op" where
  "send_run V p sender recipient file plaintext mid_opt =
     bind_s (read_file ''cannot read '' V file) (\<lambda>body.
     (let payl = (if plaintext then Plaintext else Sealed) in
      bind_s (case mid_opt of Some m \<Rightarrow> lift_r (Inr m) | None \<Rightarrow> gen_message_id V) (\<lambda>mid.
      if sender = [] then lift_r (ctl_msg ''sender username is required'')
      else
        bind_s (ctx_load V p) (\<lambda>cfg.
          case ce_socket V (socket_path cfg) of
            Inr replies \<Rightarrow>
              (case fst (mbc_send sender recipient mid payl body \<lparr>mk_in = replies, mk_out = []\<rparr>) of
                 Inl e \<Rightarrow> lift_r (Inl (CtlProtocol e))
               | Inr resp \<Rightarrow> daemon_reply resp)
          | Inl _ \<Rightarrow>
              bind_s (deliver_invoice V cfg sender recipient mid payl body) (\<lambda>_. println (''delivered to '' @ recipient))))))"

definition emulate_run :: "ctl_env \<Rightarrow> rstr option \<Rightarrow> rstr \<Rightarrow> rstr \<Rightarrow> rstr \<Rightarrow> rstr \<Rightarrow> rstr \<Rightarrow> unit ctl_op" where
  "emulate_run V p recipient from_name from_address amount file =
     bind_s (read_file ''cannot read '' V file) (\<lambda>invoice.
     bind_s (ctx_load V p) (\<lambda>cfg.
       case ce_socket V (socket_path cfg) of
         Inl e \<Rightarrow> lift_r (ctl_msg (''daemon not running: '' @ e))
       | Inr replies \<Rightarrow>
           (case fst (mbc_emulate (ce_emulate V) recipient from_name from_address amount invoice \<lparr>mk_in = replies, mk_out = []\<rparr>) of
              Inl e \<Rightarrow> lift_r (ctl_msg (''daemon: '' @ show_framing_error (ce_secure V) e))
            | Inr reply \<Rightarrow> daemon_reply reply)))"

subsection \<open>The ledger\<close>

datatype tx_action =
    TxList "rstr option" "rstr option"
  | TxShow int
  | TxResolve int "rstr option"
  | TxMarkSpent int
  | TxRetry int
  | TxFail int

definition require_tx :: "int \<Rightarrow> transaction ctl_op" where
  "require_tx i =
     bind_s (ctl_store (tx_get i)) (\<lambda>t. lift_r (ok_or (CtlMessage (''no such transaction: '' @ show_int i)) t))"

definition parse_filter :: "(rstr \<Rightarrow> 'a option) \<Rightarrow> (rstr \<Rightarrow> rstr) \<Rightarrow> rstr option \<Rightarrow> (ctl_error, 'a option) result" where
  "parse_filter f err opt =
     (case opt of None \<Rightarrow> Inr None | Some s \<Rightarrow> bind_r (ok_or (CtlMessage (err s)) (f s)) (\<lambda>x. Inr (Some x)))"

definition tx_line :: "transaction \<Rightarrow> rstr" where
  "tx_line t =
     pad_left 4 (show_int (tx_id t)) @ '' '' @ pad_right 4 (tx_direction_str (tx_dir t)) @ '' '' @
     pad_right 8 (tx_state_str (tx_st t)) @ '' '' @ pad_right 30 (tx_sender_mailbox t) @ '' -> '' @
     pad_right 30 (tx_recipient_mailbox t) @ '' amount='' @ pad_right 8 (tx_amount t) @ '' mid='' @ tx_message_id t"

definition tx_list_run :: "rstr option \<Rightarrow> rstr option \<Rightarrow> unit ctl_op" where
  "tx_list_run dir state_arg =
     bind_s (lift_r (parse_filter tx_direction_parse (\<lambda>d. ''invalid direction: '' @ d @ '' (use in|out)'') dir)) (\<lambda>d.
     bind_s (lift_r (parse_filter tx_state_parse
       (\<lambda>s. ''invalid state: '' @ s @ '' (use opaque|resolved|spent|sent|failed|retrying)'') state_arg)) (\<lambda>s.
     bind_s (ctl_store (tx_list d s)) (for_each (\<lambda>t. println (tx_line t)))))"

definition tx_show :: "int \<Rightarrow> unit ctl_op" where
  "tx_show i =
     bind_s (require_tx i) (\<lambda>t.
       for_each println
         [''id              '' @ show_int (tx_id t), ''direction       '' @ tx_direction_str (tx_dir t),
          ''state           '' @ tx_state_str (tx_st t), ''sender          '' @ tx_sender_mailbox t,
          ''recipient       '' @ tx_recipient_mailbox t, ''amount          '' @ tx_amount t,
          ''binding         '' @ unwrap_or ''(none)'' (tx_binding t), ''message_id      '' @ tx_message_id t,
          ''message_row     '' @ (case tx_message_row_id t of None \<Rightarrow> ''(none)'' | Some r \<Rightarrow> show_int r),
          ''outbound_body   '' @ (case tx_outbound_body t of None \<Rightarrow> ''(none)'' | Some b \<Rightarrow> show_nat (length b) @ '' bytes''),
          ''payload         '' @ tx_payload t, ''created_at      '' @ show_int (tx_created_at t),
          ''updated_at      '' @ show_int (tx_updated_at t)])"

definition tx_resolve :: "int \<Rightarrow> rstr option \<Rightarrow> unit ctl_op" where
  "tx_resolve i binding =
     bind_s (require_tx i) (\<lambda>t.
       if tx_dir t \<noteq> TxIn then lift_r (ctl_msg ''only inbound transactions can be resolved'')
       else
         bind_s (case binding of
                   Some b \<Rightarrow> ctl_store_now (\<lambda>now. tx_set_binding now i (Some b))
                 | None \<Rightarrow> lift_r (Inr ())) (\<lambda>_.
         bind_s (ctl_store_now (\<lambda>now. tx_transition now i TxResolved)) (\<lambda>_.
           println (''ok: tx '' @ show_int i @ '' -> resolved''))))"

definition tx_retry :: "ctl_env \<Rightarrow> config \<Rightarrow> int \<Rightarrow> unit ctl_op" where
  "tx_retry V cfg i =
     bind_s (require_tx i) (\<lambda>t.
       if tx_dir t \<noteq> TxOut then lift_r (ctl_msg ''only outbound transactions can be retried'')
       else
         bind_s (lift_r (ok_or (CtlMessage ''no outbound body persisted for this transaction'') (tx_outbound_body t))) (\<lambda>body.
         (let sender = unwrap_or [] (nth_opt (split_on (CHR ''@'') (tx_sender_mailbox t)) 0);
              payl = (if tx_payload t = ''plaintext'' then Plaintext else Sealed) in
          bind_s (deliver_invoice V cfg sender (tx_recipient_mailbox t) (tx_message_id t) payl body) (\<lambda>st.
            println (''ok: tx '' @ show_int i @ '' re-sent -> '' @ tx_state_str st)))))"

definition tx_run :: "ctl_env \<Rightarrow> rstr option \<Rightarrow> tx_action \<Rightarrow> unit ctl_op" where
  "tx_run V p action =
     bind_s (ctx_load V p) (\<lambda>cfg.
       case action of
         TxList dir st \<Rightarrow> tx_list_run dir st
       | TxShow i \<Rightarrow> tx_show i
       | TxResolve i binding \<Rightarrow> tx_resolve i binding
       | TxMarkSpent i \<Rightarrow>
           bind_s (require_tx i) (\<lambda>t.
             if tx_dir t \<noteq> TxIn then lift_r (ctl_msg ''only inbound transactions can be spent'')
             else
               bind_s (ctl_store_now (\<lambda>now. tx_transition now i TxSpent)) (\<lambda>_.
                 println (''ok: tx '' @ show_int i @ '' -> spent'')))
       | TxFail i \<Rightarrow>
           bind_s (require_tx i) (\<lambda>_.
           bind_s (ctl_store_now (\<lambda>now. tx_transition now i TxFailed)) (\<lambda>_.
             println (''ok: tx '' @ show_int i @ '' -> failed'')))
       | TxRetry i \<Rightarrow> tx_retry V cfg i)"

subsection \<open>Keys\<close>

datatype key_action =
    KeyGenerate "rstr option" "rstr option" bool
  | KeyPubkey "rstr option" "rstr option"
  | KeySeal rstr "rstr option" "rstr option" "rstr option"
  | KeyUnseal rstr "rstr option" "rstr option"

definition load_private_key :: "ctl_env \<Rightarrow> rstr \<Rightarrow> bytes ctl_op" where
  "load_private_key V path =
     bind_s (read_file ''cannot read key '' V path) (\<lambda>raw.
       lift_r (if length raw \<noteq> 32 then ctl_msg (''key file '' @ path @ '' must be 32 bytes'') else Inr raw))"

definition write_new :: "rstr \<Rightarrow> bytes \<Rightarrow> bool \<Rightarrow> unit ctl_op" where
  "write_new path b force c =
     (if w_files (ct_world c) path \<noteq> None \<and> \<not> force
      then (ctl_msg (path @ '' already exists (use --force to overwrite)''), c) else write_file path b c)"

definition read_input :: "ctl_env \<Rightarrow> rstr option \<Rightarrow> bytes ctl_op" where
  "read_input V input = (case input of Some path \<Rightarrow> read_file ''cannot read '' V path | None \<Rightarrow> lift_r (Inr (ce_stdin V)))"

definition write_output :: "rstr option \<Rightarrow> bytes \<Rightarrow> unit ctl_op" where
  "write_output output b = (case output of Some path \<Rightarrow> write_file path b | None \<Rightarrow> print_raw b)"

definition key_generate :: "ctl_env \<Rightarrow> rstr option \<Rightarrow> rstr option \<Rightarrow> bool \<Rightarrow> unit ctl_op" where
  "key_generate V out pub_out force =
     bind_s (ctl_rand 32) (\<lambda>secret.
     (let pair = generate_master_pair_with (ce_crypto V) secret in
      bind_s (case out of Some path \<Rightarrow> write_new path (mk_private pair) force | None \<Rightarrow> lift_r (Inr ())) (\<lambda>_.
      bind_s (case pub_out of Some path \<Rightarrow> write_new path (mk_public pair) force | None \<Rightarrow> lift_r (Inr ())) (\<lambda>_.
      bind_s (println (''public: '' @ hex_encode (ce_ext V) (mk_public pair))) (\<lambda>_.
        case out of
          Some path \<Rightarrow> eprintln (''note: private key written to '' @ path @ '' (mode 0600)'')
        | None \<Rightarrow>
            bind_s (eprintln ''note: private key printed once below; store it safely.'') (\<lambda>_.
              println (''private: '' @ hex_encode (ce_ext V) (mk_private pair))))))))"

definition key_pubkey :: "ctl_env \<Rightarrow> rstr option \<Rightarrow> rstr option \<Rightarrow> unit ctl_op" where
  "key_pubkey V key hx =
     bind_s (case (key, hx) of
               (Some path, _) \<Rightarrow> load_private_key V path
             | (None, Some h) \<Rightarrow> lift_r (ok_or (CtlMessage ''private key must be 32 bytes of hex'') (decode_hex_32 (ce_ext V) h))
             | (None, None) \<Rightarrow> lift_r (ctl_msg ''provide --key <file> or --hex <private-key>'')) (\<lambda>priv.
       println (hex_encode (ce_ext V) (master_pubkey (ce_crypto V) priv)))"

definition key_seal :: "ctl_env \<Rightarrow> rstr \<Rightarrow> rstr option \<Rightarrow> rstr option \<Rightarrow> rstr option \<Rightarrow> unit ctl_op" where
  "key_seal V key_file to input output =
     bind_s (load_private_key V key_file) (\<lambda>priv.
     bind_s (lift_r (case to of
                       Some h \<Rightarrow> ok_or (CtlMessage ''--to must be 32 bytes of hex'') (decode_hex_32 (ce_ext V) h)
                     | None \<Rightarrow> Inr (master_pubkey (ce_crypto V) priv))) (\<lambda>recipient.
     bind_s (read_input V input) (\<lambda>data.
     bind_s (ctl_rand 32) (\<lambda>ephemeral.
     bind_s (ctl_rand 12) (\<lambda>nonce.
       write_output output (seal_envelope (ce_crypto V) ephemeral nonce recipient data))))))"

definition show_seal_error :: "seal_error \<Rightarrow> rstr" where
  "show_seal_error e =
     (case e of
        BadMagic \<Rightarrow> ''not a sealed envelope (bad magic)''
      | BadVersion v \<Rightarrow> ''unsupported envelope version '' @ show_nat (byte v)
      | TooShort \<Rightarrow> ''envelope too short''
      | SealDecryptFailed \<Rightarrow> ''failed to decrypt (wrong key or corrupted data)'')"

definition key_unseal :: "ctl_env \<Rightarrow> rstr \<Rightarrow> rstr option \<Rightarrow> rstr option \<Rightarrow> unit ctl_op" where
  "key_unseal V key_file input output =
     bind_s (load_private_key V key_file) (\<lambda>priv.
     bind_s (read_input V input) (\<lambda>envelope.
     bind_s (lift_r (case open_envelope (ce_crypto V) priv envelope of
                       Inl e \<Rightarrow> ctl_msg (''unseal failed: '' @ show_seal_error e)
                     | Inr data \<Rightarrow> Inr data)) (write_output output)))"

definition key_run :: "ctl_env \<Rightarrow> key_action \<Rightarrow> unit ctl_op" where
  "key_run V action =
     (case action of
        KeyGenerate out pub_out force \<Rightarrow> key_generate V out pub_out force
      | KeyPubkey key hx \<Rightarrow> key_pubkey V key hx
      | KeySeal key to input output \<Rightarrow> key_seal V key to input output
      | KeyUnseal key input output \<Rightarrow> key_unseal V key input output)"

subsection \<open>The command line\<close>

datatype ctl_command =
    CmdStatus
  | CmdConfig config_action
  | CmdSettings settings_action
  | CmdUser user_action
  | CmdShare share_action
  | CmdKeyring keyring_action
  | CmdKey key_action
  | CmdAttest rstr rstr
  | CmdEmulate rstr rstr rstr rstr rstr
  | CmdTx tx_action
  | CmdDomainkey
  | CmdSend rstr rstr rstr bool "rstr option"

text \<open>A configuration command prints what it returns.\<close>

definition config_op :: "ctl_env \<Rightarrow> rstr option \<Rightarrow> config_action \<Rightarrow> unit ctl_op" where
  "config_op V p action c =
     (case config_run (ce_toml V) p action (w_files (ct_world c)) of (r, fs) \<Rightarrow>
        (let c' = c\<lparr>ct_world := (ct_world c)\<lparr>w_files := fs\<rparr>\<rparr> in
         case r of Inl e \<Rightarrow> (Inl e, c') | Inr text \<Rightarrow> println text c'))"

definition ctl_run :: "ctl_env \<Rightarrow> rstr option \<Rightarrow> ctl_command \<Rightarrow> unit ctl_op" where
  "ctl_run V p cmd =
     (case cmd of
        CmdStatus \<Rightarrow> status_run V p
      | CmdConfig action \<Rightarrow> config_op V p action
      | CmdSettings action \<Rightarrow> settings_run V p action
      | CmdUser action \<Rightarrow> user_run V p action
      | CmdShare action \<Rightarrow> share_run V p action
      | CmdKeyring action \<Rightarrow> keyring_run V p action
      | CmdKey action \<Rightarrow> key_run V action
      | CmdAttest user mode \<Rightarrow> attest_run V p user mode
      | CmdEmulate recipient from_name from_address amount invoice \<Rightarrow>
          emulate_run V p recipient from_name from_address amount invoice
      | CmdTx action \<Rightarrow> tx_run V p action
      | CmdDomainkey \<Rightarrow> domainkey_pubkey V p
      | CmdSend sender recipient file plaintext mid \<Rightarrow> send_run V p sender recipient file plaintext mid)"

end
