(* ===== verification/Ctl_Claims.thy ===== *)
theory Ctl_Claims
  imports Ctl_Remote Imap_Server
begin

text \<open>
  What the control tool does to the daemon's world. A command is a sequence of steps on the world; what
  every step keeps, the command keeps: the contract is stated once for a relation between worlds and
  used for the store's invariant and for the commands that only read. Then the tool is compared with
  the daemon: registration, the books of a sent invoice, and app passwords.
\<close>

named_theorems ctl_intros \<open>steps of the control tool that stay within a relation\<close>

definition within :: "(world \<Rightarrow> world \<Rightarrow> bool) \<Rightarrow> 'a ctl_op \<Rightarrow> bool" where
  "within R f \<longleftrightarrow> (\<forall>c. R (ct_world c) (ct_world (snd (f c))))"

lemma within_cases [ctl_intros]:
  "within R f \<Longrightarrow> within R f' \<Longrightarrow> within R (if P then f else f')"
  "within R f \<Longrightarrow> (\<And>y. within R (g y)) \<Longrightarrow> within R (case x of None \<Rightarrow> f | Some y \<Rightarrow> g y)"
  "(\<And>y. within R (h y)) \<Longrightarrow> (\<And>y. within R (h' y)) \<Longrightarrow> within R (case r of Inl y \<Rightarrow> h y | Inr y \<Rightarrow> h' y)"
  "(\<And>a b. within R (k a b)) \<Longrightarrow> within R (case q of (a, b) \<Rightarrow> k a b)"
  by (simp_all split: option.split sum.split prod.split)

locale ctl_contract =
  fixes R :: "world \<Rightarrow> world \<Rightarrow> bool"
  assumes same: "R w w"
    and further: "R u v \<Longrightarrow> R v w \<Longrightarrow> R u w"
    and clock: "R w (snd (tick w))"
    and random: "R w (snd (draw n w))"
begin

lemma keep_world: "(\<And>c. ct_world (snd (f c)) = ct_world c) \<Longrightarrow> within R f"
  by (simp add: within_def same)

lemma bind [ctl_intros]: "within R f \<Longrightarrow> (\<And>a. within R (g a)) \<Longrightarrow> within R (bind_s f g)"
  unfolding within_def bind_s_def by (auto split: prod.splits sum.splits) (metis further snd_conv)+

lemma plain [ctl_intros]:
  "within R (lift_r r)" "within R (println s)" "within R (print_raw s)" "within R (eprintln s)"
  "within R (ctx_load V p)" "within R (ctl_domain_key V cfg)" "within R (read_file t V path)"
  by (rule keep_world; simp add: lift_r_def println_def print_raw_def eprintln_def ctx_load_def ctl_domain_key_def
        read_file_def Let_def split: sum.split option.split)+

lemma now [ctl_intros]: "within R unix_now"
  using clock by (simp add: within_def unix_now_def split: prod.split) (metis snd_conv)

lemma rand [ctl_intros]: "within R (ctl_rand n)"
  using random by (simp add: within_def ctl_rand_def split: prod.split) (metis snd_conv)

lemma each [ctl_intros]: "(\<And>x. within R (f x)) \<Longrightarrow> within R (for_each f xs)"
  by (induction xs) (auto intro!: ctl_intros)

lemma store_now [ctl_intros]: "(\<And>t. within R (ctl_store (f t))) \<Longrightarrow> within R (ctl_store_now f)"
  by (simp add: ctl_store_now_def bind now)

lemma hash_pw [ctl_intros]: "within R (ctl_hash_password V pw)"
  unfolding ctl_hash_password_def by (intro ctl_intros)

lemma input [ctl_intros]: "within R (read_input V i)" "within R (load_private_key V path)"
  unfolding read_input_def load_private_key_def by (intro ctl_intros)+

end

subsection \<open>The books of an outbound invoice\<close>

text \<open>The service a daemon with this configuration would use to record what it sends.\<close>

definition ctl_service :: "ctl_env \<Rightarrow> config \<Rightarrow> bytes \<Rightarrow> secure_service" where
  "ctl_service V cfg key =
     service_with_template
       (service_new (ce_ext V) (ce_dns V) (ce_vars V) (gn_domain (cf_general cfg))
         (let ep = nw_send_endpoint (cf_network cfg) in if ep = [] then None else Some ep) key)
       (mx_template_path (cf_mailbox cfg)) (gn_data_dir (cf_general cfg))"

lemma ctl_service_sel [simp]:
  "sv_sender_domain (ctl_service V cfg key) = gn_domain (cf_general cfg)"
  "sv_domain_key (ctl_service V cfg key) = key"
  "sv_resolver (ctl_service V cfg key) = doh_resolving_key (ce_ext V) (ce_dns V) (ce_vars V) DOH_ENDPOINT"
  "sv_endpoint_resolver (ctl_service V cfg key) = doh_resolve_endpoint (ce_dns V) (ce_vars V) DOH_ENDPOINT"
  "sv_send_endpoint (ctl_service V cfg key) =
     (if nw_send_endpoint (cf_network cfg) = [] then None else Some (nw_send_endpoint (cf_network cfg)))"
  "sv_template_path (ctl_service V cfg key) = mx_template_path (cf_mailbox cfg)"
  "sv_data_dir (ctl_service V cfg key) = gn_data_dir (cf_general cfg)"
  by (simp_all add: ctl_service_def service_with_template_def service_new_def Let_def)

lemma render_sent_ctl:
  "ctl_render_sent V cfg (sender @ CHR ''@'' # gn_domain (cf_general cfg)) body w =
   render_sent (ce_template V) (ctl_service V cfg key) sender body w"
  by (simp add: ctl_render_sent_def render_sent_def service_template_def Let_def)

lemma sent_copy_ctl:
  "sent_copy (ce_template V) (ctl_service V cfg key) tid sender recipient mid body w =
     (case fst (get_user sender (w_store w)) of
        Inr (Some user) \<Rightarrow>
          (case ctl_render_sent V cfg (sender @ CHR ''@'' # gn_domain (cf_general cfg)) body w of ((subject, stored_body), w1) \<Rightarrow>
             (let msg = \<lparr>nm_message_id = mid, nm_subject = subject, nm_body = stored_body, nm_flags = flags_default,
                         nm_sender = recipient, nm_trust_state = ''unverified''\<rparr> in
              case tick w1 of (now, w2) \<Rightarrow>
              (case on_store (append_message_to now (user_id user) SENT msg) w2 of
                 (Inr meta, w3) \<Rightarrow>
                   (case tick w3 of (now', w4) \<Rightarrow> snd (on_store (tx_link_message now' tid (mm_id meta)) w4))
               | (Inl _, w3) \<Rightarrow> w3)))
      | _ \<Rightarrow> w)"
  unfolding sent_copy_def render_sent_ctl[of V cfg sender body _ key, symmetric] ..

lemma record_outbound_ctl:
  "record_outbound V cfg sender recipient mid p body st w =
   record_outbound_tx (ce_template V) (ctl_service V cfg key) sender recipient mid p body st w"
proof -
  let ?found = "fst (tx_by_message_id TxOut mid (w_store w))"
  show ?thesis
  proof (cases "\<exists>t. ?found = Inr (Some t)")
    case True
    then show ?thesis
      by (auto simp: record_outbound_def record_outbound_tx_def sent_copy_ctl split: prod.split)
  next
    case False
    obtain now v where t: "tick w = (now, v)" by fastforce
    obtain r v' where c: "on_store (tx_create now (outbound_tx (ctl_service V cfg key) sender recipient mid p body st)) v = (r, v')"
      by fastforce
    have f: "(case ?found of Inr (Some e) \<Rightarrow> g e | _ \<Rightarrow> h) = h" for g :: "transaction \<Rightarrow> 'b" and h
      using False by (auto split: sum.split option.split)
    show ?thesis using c
      unfolding record_outbound_def record_outbound_tx_def f t
      by (cases r) (auto simp: outbound_tx_def sent_copy_ctl)
  qed
qed

subsection \<open>The store's invariant\<close>

definition store_kept :: "world \<Rightarrow> world \<Rightarrow> bool" where
  "store_kept w w' \<longleftrightarrow> (store_inv (w_store w) \<longrightarrow> store_inv (w_store w'))"

interpretation kept: ctl_contract store_kept
  by unfold_locales (auto simp: store_kept_def tick_def draw_def)

lemma kept_store [ctl_intros]: "keeps store_inv f \<Longrightarrow> within store_kept (ctl_store f)"
  by (auto simp: within_def store_kept_def ctl_store_def on_store_def keeps_def split: prod.splits sum.splits)

lemma kept_queries [inv_intros]:
  "keeps P list_users" "keeps P list_settings" "keeps P (get_user u)" "keeps P (get_setting k)"
  "keeps P (list_shares i)" "keeps P (list_keyring i)" "keeps P (tx_get i)" "keeps P (tx_list d s)"
  unfolding list_users_def list_settings_def get_user_def get_setting_def list_shares_def list_keyring_def tx_get_def tx_list_def
  by (rule inv_intros)+

lemma kept_files [ctl_intros]: "within store_kept (write_file path b)" "within store_kept (config_op V p a)"
  by (simp_all add: within_def store_kept_def write_file_def config_op_def println_def print_raw_def Let_def split: prod.split sum.split)

lemma kept_new [ctl_intros]: "within store_kept (write_new path b force)"
  using kept_files(1)[of path b] by (simp add: within_def write_new_def store_kept_def)

lemma kept_record: "store_inv (w_store w) \<Longrightarrow> store_inv (w_store (record_outbound V cfg sender recipient mid p body st w))"
  using only_grows_record_out[of w "ce_template V" "ctl_service V cfg []" sender recipient mid p body st]
  by (simp add: record_outbound_ctl[of V cfg sender recipient mid p body st w "[]"] only_grows_def)

text \<open>A delivery leaves the world alone, or records its outcome in a world with the same store.\<close>

lemma deliver_invoice_world:
  "ct_world (snd (deliver_invoice V cfg sender recipient mid p body c)) = ct_world c \<or>
   (\<exists>st w. ct_world (snd (deliver_invoice V cfg sender recipient mid p body c)) =
      record_outbound V cfg sender recipient mid p body st w \<and> w_store w = w_store (ct_world c))"
proof -
  obtain rnd w1 issued w2 now w3 where
    s: "draw 16 (ct_world c) = (rnd, w1)" "tick w1 = (issued, w2)" "tick w2 = (now, w3)" by fastforce
  then have "w_store w3 = w_store (ct_world c)" by (auto simp: draw_def tick_def)
  then show ?thesis
    unfolding deliver_invoice_def Let_def s prod.case by (auto split: option.split sum.split)
qed

lemma kept_deliver [ctl_intros]: "within store_kept (deliver_invoice V cfg sender recipient mid p body)"
  unfolding within_def store_kept_def using deliver_invoice_world kept_record by metis

lemma kept_users [ctl_intros]: "within store_kept (require_user cfg u)" "within store_kept (require_tx i)"
  unfolding require_user_def require_tx_def by (intro ctl_intros inv_intros)+

lemma kept_init_shares [ctl_intros]: "within store_kept (init_shares V uid n)"
  unfolding init_shares_def add_one_share_def Let_def by (intro ctl_intros inv_intros)

lemma kept_user_create [ctl_intros]: "within store_kept (user_create V cfg u pw key ivk n)"
  unfolding user_create_def Let_def by (intro ctl_intros inv_intros)

lemma kept_status [ctl_intros]: "within store_kept (status_run V p)"
proof -
  have "within store_kept (\<lambda>c. for_each println (f c) c)" for f
    using kept.each[of println "f _"] kept.plain(2) by (simp add: within_def)
  then show ?thesis unfolding status_run_def Let_def by (intro ctl_intros inv_intros)
qed

lemma kept_accounts [ctl_intros]:
  "within store_kept (settings_run V p sa)" "within store_kept (user_run V p ua)" "within store_kept (share_run V p ha)"
  "within store_kept (keyring_run V p ka)" "within store_kept (domainkey_pubkey V p)"
proof -
  show "within store_kept (settings_run V p sa)"
    unfolding settings_run_def by (cases sa) (simp_all, (intro ctl_intros inv_intros)+)
  show "within store_kept (user_run V p ua)"
    unfolding user_run_def user_show_def by (cases ua) (simp_all, (intro ctl_intros inv_intros)+)
  show "within store_kept (share_run V p ha)"
    unfolding share_run_def by (cases ha) (simp_all, (intro ctl_intros inv_intros)+)
  show "within store_kept (keyring_run V p ka)"
    unfolding keyring_run_def by (cases ka) (simp_all, (intro ctl_intros inv_intros)+)
  show "within store_kept (domainkey_pubkey V p)"
    unfolding domainkey_pubkey_def by (intro ctl_intros)
qed

lemma kept_output [ctl_intros]: "within store_kept (write_output o' b)"
  unfolding write_output_def by (intro ctl_intros)

lemma kept_key [ctl_intros]: "within store_kept (key_run V a)"
  unfolding key_run_def key_generate_def key_pubkey_def key_seal_def key_unseal_def Let_def
  by (cases a) (simp_all, (intro ctl_intros)+)

lemma kept_attest [ctl_intros]: "within store_kept (attest_run V p u m)" "within store_kept (emulate_run V p r n a m' f)"
  unfolding attest_run_def emulate_run_def print_attestation_def daemon_reply_def Let_def by (intro ctl_intros)+

lemma kept_send [ctl_intros]: "within store_kept (send_run V p s r f b mo)"
  unfolding send_run_def gen_message_id_def daemon_reply_def Let_def by (intro ctl_intros)

lemma kept_tx [ctl_intros]: "within store_kept (tx_run V p a)"
  unfolding tx_run_def tx_list_run_def tx_show_def tx_resolve_def tx_retry_def Let_def
  by (cases a) (simp_all, (intro ctl_intros inv_intros)+)

lemma kept_run: "within store_kept (ctl_run V p cmd)"
  unfolding ctl_run_def by (cases cmd) (simp_all add: ctl_intros)

subsection \<open>Commands that only read\<close>

definition untouched :: "world \<Rightarrow> world \<Rightarrow> bool" where
  "untouched w w' \<longleftrightarrow> w_store w' = w_store w \<and> w_files w' = w_files w \<and> w_events w' = w_events w"

interpretation quiet: ctl_contract untouched
  by unfold_locales (auto simp: untouched_def tick_def draw_def)

fun reads_only :: "ctl_command \<Rightarrow> bool" where
  "reads_only (CmdConfig (ConfigSet _ _)) = False"
| "reads_only (CmdSettings a) = (case a of SettingsList \<Rightarrow> True | SettingsGet _ \<Rightarrow> True | _ \<Rightarrow> False)"
| "reads_only (CmdUser a) = (case a of UserList \<Rightarrow> True | UserShow _ \<Rightarrow> True | _ \<Rightarrow> False)"
| "reads_only (CmdShare a) = (case a of ShareList _ \<Rightarrow> True | _ \<Rightarrow> False)"
| "reads_only (CmdKeyring a) = (case a of KeyringList _ \<Rightarrow> True | _ \<Rightarrow> False)"
| "reads_only (CmdKey a) = (case a of KeyPubkey _ _ \<Rightarrow> True | _ \<Rightarrow> False)"
| "reads_only (CmdTx a) = (case a of TxList _ _ \<Rightarrow> True | TxShow _ \<Rightarrow> True | _ \<Rightarrow> False)"
| "reads_only (CmdSend _ _ _ _ _) = False"
| "reads_only _ = True"

lemma quiet_query: "within untouched (ctl_store (query f))"
  by (simp add: within_def untouched_def ctl_store_def on_store_def query_def locked_def split: sum.split)

lemma quiet_queries [ctl_intros]:
  "within untouched (ctl_store list_users)" "within untouched (ctl_store list_settings)" "within untouched (ctl_store (get_user u))"
  "within untouched (ctl_store (get_setting k))" "within untouched (ctl_store (list_shares i))"
  "within untouched (ctl_store (list_keyring i))" "within untouched (ctl_store (tx_get i))" "within untouched (ctl_store (tx_list d s))"
  unfolding list_users_def list_settings_def get_user_def get_setting_def list_shares_def list_keyring_def tx_get_def tx_list_def
  by (rule quiet_query)+

lemma quiet_users [ctl_intros]: "within untouched (require_user cfg u)" "within untouched (require_tx i)"
  unfolding require_user_def require_tx_def by (intro ctl_intros)+

lemma quiet_config: "reads_only (CmdConfig a) \<Longrightarrow> within untouched (config_op V p a)"
  by (cases a) (simp_all add: within_def untouched_def config_op_def config_run_def println_def print_raw_def Let_def split: sum.split)

lemma quiet_status: "within untouched (status_run V p)"
proof -
  have "within untouched (\<lambda>c. for_each println (f c) c)" for f
    using quiet.each[of println "f _"] quiet.plain(2) by (simp add: within_def)
  then show ?thesis unfolding status_run_def Let_def by (intro ctl_intros)
qed

lemma quiet_run:
  assumes "reads_only cmd" shows "within untouched (ctl_run V p cmd)"
  using assms
proof (cases cmd)
  case (CmdConfig a) with assms show ?thesis unfolding ctl_run_def by (cases a) (simp_all add: quiet_config)
next
  case (CmdSettings a) with assms show ?thesis
    unfolding ctl_run_def settings_run_def by (cases a) (simp_all, (intro ctl_intros)+)
next
  case (CmdUser a) with assms show ?thesis
    unfolding ctl_run_def user_run_def user_show_def by (cases a) (simp_all, (intro ctl_intros)+)
next
  case (CmdShare a) with assms show ?thesis
    unfolding ctl_run_def share_run_def by (cases a) (simp_all, (intro ctl_intros)+)
next
  case (CmdKeyring a) with assms show ?thesis
    unfolding ctl_run_def keyring_run_def by (cases a) (simp_all, (intro ctl_intros)+)
next
  case (CmdKey a) with assms show ?thesis
    unfolding ctl_run_def key_run_def key_pubkey_def by (cases a) (simp_all, (intro ctl_intros)+)
next
  case (CmdTx a) with assms show ?thesis
    unfolding ctl_run_def tx_run_def tx_list_run_def tx_show_def by (cases a) (simp_all, (intro ctl_intros)+)
next
  case (CmdAttest u m) then show ?thesis
    unfolding ctl_run_def attest_run_def print_attestation_def Let_def by simp (intro ctl_intros)
next
  case (CmdEmulate r n a m f) then show ?thesis
    unfolding ctl_run_def emulate_run_def daemon_reply_def by simp (intro ctl_intros)
next
  case CmdDomainkey then show ?thesis unfolding ctl_run_def domainkey_pubkey_def by simp (intro ctl_intros)
next
  case CmdStatus then show ?thesis unfolding ctl_run_def by (simp add: quiet_status)
qed simp_all

lemma create_user_full_name: "fst (create_user_full now u h k ivk reg st) = Inr x \<Longrightarrow> user_name x = u"
  by (auto simp: create_user_full_def locked_def bind_op_def ret_op_def split: if_splits prod.splits sum.splits)

subsection \<open>A concrete tool\<close>

definition demo_env :: ctl_env where
  "demo_env =
     \<lparr>ce_ext = demo_ext, ce_json = demo_json, ce_template = demo_templates, ce_secure = demo_secure, ce_toml = demo_toml,
      ce_crypto = demo_crypto, ce_emulate = demo_emu, ce_dns = demo_dns, ce_vars = [COUNTERPARTY_PORT_SMTP \<mapsto> show_nat 4180, COUNTERPARTY_DOMAINKEY_HEX \<mapsto> concat (map hex_byte (demo_key 32))],
      ce_net = (\<lambda>_ _. Inl (ClIo ''refused'')), ce_socket = (\<lambda>_. Inl ''refused''), ce_prompt = (\<lambda>_. []), ce_stdin = [],
      ce_version = ''0.1.0''\<rparr>"

definition demo_ctl :: "store \<Rightarrow> ctl" where
  "demo_ctl st =
     \<lparr>ct_world = (demo_world st)\<lparr>w_files := [''t'' \<mapsto> ''new'', ''/var/domainkey'' \<mapsto> demo_key 32]\<rparr>, ct_out = [], ct_err = []\<rparr>"

lemma demo_ctx: "ctx_load demo_env (Some ''t'') (demo_ctl st) = (Inr demo_config, demo_ctl st)"
proof -
  have "config_load demo_toml [''t'' \<mapsto> ''new'', ''/var/domainkey'' \<mapsto> demo_key 32] ''t'' = Inr demo_config"
  proof -
    have "utf8_valid ''new''" "trim ''b.org'' = ''b.org''" by code_simp+
    then show ?thesis
      by (simp add: config_load_def read_to_string_def from_utf8_def demo_toml_def config_validate_def demo_config_def is_whitespace_def)
  qed
  then show ?thesis by (simp add: ctx_load_def demo_env_def demo_ctl_def)
qed

subsection \<open>Claims\<close>



text \<open>
  C25. \<^verbatim>\<open>talkctl user create\<close> and the daemon's REGISTER are the same operation: for a bare user name and the
  daemon's domain key, from the same world, the tool succeeds exactly when the daemon answers with
  success, and leaves the same world (the same user, mailboxes, password hash and signed registration); when
  one refuses, so does the other, with the same world.
\<close>

theorem user_create_as_register:
  assumes "ctx_load V p c = (Inr cfg, c)"
    and "w_files (ct_world c) (path_join (gn_data_dir (cf_general cfg)) ''domainkey'') = Some key" "length key = 32"
    and "CHR ''@'' \<notin> set u" "CHR '':'' \<notin> set u"
  shows "case secure_register (ce_ext V) (ce_json V) (ce_secure V) (ctl_service V cfg key) u pw pubkey ivk (ct_world c) of
      (RegisterOk, w') \<Rightarrow> user_run V p (UserCreate u (Some pw) pubkey ivk 0) c =
        (Inr (), c\<lparr>ct_world := w', ct_out := ct_out c @ [''ok: registered '' @ u @ [CHR 0x0A]]\<rparr>)
    | (RegisterError _, w') \<Rightarrow> \<exists>e. user_run V p (UserCreate u (Some pw) pubkey ivk 0) c = (Inl e, c\<lparr>ct_world := w'\<rparr>)"
proof -
  obtain salt w1 now w2 now' w3 where
    s: "draw 16 (ct_world c) = (salt, w1)" "tick w1 = (now, w2)" "tick w2 = (now', w3)" by fastforce
  have fs: "w_files w1 = w_files (ct_world c)" using s(1) by (auto simp: draw_def)
  note defs = user_run_def user_create_def secure_register_def bind_s_def lift_r_def assms(1) Let_def
  note steps = ctl_hash_password_def ctl_rand_def ctl_domain_key_def unix_now_def ctl_store_now_def ctl_store_def println_def
    print_raw_def validate_username_def build_registration_attestation_def ctl_msg_def
  show ?thesis
  proof (cases "decode_hex_32 (ce_ext V) pubkey")
    case None
    then show ?thesis by (simp add: defs)
  next
    case (Some k)
    consider "\<exists>h. ivk = Some h \<and> decode_hex_32 (ce_ext V) h = None" | "u = [] \<or> pw = []"
        "\<nexists>h. ivk = Some h \<and> decode_hex_32 (ce_ext V) h = None"
      | (ok) "u \<noteq> []" "pw \<noteq> []" "\<nexists>h. ivk = Some h \<and> decode_hex_32 (ce_ext V) h = None" by blast
    then show ?thesis
    proof cases
      case ok
      have ivk: "(case ivk of Some h \<Rightarrow> bind_r (ok_or (CtlMessage ''--ivk must be 32 bytes of hex'') (decode_hex_32 (ce_ext V) h)) (\<lambda>_. Inr (Some h))
          | None \<Rightarrow> Inr None) = Inr ivk" and no: "\<not> (case ivk of None \<Rightarrow> False | Some h \<Rightarrow> decode_hex_32 (ce_ext V) h = None)"
        using ok(3) by (auto split: option.split)
      show ?thesis
      proof (cases "hash_password (sx_argon2 (ce_secure V)) salt pw")
        case (Inl e)
        then show ?thesis using Some ok no by (simp add: defs steps ivk s assms(4,5))
      next
        case (Inr h)
        let ?reg = "reg_to_json (ce_json V) (reg_sign (ce_ext V) (gn_domain (cf_general cfg)) u k ivk now key)"
        obtain r w4 where r: "on_store (create_user_full now' u h k ivk (Some ?reg)) w3 = (r, w4)" by fastforce
        have "r = Inr x \<Longrightarrow> user_name x = u" for x
          using r create_user_full_name[of now' u h k ivk "Some ?reg" "w_store w3" x]
          by (auto simp: on_store_def split: prod.splits)
        then show ?thesis using Some ok no Inr r assms(2,3)
          by (cases r) (simp_all add: defs steps ivk s fs assms(4,5))
      qed
    qed (use Some in \<open>auto simp: defs ctl_msg_def split: option.split\<close>)
  qed
qed

theorem user_create_as_register_witness:
  "\<exists>w'. user_run demo_env (Some ''t'') (UserCreate ''ann'' (Some ''pw'') (hex_encode demo_ext (demo_key 32)) None 0) (demo_ctl bob_store) =
     (Inr (), (demo_ctl bob_store)\<lparr>ct_world := w', ct_out := [''ok: registered ann'' @ [CHR 0x0A]]\<rparr>)"
proof -
  let ?c = "demo_ctl bob_store"
  have k: "length (demo_key 32) = 32" "decode_hex_32 demo_ext (hex_encode demo_ext (demo_key 32)) = Some (demo_key 32)"
    using unhex_pairs_hex_byte[of "demo_key 32"] by (simp_all add: demo_key_def decode_hex_32_def demo_ext_def)
  have f: "w_files (ct_world ?c) (path_join (gn_data_dir (cf_general demo_config)) ''domainkey'') = Some (demo_key 32)"
    by (simp add: demo_ctl_def demo_config_def path_join_def)
  have u: "\<not> poisoned bob_store" "''ann'' \<notin> set (map u_username (users bob_store))" "store_inv bob_store"
    using demo_ready store_reach_inv[OF bob_reach] by (simp_all, code_simp)
  then have ok: "create_user_full now ''ann'' h k None reg bob_store \<noteq> (Inl e, x)" for now h k reg e x
    using create_user_full_eq[of bob_store now "''ann''" h k None reg] by (simp add: store_inv_def schema_inv_def)
  obtain out w' where r: "secure_register (ce_ext demo_env) (ce_json demo_env) (ce_secure demo_env)
      (ctl_service demo_env demo_config (demo_key 32)) ''ann'' ''pw'' (hex_encode demo_ext (demo_key 32)) None (ct_world ?c) = (out, w')"
    by fastforce
  have "out = RegisterOk"
    using r ok k(2) by (auto simp: secure_register_def demo_env_def demo_secure_def hash_password_def demo_argon2_def demo_ctl_def demo_world_def draw_def tick_def
        on_store_def Let_def split: prod.splits sum.splits)
  with user_create_as_register[OF demo_ctx f k(1), of "''ann''" "''pw''" "hex_encode demo_ext (demo_key 32)" None] r
  show ?thesis by (auto simp: demo_ctl_def demo_env_def)
qed


lemma demo_resolved:
  "doh_resolving_key demo_ext demo_dns (ce_vars demo_env) ep ''example.com'' = Inr (demo_key 32)"
  "doh_resolve_endpoint demo_dns (ce_vars demo_env) ep ''example.com'' = Inr (''127.0.0.1:'' @ show_nat 4180)"
proof -
  have n: "COUNTERPARTY_PORT_SMTP \<noteq> COUNTERPARTY_DOMAINKEY_HEX" "COUNTERPARTY_DOMAIN_ENV \<noteq> COUNTERPARTY_PORT_SMTP"
      "COUNTERPARTY_DOMAIN_ENV \<noteq> COUNTERPARTY_DOMAINKEY_HEX" "eq_ignore_ascii_case ''example.com'' COUNTERPARTY_DOMAIN" by code_simp+
  have c: "is_counterparty (ce_vars demo_env) ''example.com''" using n
    by (simp add: is_counterparty_def counterparty_domain_def demo_env_def)
  have l: "length (demo_key 32) = 32" by (simp add: demo_key_def)
  have h: "concat (map hex_byte (demo_key 32)) \<noteq> []" by (simp add: demo_key_def hex_byte_def set_replicate_conv_if)
  have t: "trim (concat (map hex_byte (demo_key 32))) = concat (map hex_byte (demo_key 32))"
    using h hex_byte_range by (intro trim_token printable_token) auto
  show "doh_resolving_key demo_ext demo_dns (ce_vars demo_env) ep ''example.com'' = Inr (demo_key 32)"
    using c n unhex_pairs_hex_byte[of "demo_key 32"] l
    by (simp add: doh_resolving_key_def counterparty_key_def demo_env_def t key_from_bytes_def demo_dns_def demo_ext_def)
  show "doh_resolve_endpoint demo_dns (ce_vars demo_env) ep ''example.com'' = Inr (''127.0.0.1:'' @ show_nat 4180)"
    using c n by (simp add: doh_resolve_endpoint_def counterparty_endpoint_def demo_env_def trim_token[OF token_show_nat] parse_uint_show_nat)
qed


subsection \<open>App passwords\<close>

text \<open>One turn of the loop over the new shares: the row it stores and the line it prints.\<close>

definition share_row_of :: "ctl_env \<Rightarrow> int \<Rightarrow> wrapped_by_share \<Rightarrow> share_row" where
  "share_row_of V uid w =
     \<lparr>sh_user_id = uid, sh_share_id = hex_encode (ce_ext V) (ws_share_id w), sh_wrapped_dk = ws_wrapped w, sh_revoked = 0\<rparr>"

definition share_line :: "ctl_env \<Rightarrow> bytes \<times> wrapped_by_share \<Rightarrow> bytes" where
  "share_line V = (\<lambda>(secret, w). print_share V (hex_encode (ce_ext V) (ws_share_id w)) secret @ [CHR 0x0A])"

lemma add_one_share_ok:
  "ctl_store (add_share uid (hex_encode (ce_ext V) (ws_share_id w)) (ws_wrapped w)) c = (Inr (), c1) \<Longrightarrow>
   add_one_share V uid (s, w) c = (Inr (), c1\<lparr>ct_out := ct_out c1 @ [share_line V (s, w)]\<rparr>)"
  by (simp add: add_one_share_def Let_def bind_s_ok println_def print_raw_def share_line_def)

lemma share_loop:
  assumes "for_each (add_one_share V uid) ps c = (Inr (), c')"
  shows "ct_out c' = ct_out c @ map (share_line V) ps \<and>
    (let st = w_store (ct_world c); st' = w_store (ct_world c') in
     st' = st\<lparr>shares := shares st @ map (share_row_of V uid \<circ> snd) ps\<rparr> \<and> (ps \<noteq> [] \<longrightarrow> \<not> poisoned st))"
  using assms
proof (induction ps arbitrary: c)
  case Nil
  then show ?case by (simp add: lift_r_def)
next
  case (Cons q ps)
  obtain s w where q: "q = (s, w)" by fastforce
  obtain c1 where step: "ctl_store (add_share uid (hex_encode (ce_ext V) (ws_share_id w)) (ws_wrapped w)) c = (Inr (), c1)"
    using Cons.prems by (auto simp: q add_one_share_def Let_def elim!: bind_s_cases)
  have c1: "ct_out c1 = ct_out c" "\<not> poisoned (w_store (ct_world c))"
      "w_store (ct_world c1) = (w_store (ct_world c))\<lparr>shares := shares (w_store (ct_world c)) @ [share_row_of V uid w]\<rparr>"
    using step by (auto simp: ctl_store_def on_store_def add_share_def locked_def share_row_of_def split: if_splits)
  have "for_each (add_one_share V uid) ps (c1\<lparr>ct_out := ct_out c1 @ [share_line V q]\<rparr>) = (Inr (), c')"
    using Cons.prems bind_s_ok[of "add_one_share V uid q" c "()" _ "\<lambda>_. for_each (add_one_share V uid) ps", OF add_one_share_ok[OF step, of s, folded q]]
    by simp
  from Cons.IH[OF this] c1 show ?case by (simp add: Let_def q)
qed

lemma draw_length: "draw n w = (b, w') \<Longrightarrow> length b = n \<and> w_store w' = w_store w"
  by (auto simp: draw_def)

lemma split_keys_nth: "length b = 32 * n \<Longrightarrow> s \<in> set (split_keys n b) \<Longrightarrow> length s = 32"
  by (auto simp: split_keys_def)

lemma wrapped_opens:
  assumes "aead_ok K" "length dk = 32" "length r = 28 * length secrets" "i < length secrets" "length (secrets ! i) = 32"
    and "ws_wrapped w = ws_wrapped (share_wrap K (stream_rng r) dk secrets ! i)"
  shows "is_ok (share_unwrap K (secrets ! i) w)"
  using assms aead_open_seal[of K "secrets ! i" "snd (stream_rng r i)" dk]
  by (simp add: share_unwrap_def share_wrap_nth is_ok_def stream_rng_def KEY_LEN_def)

lemma init_shares_ok:
  assumes "init_shares V uid n c = (Inr (), c')"
  obtains dk b r where "length dk = 32" "length b = 32 * unat n" "length r = 28 * unat n"
    "let secrets = split_keys (unat n) b; ps = zip secrets (share_wrap (ce_crypto V) (stream_rng r) dk secrets);
         st = w_store (ct_world c); st' = w_store (ct_world c') in
     ct_out c' = ct_out c @ map (share_line V) ps @ [''ok: registered '' @ show_nat (unat n) @ '' shares'' @ [CHR 0x0A]] \<and>
     st' = st\<lparr>shares := shares st @ map (share_row_of V uid \<circ> snd) ps\<rparr> \<and> (ps \<noteq> [] \<longrightarrow> \<not> poisoned st)"
proof -
  obtain dk w1 b w2 r w3 where d: "draw 32 (ct_world c) = (dk, w1)" "draw (32 * unat n) w1 = (b, w2)" "draw (28 * unat n) w2 = (r, w3)"
    by fastforce
  let ?c = "c\<lparr>ct_world := w3\<rparr>" and ?secrets = "split_keys (unat n) b"
  let ?ps = "zip ?secrets (share_wrap (ce_crypto V) (stream_rng r) dk ?secrets)"
  let ?last = "println (''ok: registered '' @ show_nat (unat n) @ '' shares'')"
  let ?note = "eprintln (''note: share secrets above are app passwords; store them safely. '' @ ''The DK is not stored by the server.'')"
  have rands: "ctl_rand 32 c = (Inr dk, c\<lparr>ct_world := w1\<rparr>)" "ctl_rand (32 * unat n) (c\<lparr>ct_world := w1\<rparr>) = (Inr b, c\<lparr>ct_world := w2\<rparr>)"
      "ctl_rand (28 * unat n) (c\<lparr>ct_world := w2\<rparr>) = (Inr r, ?c)"
    using d by (simp_all add: ctl_rand_def)
  have "bind_s (for_each (add_one_share V uid) ?ps) (\<lambda>_. bind_s ?note (\<lambda>_. ?last)) ?c = (Inr (), c')"
    using assms unfolding init_shares_def Let_def 
    by (simp only: bind_s_ok[where f = "ctl_rand 32", OF rands(1)] bind_s_ok[where f = "ctl_rand (32 * unat n)", OF rands(2)]
        bind_s_ok[where f = "ctl_rand (28 * unat n)", OF rands(3)])
  then obtain c1 where "for_each (add_one_share V uid) ?ps ?c = (Inr (), c1)" "bind_s ?note (\<lambda>_. ?last) c1 = (Inr (), c')"
    by (auto elim!: bind_s_cases[of "for_each (add_one_share V uid) ?ps"])
  then have l: "for_each (add_one_share V uid) ?ps ?c = (Inr (), c1)"
      "ct_out c' = ct_out c1 @ [''ok: registered '' @ show_nat (unat n) @ '' shares'' @ [CHR 0x0A]]" "ct_world c' = ct_world c1"
    by (auto simp: bind_s_def eprintln_def println_def print_raw_def)
  have "length dk = 32" "length b = 32 * unat n" "length r = 28 * unat n" "w_store w3 = w_store (ct_world c)"
    using d by (auto dest!: draw_length)
  with share_loop[OF l(1)] l(2,3) show thesis
    by (intro that[of dk b r]) (simp_all add: Let_def)
qed

lemma require_user_ok:
  assumes "require_user cfg name c = (Inr u, c')"
  obtains loc where "local_username name (gn_domain (cf_general cfg)) = Some loc" "get_user loc (w_store (ct_world c)) = (Inr (Some u), w_store (ct_world c))" "c' = c"
proof (cases "local_username name (gn_domain (cf_general cfg))")
  case None
  then show thesis using assms by (simp add: require_user_def)
next
  case (Some loc)
  obtain r where g: "get_user loc (w_store (ct_world c)) = (r, w_store (ct_world c))"
    by (cases "poisoned (w_store (ct_world c))") (simp_all add: get_user_def query_def locked_def)
  with Some assms have "r = Inr (Some u) \<and> c' = c"
    by (cases r) (auto simp: require_user_def bind_s_def ctl_store_def on_store_def lift_r_def ok_or_def split: option.splits)
  with g Some show thesis by (intro that[of loc]) simp_all
qed

text \<open>
  C26. App passwords end to end: when \<^verbatim>\<open>talkctl share init\<close> succeeds for a user, it prints one line per share and
  every secret it prints, given as the password of the user's \<^verbatim>\<open>:app\<close> login name, opens an IMAP session of that
  user: the share unlocks the data key wrapped for it in the store.
\<close>

theorem printed_secrets_log_in:
  assumes "aead_ok (ce_crypto V)" "hex_ok (ce_ext V)" and ctx: "ctx_load V p c = (Inr cfg, c)"
    and run: "share_run V p (ShareInit name n) c = (Inr (), c')"
  shows "\<exists>u loc ids secrets.
    local_username name (gn_domain (cf_general cfg)) = Some loc \<and> fst (get_user loc (w_store (ct_world c))) = Inr (Some u) \<and>
    length ids = unat n \<and> length secrets = unat n \<and>
    ct_out c' = ct_out c @ map (\<lambda>(i, s). print_share V i s @ [CHR 0x0A]) (zip ids secrets) @
      [''ok: registered '' @ show_nat (unat n) @ '' shares'' @ [CHR 0x0A]] \<and>
    (\<forall>s \<in> set secrets. \<forall>tag sess. is_domain sess = gn_domain (cf_general cfg) \<longrightarrow>
       imap_login (ce_ext V) (ce_crypto V) S X tag (name @ '':app'') (hex_encode (ce_ext V) s) sess (w_store (ct_world c')) =
         (tagged tag ImapOk ''LOGIN completed (app password)'', logged_in sess u))"
proof -
  obtain u c1 where u: "require_user cfg name c = (Inr u, c1)" "init_shares V (user_id u) n c1 = (Inr (), c')"
    using run unfolding share_run_def bind_s_ok[where f = "ctx_load V p", OF ctx]
    by (auto simp: lift_r_def ctl_msg_def split: if_splits elim!: bind_s_cases)
  obtain loc where loc: "local_username name (gn_domain (cf_general cfg)) = Some loc"
      "get_user loc (w_store (ct_world c)) = (Inr (Some u), w_store (ct_world c))"
      "c1 = c" using require_user_ok[OF u(1)] .
  obtain dk b r where len: "length dk = 32" "length b = 32 * unat n" "length r = 28 * unat n"
    and eff: "let secrets = split_keys (unat n) b; ps = zip secrets (share_wrap (ce_crypto V) (stream_rng r) dk secrets);
         st = w_store (ct_world c); st' = w_store (ct_world c') in
     ct_out c' = ct_out c @ map (share_line V) ps @ [''ok: registered '' @ show_nat (unat n) @ '' shares'' @ [CHR 0x0A]] \<and>
     st' = st\<lparr>shares := shares st @ map (share_row_of V (user_id u) \<circ> snd) ps\<rparr> \<and> (ps \<noteq> [] \<longrightarrow> \<not> poisoned st)"
    using init_shares_ok[OF u(2)] loc(3) by metis
  define secrets where "secrets = split_keys (unat n) b"
  define wrappers where "wrappers = share_wrap (ce_crypto V) (stream_rng r) dk secrets"
  have n: "length secrets = unat n" "length wrappers = unat n" by (simp_all add: secrets_def wrappers_def split_keys_def share_wrap_def)
  note eff' = eff[unfolded Let_def, folded secrets_def, folded wrappers_def]
  have "map (share_line V) (zip secrets wrappers) =
      map (\<lambda>(i, s). print_share V i s @ [CHR 0x0A]) (zip (map (\<lambda>w. hex_encode (ce_ext V) (ws_share_id w)) wrappers) secrets)"
    by (rule nth_equalityI) (simp_all add: n share_line_def)
  moreover have "imap_login (ce_ext V) (ce_crypto V) S X tag (name @ '':app'') (hex_encode (ce_ext V) s) sess (w_store (ct_world c')) =
         (tagged tag ImapOk ''LOGIN completed (app password)'', logged_in sess u)"
    if s: "s \<in> set secrets" and dom: "is_domain sess = gn_domain (cf_general cfg)" for s tag sess
  proof -
    obtain i where i: "i < unat n" "s = secrets ! i" using s n by (auto simp: in_set_conv_nth)
    have l: "length s = 32" using split_keys_nth[OF len(2)] s by (simp add: secrets_def)
    have g: "fst (get_user loc (w_store (ct_world c'))) = Inr (Some u)" and np: "\<not> poisoned (w_store (ct_world c'))"
      using loc(2) eff' i n by (auto simp: get_user_def query_def locked_def split: if_splits)
    let ?w = "wrapped_share (ce_ext V) (hex_encode (ce_ext V) (ws_share_id (wrappers ! i)), ws_wrapped (wrappers ! i))"
    have "share_row_of V (user_id u) (wrappers ! i) \<in> set (shares (w_store (ct_world c')))"
      using eff' i n by (auto simp: in_set_conv_nth intro!: image_eqI[of _ _ "(secrets ! i, wrappers ! i)"] exI[of _ i])
    then have "\<exists>ws. fst (get_shares (user_id u) (w_store (ct_world c'))) = Inr ws \<and> ?w \<in> set (map (wrapped_share (ce_ext V)) ws)"
      using np by (force simp: get_shares_def query_def locked_def share_row_of_def)
    moreover have "is_ok (share_unwrap (ce_crypto V) s ?w)"
      using wrapped_opens[OF assms(1) len(1), of r secrets i] i n len l by (simp add: wrappers_def wrapped_share_def)
    ultimately have "app_password_ok (ce_ext V) (ce_crypto V) (hex_encode (ce_ext V) s) (user_id u) (w_store (ct_world c'))"
      using hex_ok_encode[OF assms(2), of s] hex_ok_decode[OF assms(2), of s] l
      by (auto simp: app_password_ok_def per_share.resolver_accepts_iff)
    then show ?thesis using loc(1) g dom by (simp add: imap_login_def Let_def login_text_def logged_in_def)
  qed
  ultimately show ?thesis using loc n eff'
    by (intro exI[of _ u] exI[of _ loc] exI[of _ "map (\<lambda>w. hex_encode (ce_ext V) (ws_share_id w)) wrappers"] exI[of _ secrets]) simp
qed

definition plain_imap :: imap_ext where
  "plain_imap = \<lparr>ix_format_internaldate = (\<lambda>_. None), ix_format_rfc2822 = (\<lambda>_. None), ix_zsmtp_group = None\<rparr>"

lemma init_one_share:
  assumes "\<not> poisoned (w_store (ct_world c))" "uid \<in> u_id ` set (users (w_store (ct_world c)))" "shares (w_store (ct_world c)) = []"
  shows "fst (init_shares V uid 1 c) = Inr ()"
proof -
  have ok: "\<exists>c'. add_one_share V uid q c0 = (Inr (), c')" if "w_store (ct_world c0) = w_store (ct_world c)" for q c0
  proof -
    have "\<exists>c1. ctl_store (add_share uid (hex_encode (ce_ext V) (ws_share_id (snd q))) (ws_wrapped (snd q))) c0 = (Inr (), c1)"
      using assms that by (simp add: ctl_store_def on_store_def add_share_def locked_def)
    then show ?thesis using add_one_share_ok[of uid V "snd q" c0 _ "fst q"] by (metis prod.collapse)
  qed
  obtain dk w1 b w2 r w3 where d: "draw 32 (ct_world c) = (dk, w1)" "draw 32 w1 = (b, w2)" "draw 28 w2 = (r, w3)" by fastforce
  then have "w_store w3 = w_store (ct_world c)" by (auto dest!: draw_length)
  then obtain c' where "add_one_share V uid (take 32 b, share_wrap (ce_crypto V) (stream_rng r) dk [take 32 b] ! 0) (c\<lparr>ct_world := w3\<rparr>) = (Inr (), c')"
    using ok[of "c\<lparr>ct_world := w3\<rparr>"] by auto
  then show ?thesis
    by (simp add: init_shares_def bind_s_def ctl_rand_def d split_keys_def share_wrap_def Let_def lift_r_def eprintln_def println_def print_raw_def)
qed

lemma demo_share_run: "fst (share_run demo_env (Some ''t'') (ShareInit ''bob'' 1) (demo_ctl bob_store)) = Inr ()"
proof -
  have f: "map_option user_id (map_option user_of_row (find (\<lambda>r. u_username r = ''bob'') (users bob_store))) = Some 1"
      "1 \<in> set (map u_id (users bob_store))" "shares bob_store = []" "local_username ''bob'' ''b.org'' = Some ''bob''" by code_simp+
  then obtain u where u: "map_option user_of_row (find (\<lambda>r. u_username r = ''bob'') (users bob_store)) = Some u" "user_id u = 1" by auto
  have st: "w_store (ct_world (demo_ctl bob_store)) = bob_store" by (simp add: demo_ctl_def demo_world_def)
  have "get_user ''bob'' bob_store = (Inr (Some u), bob_store)"
    using u demo_ready by (simp add: get_user_def query_def locked_def)
  then have "require_user demo_config ''bob'' (demo_ctl bob_store) = (Inr u, demo_ctl bob_store)"
    using f(4) by (simp add: require_user_def demo_config_def bind_s_def ctl_store_def on_store_def lift_r_def st)
  then show ?thesis
    using init_one_share[of "demo_ctl bob_store" 1 demo_env] f demo_ready u
    by (simp add: share_run_def bind_s_ok[where f = "ctx_load demo_env (Some ''t'')", OF demo_ctx]
        bind_s_ok[where f = "require_user demo_config ''bob''"] st)
qed

theorem printed_secrets_log_in_witness:
  "\<exists>c' i s. share_run demo_env (Some ''t'') (ShareInit ''bob'' 1) (demo_ctl bob_store) = (Inr (), c') \<and>
     ct_out c' = [print_share demo_env i s @ [CHR 0x0A], ''ok: registered 1 shares'' @ [CHR 0x0A]] \<and>
     fst (imap_login demo_ext demo_crypto demo_secure plain_imap ''a1'' ''bob:app'' (hex_encode demo_ext s)
       (new_session (server_with_domain ''b.org'' (imap_server_new ''h''))) (w_store (ct_world c'))) =
       tagged ''a1'' ImapOk ''LOGIN completed (app password)''"
proof -
  obtain c' where r: "share_run demo_env (Some ''t'') (ShareInit ''bob'' 1) (demo_ctl bob_store) = (Inr (), c')"
    using demo_share_run by (metis prod.collapse)
  have e: "aead_ok (ce_crypto demo_env)" "hex_ok (ce_ext demo_env)" "ce_ext demo_env = demo_ext" "ce_crypto demo_env = demo_crypto"
    "gn_domain (cf_general demo_config) = ''b.org''"
    "is_domain (new_session (server_with_domain ''b.org'' (imap_server_new ''h''))) = ''b.org''"
    using demo_aead_ok demo_hex_ok by (simp_all add: demo_env_def demo_config_def new_session_def server_with_domain_def)
  obtain u loc ids secrets where o: "length ids = 1" "length secrets = 1"
      "ct_out c' = ct_out (demo_ctl bob_store) @ map (\<lambda>(i, s). print_share demo_env i s @ [CHR 0x0A]) (zip ids secrets) @
        [''ok: registered '' @ show_nat 1 @ '' shares'' @ [CHR 0x0A]]"
      "\<forall>s \<in> set secrets. \<forall>tag sess. is_domain sess = ''b.org'' \<longrightarrow>
         imap_login demo_ext demo_crypto demo_secure plain_imap tag (''bob'' @ '':app'') (hex_encode demo_ext s) sess (w_store (ct_world c')) =
           (tagged tag ImapOk ''LOGIN completed (app password)'', logged_in sess u)"
    using printed_secrets_log_in[OF e(1,2) demo_ctx r, of demo_secure plain_imap] by (auto simp: e(3-5))
  obtain i s where one: "ids = [i]" "secrets = [s]" using o(1,2) by (auto simp: length_Suc_conv)
  have n: "show_nat 1 = ''1''" by code_simp
  show ?thesis
    by (rule exI[of _ c'], rule exI[of _ i], rule exI[of _ s]) (use r o(3,4) e(6) n in \<open>simp add: one demo_ctl_def\<close>)
qed

subsection \<open>Sealed files\<close>

lemma run_seal:
  assumes "w_files (ct_world c) k = Some priv" "length priv = 32" "w_files (ct_world c) f = Some data"
  obtains ephemeral nonce w where "length ephemeral = 32" "length nonce = 12" "w_files w = w_files (ct_world c)"
    "key_run V (KeySeal k None (Some f) (Some g)) c =
       (Inr (), c\<lparr>ct_world := w\<lparr>w_files := (w_files w)(g \<mapsto>
          seal_envelope (ce_crypto V) ephemeral nonce (master_pubkey (ce_crypto V) priv) data)\<rparr>\<rparr>)"
proof -
  obtain e w1 n w2 where d: "draw 32 (ct_world c) = (e, w1)" "draw 12 w1 = (n, w2)" by fastforce
  then have "length e = 32" "length n = 12" "w_files w2 = w_files (ct_world c)" by (auto simp: draw_def)
  with d assms show thesis
    by (intro that[of e n w2])
       (simp_all add: key_run_def key_seal_def load_private_key_def read_file_def read_input_def ctl_rand_def write_output_def
          write_file_def bind_s_def lift_r_def)
qed

text \<open>
  Sealed files: \<^verbatim>\<open>talkctl key seal\<close> with a key file writes an output that \<^verbatim>\<open>talkctl key unseal\<close> with the same
  key file turns back into the very input, whatever the bytes; both commands succeed and change no
  other file. With a key file that is missing or does not have 32 bytes neither writes anything.
\<close>

theorem sealed_file_roundtrip:
  assumes "aead_ok (ce_crypto V)" "dh_ok (ce_crypto V)"
    and "w_files (ct_world c) k = Some priv" "w_files (ct_world c) f = Some data" "g \<noteq> k"
  shows "if length priv = 32 then
      \<exists>c1 c2 env. key_run V (KeySeal k None (Some f) (Some g)) c = (Inr (), c1) \<and>
        key_run V (KeyUnseal k (Some g) (Some h)) c1 = (Inr (), c2) \<and>
        w_files (ct_world c2) = (w_files (ct_world c))(g \<mapsto> env, h \<mapsto> data)
    else \<exists>e. key_run V (KeySeal k None (Some f) (Some g)) c = (Inl e, c) \<and> key_run V (KeyUnseal k (Some g) (Some h)) c = (Inl e, c)"
proof (cases "length priv = 32")
  case True
  obtain ephemeral nonce w where s: "length ephemeral = 32" "length nonce = 12" "w_files w = w_files (ct_world c)"
    "key_run V (KeySeal k None (Some f) (Some g)) c =
       (Inr (), c\<lparr>ct_world := w\<lparr>w_files := (w_files w)(g \<mapsto>
          seal_envelope (ce_crypto V) ephemeral nonce (master_pubkey (ce_crypto V) priv) data)\<rparr>\<rparr>)"
    by (rule run_seal[OF assms(3) True assms(4), of V g])
  have o: "open_envelope (ce_crypto V) priv (seal_envelope (ce_crypto V) ephemeral nonce (master_pubkey (ce_crypto V) priv) data) = Inr data"
    by (rule open_seal[OF assms(1,2) s(1) True s(2)])
  show ?thesis using s(4) assms(3,5) True o
    by (simp add: key_run_def[of V "KeyUnseal _ _ _"] key_unseal_def load_private_key_def read_file_def read_input_def write_output_def
        write_file_def bind_s_def lift_r_def s(3)) blast
next
  case False
  then show ?thesis using assms(3)
    by (simp add: key_run_def key_seal_def key_unseal_def load_private_key_def read_file_def bind_s_def lift_r_def ctl_msg_def)
qed

theorem sealed_file_roundtrip_witness:
  "let c = (demo_ctl bob_store)\<lparr>ct_world := (demo_world bob_store)\<lparr>w_files := [''k'' \<mapsto> demo_key 32, ''f'' \<mapsto> ''secret'']\<rparr>\<rparr> in
   \<exists>c1 c2. key_run demo_env (KeySeal ''k'' None (Some ''f'') (Some ''g'')) c = (Inr (), c1) \<and>
     key_run demo_env (KeyUnseal ''k'' (Some ''g'') (Some ''h'')) c1 = (Inr (), c2) \<and> w_files (ct_world c2) ''h'' = Some ''secret''"
proof -
  define c where "c = (demo_ctl bob_store)\<lparr>ct_world := (demo_world bob_store)\<lparr>w_files := [''k'' \<mapsto> demo_key 32, ''f'' \<mapsto> ''secret'']\<rparr>\<rparr>"
  have e: "aead_ok (ce_crypto demo_env)" "dh_ok (ce_crypto demo_env)" "length (demo_key 32) = 32"
    using demo_aead_ok demo_dh_ok by (simp_all add: demo_env_def demo_key_def)
  have f: "w_files (ct_world c) ''k'' = Some (demo_key 32)" "w_files (ct_world c) ''f'' = Some ''secret''" by (simp_all add: c_def)
  have "''g'' \<noteq> ''k''" by simp
  from sealed_file_roundtrip[OF e(1,2) f this, of "''h''"] e(3) show ?thesis
    unfolding c_def[symmetric] Let_def by auto
qed

subsection \<open>Commands that trust too much or too little\<close>

text \<open>The user commands look a name up as a login name, but \<^verbatim>\<open>passwd\<close> then changes the row of the name as typed:
  for a qualified name of an existing user it fails after hashing, and no password changes.\<close>

lemma qualified_passwd_refused:
  assumes "ctx_load V p c = (Inr cfg, c)" "require_user cfg name c = (Inr u, c)"
    and "name \<notin> u_username ` set (users (w_store (ct_world c)))" "\<not> poisoned (w_store (ct_world c))"
    and "\<And>salt. \<exists>h. hash_password (sx_argon2 (ce_secure V)) salt pw = Inr h"
  shows "\<exists>c'. user_run V p (UserPasswd name (Some pw)) c = (Inl (CtlStore (UserNotFound name)), c') \<and>
    w_store (ct_world c') = w_store (ct_world c)"
proof -
  obtain salt w where d: "draw 16 (ct_world c) = (salt, w)" "w_store w = w_store (ct_world c)" by (simp add: draw_def)
  obtain h where h: "hash_password (sx_argon2 (ce_secure V)) salt pw = Inr h" using assms(5) by blast
  have "filter (\<lambda>r. u_username r = name) (users (w_store (ct_world c))) = []" using assms(3) by (auto simp: filter_empty_conv)
  moreover have "user_run V p (UserPasswd name (Some pw)) c =
      bind_s (ctl_hash_password V pw) (\<lambda>h. bind_s (ctl_store (set_password name h)) (\<lambda>_. println (''ok: password changed for '' @ name))) c"
    by (simp add: user_run_def bind_s_ok[where f = "ctx_load V p", OF assms(1)] bind_s_ok[where f = "require_user cfg name", OF assms(2)])
  ultimately show ?thesis using d h assms(4)
    by (simp add: ctl_hash_password_def bind_s_def ctl_rand_def lift_r_def ctl_store_def on_store_def set_password_def locked_def require_rows_def count_where_def)
qed

text \<open>\<^verbatim>\<open>tx mark-spent\<close> is documented for resolved transactions and \<^verbatim>\<open>tx fail\<close> for outbound ones; neither looks
  at the state, and \<^verbatim>\<open>fail\<close> does not look at the direction.\<close>

lemma tx_commands_ignore_state:
  assumes "ctx_load V p c = (Inr cfg, c)" "\<not> poisoned (w_store (ct_world c))"
    and "find (\<lambda>r. t_id r = i) (transactions (w_store (ct_world c))) = Some r" "t_direction r = ''in''"
  shows "fst (tx_run V p (TxMarkSpent i) c) = Inr () \<and> fst (tx_run V p (TxFail i) c) = Inr ()"
proof -
  have n: "count_where (\<lambda>r. t_id r = i) (transactions (w_store (ct_world c))) \<noteq> 0"
    using find_Some_in[OF assms(3)] by (auto simp: count_where_def filter_empty_conv)
  have t: "require_tx i c = (Inr (row_to_tx r), c)" "tx_dir (row_to_tx r) = TxIn"
    using assms by (auto simp: require_tx_def bind_s_def ctl_store_def on_store_def tx_get_def query_def locked_def lift_r_def
        row_to_tx_def tx_direction_parse_def)
  have "tx_run V p (TxMarkSpent i) c = bind_s (ctl_store_now (\<lambda>now. tx_transition now i TxSpent)) (\<lambda>_. println (''ok: tx '' @ show_int i @ '' -> spent'')) c"
      "tx_run V p (TxFail i) c = bind_s (ctl_store_now (\<lambda>now. tx_transition now i TxFailed)) (\<lambda>_. println (''ok: tx '' @ show_int i @ '' -> failed'')) c"
    using t(2) by (simp_all add: tx_run_def bind_s_ok[where f = "ctx_load V p", OF assms(1)] bind_s_ok[where f = "require_tx i", OF t(1)])
  then show ?thesis using n assms(2)
    by (simp add: bind_s_def ctl_store_now_def unix_now_def tick_def ctl_store_def on_store_def tx_transition_def locked_def require_rows_def
        println_def print_raw_def)
qed

end
