(* ===== verification/Daemon.thy ===== *)
theory Daemon
  imports Config Secure Imap_Server Tls
begin

text \<open>
  The daemon's sockets (\<^verbatim>\<open>talk-core/src/sockets.rs\<close>), the start and end of the daemon and the way it puts its
  services together from the configuration (\<^verbatim>\<open>talkd/src/main.rs\<close>), and the wallet binding of a user
  (\<^verbatim>\<open>talk-wallet/src/wallet.rs\<close>). What the operating system answers (removing and creating files,
  binding ports) is a record of functions.
\<close>

subsection \<open>Sockets\<close>

text \<open>A socket file is stale, or some process listens on it.\<close>

datatype sock = Stale | Live nat

type_synonym socks = "rstr \<Rightarrow> sock option"

datatype socket_error = StaleRemove rstr | ParentMkdir rstr | Bind rstr

record os_ext =
  os_remove :: "rstr \<Rightarrow> bool"
  os_mkdir :: "rstr \<Rightarrow> bool"
  os_bind :: "rstr \<Rightarrow> bool"
  os_tokio :: "rstr \<Rightarrow> rstr option"
  os_store :: "rstr \<Rightarrow> rstr option"
  os_tcp :: "rstr \<Rightarrow> rstr option"
  os_tls :: tls_ext

text \<open>Creating the parent directory of a path, when the path names one.\<close>

definition parent_ok :: "os_ext \<Rightarrow> rstr \<Rightarrow> bool" where
  "parent_ok OS path = (case path_parent path of None \<Rightarrow> True | Some d \<Rightarrow> d = [] \<or> os_mkdir OS d)"

definition is_listening :: "socks \<Rightarrow> rstr \<Rightarrow> bool" where
  "is_listening s path = (case s path of Some (Live _) \<Rightarrow> True | _ \<Rightarrow> False)"

definition socket_bind :: "os_ext \<Rightarrow> nat \<Rightarrow> rstr \<Rightarrow> socks \<Rightarrow> (socket_error, unit) result \<times> socks" where
  "socket_bind OS pid path s =
     (let stale = (s path \<noteq> None \<and> \<not> is_listening s path) in
      if stale \<and> \<not> os_remove OS path then (Inl (StaleRemove path), s)
      else
        (let s1 = (if stale then s(path := None) else s) in
         if \<not> parent_ok OS path then (Inl (ParentMkdir (unwrap_or [] (path_parent path))), s1)
         else if s1 path \<noteq> None \<or> \<not> os_bind OS path then (Inl (Bind path), s1)
         else (Inr (), s1(path \<mapsto> Live pid))))"

text \<open>Dropping a listener removes the file at its path.\<close>

definition socket_drop :: "rstr \<Rightarrow> socks \<Rightarrow> socks" where
  "socket_drop path s = s(path := None)"

text \<open>A process that dies without dropping its listeners leaves their files behind.\<close>

definition crash :: "nat \<Rightarrow> socks \<Rightarrow> socks" where
  "crash pid s path = (if s path = Some (Live pid) then Some Stale else s path)"

subsection \<open>The services of a daemon\<close>

definition imap_auth :: "cfg_auth_mode \<Rightarrow> auth_mode" where
  "imap_auth m = (case m of CfgDatabase \<Rightarrow> Database | CfgLocalAuth \<Rightarrow> LocalAuth)"

definition send_override :: "config \<Rightarrow> rstr option" where
  "send_override cfg = (let ep = nw_send_endpoint (cf_network cfg) in if ep = [] then None else Some ep)"

definition daemon_sink :: "config \<Rightarrow> sink_cfg" where
  "daemon_sink cfg =
     with_template (with_events sink_new) (mx_template_path (cf_mailbox cfg)) (gn_data_dir (cf_general cfg))"

definition daemon_service :: "ext \<Rightarrow> dns_ext \<Rightarrow> env \<Rightarrow> config \<Rightarrow> bytes \<Rightarrow> secure_service" where
  "daemon_service E X v cfg key =
     service_with_template
       (service_with_sink (service_new E X v (gn_domain (cf_general cfg)) (send_override cfg) key) (daemon_sink cfg))
       (mx_template_path (cf_mailbox cfg)) (gn_data_dir (cf_general cfg))"

definition daemon_imap :: "config \<Rightarrow> imap_server" where
  "daemon_imap cfg =
     server_with_auth_mode (imap_auth (cf_auth cfg)) (server_with_domain (gn_domain (cf_general cfg)) (imap_server_new ''talkd''))"

text \<open>One connection on the ZSMTP listeners, and one on the control socket.\<close>

definition daemon_zsmtp ::
    "ext \<Rightarrow> json_ext \<Rightarrow> template_ext \<Rightarrow> config \<Rightarrow> bytes \<Rightarrow> bytes \<Rightarrow> world \<Rightarrow> (framing_error, unit) result \<times> world conn" where
  "daemon_zsmtp E J T cfg key =
     serve_connection E J (draw 32) (gn_domain (cf_general cfg)) key (deliver T (daemon_sink cfg)) user_exists"

definition daemon_control ::
    "ext \<Rightarrow> json_ext \<Rightarrow> template_ext \<Rightarrow> secure_ext \<Rightarrow> emulate_json \<Rightarrow> network \<Rightarrow> dns_ext \<Rightarrow> env \<Rightarrow> config \<Rightarrow> bytes \<Rightarrow>
     bytes \<Rightarrow> world \<Rightarrow> (framing_error, unit) result \<times> world mconn" where
  "daemon_control E J T S M net X v cfg key =
     mailbox_serve M (secure_handler E J T S net (daemon_service E X v cfg key))"

text \<open>The additional plaintext IMAP port of \<^verbatim>\<open>UNSAFE_NO_TLS\<close>.\<close>

definition unsafe_imap_addr :: "env \<Rightarrow> rstr option" where
  "unsafe_imap_addr v =
     (if v ''UNSAFE_NO_TLS'' = None then None
      else Some (''127.0.0.1:'' @ show_nat (case v ''UNSAFE_IMAP_PORT'' of
             None \<Rightarrow> 143 | Some p \<Rightarrow> unwrap_or 143 (parse_uint u16_max p))))"

subsection \<open>Start and end\<close>

datatype boot_error = BootSocket socket_error | BootKey domain_key_error | BootStore rstr | BootIo rstr

record daemon =
  dm_config :: config
  dm_key :: bytes
  dm_tls :: "server_config option"

text \<open>The certificate of IMAP and ZSMTP. Where it cannot be loaded the daemon goes on without one.\<close>

definition tls_config :: "os_ext \<Rightarrow> config \<Rightarrow> files \<Rightarrow> server_config option" where
  "tls_config OS cfg fs =
     (if fs (tl_cert (cf_tls cfg)) \<noteq> None \<and> fs (tl_key (cf_tls cfg)) \<noteq> None
      then (case load_server_config (os_tls OS) fs (tl_cert (cf_tls cfg)) (tl_key (cf_tls cfg)) of
              Inr config \<Rightarrow> Some config | Inl _ \<Rightarrow> None)
      else None)"

text \<open>The remaining fallible steps have no effect of their own: the first that fails ends the start.\<close>

fun first_failure :: "rstr option list \<Rightarrow> rstr option" where
  "first_failure [] = None"
| "first_failure (Some e # _) = Some e"
| "first_failure (None # rs) = first_failure rs"

text \<open>The listeners bound so far are dropped when a later step fails.\<close>

definition daemon_boot ::
    "os_ext \<Rightarrow> nat \<Rightarrow> config \<Rightarrow> socks \<times> world \<Rightarrow> (boot_error, daemon) result \<times> socks \<times> world" where
  "daemon_boot OS pid cfg = (\<lambda>(s, w).
     (let mailbox_sock = sc_secure_mailbox (cf_sockets cfg); zsmtp_sock = sc_zsmtp (cf_sockets cfg);
          data_dir = gn_data_dir (cf_general cfg) in
      case socket_bind OS pid mailbox_sock s of
        (Inl e, s1) \<Rightarrow> (Inl (BootSocket e), s1, w)
      | (Inr _, s1) \<Rightarrow>
     (case load_or_create_domain_key data_dir w of
        (Inl e, w1) \<Rightarrow> (Inl (BootKey e), socket_drop mailbox_sock s1, w1)
      | (Inr key, w1) \<Rightarrow>
     (case os_store OS (path_join data_dir ''mailbox.db'') of
        Some e \<Rightarrow> (Inl (BootStore e), socket_drop mailbox_sock s1, w1)
      | None \<Rightarrow>
     (case socket_bind OS pid zsmtp_sock s1 of
        (Inl e, s2) \<Rightarrow> (Inl (BootSocket e), socket_drop mailbox_sock s2, w1)
      | (Inr _, s2) \<Rightarrow>
        (case first_failure
                [os_tokio OS zsmtp_sock, os_tokio OS mailbox_sock, os_tcp OS (sc_zsmtp_listen (cf_sockets cfg))] of
           Some e \<Rightarrow> (Inl (BootIo e), socket_drop mailbox_sock (socket_drop zsmtp_sock s2), w1)
         | None \<Rightarrow> (Inr \<lparr>dm_config = cfg, dm_key = key, dm_tls = tls_config OS cfg (w_files w1)\<rparr>, s2, w1)))))))"

definition daemon_shutdown :: "daemon \<Rightarrow> socks \<Rightarrow> socks" where
  "daemon_shutdown d s =
     socket_drop (sc_zsmtp (cf_sockets (dm_config d))) (socket_drop (sc_secure_mailbox (cf_sockets (dm_config d))) s)"

subsection \<open>Wallets\<close>

datatype wallet_error = WalletIo rstr | WalletUserNotFound rstr

record wallet_binding =
  wb_username :: rstr
  wb_master_pubkey :: bytes
  wb_ivk_commitment :: "rstr option"
  wb_wallet_db_path :: rstr

definition wallet_path :: "rstr \<Rightarrow> int \<Rightarrow> rstr" where
  "wallet_path dir uid = path_join (path_join dir (show_int uid)) ''wallet.db''"

record user_wallet =
  uw_user_id :: int
  uw_path :: rstr

definition wallet_open :: "os_ext \<Rightarrow> rstr \<Rightarrow> int \<Rightarrow> (wallet_error, user_wallet) result" where
  "wallet_open OS dir uid =
     (let path = wallet_path dir uid in
      case path_parent path of
        Some d \<Rightarrow> if os_mkdir OS d then Inr \<lparr>uw_user_id = uid, uw_path = path\<rparr> else Inl (WalletIo d)
      | None \<Rightarrow> Inr \<lparr>uw_user_id = uid, uw_path = path\<rparr>)"

definition wallet_resolve :: "rstr \<Rightarrow> rstr \<Rightarrow> store \<Rightarrow> (wallet_error, wallet_binding) result" where
  "wallet_resolve dir username st =
     (case fst (get_user username st) of
        Inr (Some u) \<Rightarrow>
          Inr \<lparr>wb_username = user_name u, wb_master_pubkey = user_master_pubkey u,
               wb_ivk_commitment = user_ivk_commitment u, wb_wallet_db_path = wallet_path dir (user_id u)\<rparr>
      | _ \<Rightarrow> Inl (WalletUserNotFound username))"

subsection \<open>Facts\<close>

lemma socket_bind_cases:
  assumes "socket_bind OS pid path s = (r, s')"
  obtains (ok) "r = Inr ()" "s' = s(path \<mapsto> Live pid)" "s path = None \<or> s path = Some Stale" "parent_ok OS path" "os_bind OS path"
    "s path = Some Stale \<Longrightarrow> os_remove OS path"
  | (failed) e where "r = Inl e" "s' = s \<or> s path = Some Stale \<and> s' = s(path := None)"
  using assms
  by (cases "s path"; cases "the (s path)")
     (auto simp: socket_bind_def is_listening_def Let_def split: if_splits)

lemma socket_bind_free:
  "s path = None \<or> s path = Some Stale \<Longrightarrow> os_remove OS path \<Longrightarrow> parent_ok OS path \<Longrightarrow> os_bind OS path \<Longrightarrow>
   socket_bind OS pid path s = (Inr (), s(path \<mapsto> Live pid))"
  by (auto simp: socket_bind_def is_listening_def Let_def)

lemma domain_key_kept:
  assumes "load_or_create_domain_key dir w = (Inr key, w')"
  shows "length key = 32" "w_files w' (path_join dir ''domainkey'') = Some key"
    "load_or_create_domain_key dir w' = (Inr key, w')"
  using assms by (auto simp: load_or_create_domain_key_def Let_def draw_def split: option.splits if_splits)

lemma domain_key_store: "load_or_create_domain_key dir w = (r, w') \<Longrightarrow> w_store w' = w_store w"
  by (auto simp: load_or_create_domain_key_def Let_def draw_def split: option.splits if_splits)

lemma domain_key_files:
  assumes "load_or_create_domain_key dir w = (Inr key, w')" "w_files w'' = w_files w'"
  shows "load_or_create_domain_key dir w'' = (Inr key, w'')"
  using domain_key_kept(1,2)[OF assms(1)] assms(2) by (simp add: load_or_create_domain_key_def)

lemma first_failure_None: "first_failure rs = None \<longleftrightarrow> set rs \<subseteq> {None}"
  by (induction rs rule: first_failure.induct) auto

text \<open>The paths and the fallible steps of a configuration.\<close>

definition boot_steps :: "os_ext \<Rightarrow> config \<Rightarrow> rstr option list" where
  "boot_steps OS cfg =
     [os_store OS (path_join (gn_data_dir (cf_general cfg)) ''mailbox.db''), os_tokio OS (sc_zsmtp (cf_sockets cfg)),
      os_tokio OS (sc_secure_mailbox (cf_sockets cfg)), os_tcp OS (sc_zsmtp_listen (cf_sockets cfg))]"

text \<open>A start that succeeds, step by step, and a start whose steps succeed.\<close>

lemma daemon_boot_ok:
  assumes "daemon_boot OS pid cfg (s, w) = (Inr d, s', w')"
  defines "a \<equiv> sc_secure_mailbox (cf_sockets cfg)" and "b \<equiv> sc_zsmtp (cf_sockets cfg)"
  shows "s' = s(a \<mapsto> Live pid, b \<mapsto> Live pid)" "a \<noteq> b" "load_or_create_domain_key (gn_data_dir (cf_general cfg)) w = (Inr (dm_key d), w')"
    "parent_ok OS a" "os_bind OS a" "parent_ok OS b" "os_bind OS b" "s a = None \<or> s a = Some Stale" "s b = None \<or> s b = Some Stale"
    "set (boot_steps OS cfg) \<subseteq> {None}" "d = \<lparr>dm_config = cfg, dm_key = dm_key d, dm_tls = tls_config OS cfg (w_files w')\<rparr>"
proof -
  obtain r1 s1 where b1: "socket_bind OS pid a s = (r1, s1)" by fastforce
  obtain rk w1 where k: "load_or_create_domain_key (gn_data_dir (cf_general cfg)) w = (rk, w1)" by fastforce
  obtain r2 s2 where b2: "socket_bind OS pid b s1 = (r2, s2)" by fastforce
  note boot = assms(1)[unfolded daemon_boot_def Let_def prod.case, folded a_def b_def, unfolded b1 k prod.case]
  obtain key where ok: "r1 = Inr ()" "rk = Inr key" "r2 = Inr ()" "set (boot_steps OS cfg) \<subseteq> {None}"
      "s' = s2" "w' = w1" "d = \<lparr>dm_config = cfg, dm_key = key, dm_tls = tls_config OS cfg (w_files w1)\<rparr>"
    using boot b2 unfolding boot_steps_def a_def[symmetric] b_def[symmetric]
    by (cases r1; cases rk; cases r2) (auto simp: first_failure_None split: option.splits)
  from b1 ok(1) have 1: "s1 = s(a \<mapsto> Live pid)" "s a = None \<or> s a = Some Stale" "parent_ok OS a" "os_bind OS a"
    by (auto elim: socket_bind_cases)
  from b2 ok(3) have 2: "s2 = s1(b \<mapsto> Live pid)" "s1 b = None \<or> s1 b = Some Stale" "parent_ok OS b" "os_bind OS b"
    by (auto elim: socket_bind_cases)
  have "a \<noteq> b" using 1(1) 2(2) by auto
  then show "s' = s(a \<mapsto> Live pid, b \<mapsto> Live pid)" "a \<noteq> b" "load_or_create_domain_key (gn_data_dir (cf_general cfg)) w = (Inr (dm_key d), w')"
    "parent_ok OS a" "os_bind OS a" "parent_ok OS b" "os_bind OS b" "s a = None \<or> s a = Some Stale" "s b = None \<or> s b = Some Stale"
    "set (boot_steps OS cfg) \<subseteq> {None}" "d = \<lparr>dm_config = cfg, dm_key = dm_key d, dm_tls = tls_config OS cfg (w_files w')\<rparr>"
    using 1 2 ok k by auto
qed

lemma daemon_boot_succeeds:
  assumes "socket_bind OS pid (sc_secure_mailbox (cf_sockets cfg)) s = (Inr (), s1)"
    and "load_or_create_domain_key (gn_data_dir (cf_general cfg)) w = (Inr key, w1)"
    and "socket_bind OS pid (sc_zsmtp (cf_sockets cfg)) s1 = (Inr (), s2)"
    and "set (boot_steps OS cfg) \<subseteq> {None}"
  shows "daemon_boot OS pid cfg (s, w) =
    (Inr \<lparr>dm_config = cfg, dm_key = key, dm_tls = tls_config OS cfg (w_files w1)\<rparr>, s2, w1)"
  using assms(4) unfolding daemon_boot_def Let_def prod.case assms(1-3)
  by (simp add: boot_steps_def)

text \<open>A start that fails leaves every path as it was, or a stale file removed.\<close>

definition cleaned :: "socks \<Rightarrow> socks \<Rightarrow> bool" where
  "cleaned s s' \<longleftrightarrow> (\<forall>path. s' path = s path \<or> s path = Some Stale \<and> s' path = None)"

lemma cleaned_refl [simp]: "cleaned s s"
  by (simp add: cleaned_def)

lemma socket_bind_cleaned:
  assumes "socket_bind OS pid path s = (r, s')"
  shows "r = Inl e \<Longrightarrow> cleaned s s'" "r = Inr () \<Longrightarrow> cleaned s' t \<Longrightarrow> cleaned s (socket_drop path t)"
  using assms by (auto elim!: socket_bind_cases simp: cleaned_def socket_drop_def split: if_splits)

lemma daemon_boot_failed:
  assumes "daemon_boot OS pid cfg (s, w) = (Inl e, s', w')"
  shows "cleaned s s'"
proof -
  let ?a = "sc_secure_mailbox (cf_sockets cfg)" and ?b = "sc_zsmtp (cf_sockets cfg)"
  obtain r1 s1 where b1: "socket_bind OS pid ?a s = (r1, s1)" by fastforce
  obtain rk w1 where k: "load_or_create_domain_key (gn_data_dir (cf_general cfg)) w = (rk, w1)" by fastforce
  obtain r2 s2 where b2: "socket_bind OS pid ?b s1 = (r2, s2)" by fastforce
  note boot = assms[unfolded daemon_boot_def Let_def prod.case b1 k]
  note 1 = socket_bind_cleaned[OF b1] and 2 = socket_bind_cleaned[OF b2]
  show ?thesis
    using boot b2 1 2
    by (cases r1; cases rk; cases r2) (auto split: option.splits)
qed

lemma daemon_boot_again:
  assumes "daemon_boot OS pid cfg (s, w) = (Inr d, s', w')"
    and "os_remove OS (sc_secure_mailbox (cf_sockets cfg))" "os_remove OS (sc_zsmtp (cf_sockets cfg))"
    and "t = crash pid s' \<or> t = daemon_shutdown d s'" "w_files w'' = w_files w'"
  shows "\<exists>t'. daemon_boot OS pid' cfg (t, w'') = (Inr d, t', w'')"
proof -
  note ok = daemon_boot_ok[OF assms(1)]
  let ?a = "sc_secure_mailbox (cf_sockets cfg)" and ?b = "sc_zsmtp (cf_sockets cfg)"
  have d: "dm_config d = cfg" using ok(11) by (metis daemon.select_convs(1))
  have t: "t ?a = None \<or> t ?a = Some Stale" "t ?b = None \<or> t ?b = Some Stale"
    using assms(4) ok(1,2) by (auto simp: crash_def daemon_shutdown_def socket_drop_def d)
  note b1 = socket_bind_free[where pid = pid' and s = t and path = ?a, OF t(1) assms(2) ok(4,5)]
  have "(t(?a \<mapsto> Live pid')) ?b = None \<or> (t(?a \<mapsto> Live pid')) ?b = Some Stale" using t(2) ok(2) by simp
  note b2 = socket_bind_free[where pid = pid' and path = ?b and s = "t(?a \<mapsto> Live pid')", OF this assms(3) ok(6,7)]
  show ?thesis
    using daemon_boot_succeeds[OF b1 domain_key_files[OF ok(3) assms(5)] b2 ok(10)] ok(11) assms(5) by auto
qed

lemma daemon_boot_store:
  assumes "daemon_boot OS pid cfg (s, w) = (r, s', w')" shows "w_store w' = w_store w"
proof -
  obtain rk w1 where k: "load_or_create_domain_key (gn_data_dir (cf_general cfg)) w = (rk, w1)" by fastforce
  have "w' = w \<or> w' = w1"
    using assms unfolding daemon_boot_def Let_def prod.case k by (auto split: prod.splits sum.splits option.splits)
  with domain_key_store[OF k] show ?thesis by auto
qed

text \<open>
  The start of the daemon. A socket on which another process listens is never taken from it,
  whatever the outcome. A start that fails, at any of its steps, leaves every socket path as it
  found it, except that stale files may be gone. A start that succeeds holds both sockets and a key of 32
  bytes that is stored in the data directory; and whether the process then shuts down, which removes both
  socket files and nothing else, or dies and leaves them behind, the daemon starts again, with the same key,
  so that attestations made before still verify.
\<close>

theorem daemon_boot_restart:
  assumes "daemon_boot OS pid cfg (s, w) = (r, s', w')"
  shows "(\<forall>path q. s path = Some (Live q) \<longrightarrow> s' path = Some (Live q)) \<and>
    (case r of
       Inl e \<Rightarrow> \<forall>path. s' path = s path \<or> s path = Some Stale \<and> s' path = None
     | Inr d \<Rightarrow>
         length (dm_key d) = 32 \<and> w_files w' (path_join (gn_data_dir (cf_general cfg)) ''domainkey'') = Some (dm_key d) \<and>
         s' = s(sc_secure_mailbox (cf_sockets cfg) \<mapsto> Live pid, sc_zsmtp (cf_sockets cfg) \<mapsto> Live pid) \<and>
         (\<forall>path. daemon_shutdown d s' path =
            (if path \<in> {sc_secure_mailbox (cf_sockets cfg), sc_zsmtp (cf_sockets cfg)} then None else s path)) \<and>
         (os_remove OS (sc_secure_mailbox (cf_sockets cfg)) \<and> os_remove OS (sc_zsmtp (cf_sockets cfg)) \<longrightarrow>
            (\<forall>pid'. \<exists>t. daemon_boot OS pid' cfg (crash pid s', w') = (Inr d, t, w')) \<and>
            (\<forall>pid'. \<exists>t. daemon_boot OS pid' cfg (daemon_shutdown d s', w') = (Inr d, t, w'))))"
proof (cases r)
  case (Inl e)
  have "s' path = s path \<or> s path = Some Stale \<and> s' path = None" for path
    using daemon_boot_failed[OF assms[unfolded Inl]] by (simp add: cleaned_def)
  then show ?thesis unfolding Inl sum.case by (metis option.inject sock.distinct(1))
next
  case (Inr d)
  note boot = assms[unfolded Inr]
  note ok = daemon_boot_ok[OF boot] and again = daemon_boot_again[OF boot]
  have d: "dm_config d = cfg" using ok(11) by (metis daemon.select_convs(1))
  have live: "\<forall>path q. s path = Some (Live q) \<longrightarrow> s' path = Some (Live q)" using ok(1,8,9) by auto
  have down: "\<forall>path. daemon_shutdown d s' path =
      (if path \<in> {sc_secure_mailbox (cf_sockets cfg), sc_zsmtp (cf_sockets cfg)} then None else s path)"
    using ok(1) by (simp add: daemon_shutdown_def socket_drop_def d)
  show ?thesis
    unfolding Inr sum.case by (intro conjI impI live down ok(1) domain_key_kept(1,2)[OF ok(3)] allI again[where w'' = w', OF _ _ _ refl]) auto
qed

definition demo_os :: os_ext where
  "demo_os = \<lparr>os_remove = (\<lambda>_. True), os_mkdir = (\<lambda>_. True), os_bind = (\<lambda>_. True), os_tokio = (\<lambda>_. None),
     os_store = (\<lambda>_. None), os_tcp = (\<lambda>_. None), os_tls = demo_tls\<rparr>"

text \<open>A daemon finds the files of a run that died and a socket of another process, starts, dies and starts again.\<close>

theorem daemon_boot_restart_witness:
  "let s = [''m'' \<mapsto> Stale, ''q'' \<mapsto> Live 9];
       (r, s', w') = daemon_boot demo_os 1 demo_config (s, demo_world bob_store) in
   \<exists>d. r = Inr d \<and> s' ''q'' = Some (Live 9) \<and> length (dm_key d) = 32 \<and>
     (\<exists>t. daemon_boot demo_os 2 demo_config (crash 1 s', w') = (Inr d, t, w'))"
proof -
  define s where "s = [''m'' \<mapsto> Stale, ''q'' \<mapsto> Live 9]"
  define w where "w = demo_world bob_store"
  obtain key w' where k: "load_or_create_domain_key ''/var'' w = (Inr key, w')"
    by (auto simp: load_or_create_domain_key_def w_def demo_world_def draw_def Let_def)
  have b: "daemon_boot demo_os 1 demo_config (s, w) =
      (Inr \<lparr>dm_config = demo_config, dm_key = key, dm_tls = tls_config demo_os demo_config (w_files w')\<rparr>,
       s(''m'' \<mapsto> Live 1, ''z'' \<mapsto> Live 1), w')"
    by (rule daemon_boot_succeeds[where ?s1.0 = "s(''m'' \<mapsto> Live 1)"])
       (use k in \<open>simp_all add: socket_bind_free s_def demo_config_def demo_os_def boot_steps_def parent_ok_def split: option.split\<close>)
  have rm: "os_remove demo_os p" and q: "s ''q'' = Some (Live 9)" for p by (simp_all add: demo_os_def s_def)
  have m: "sc_secure_mailbox (cf_sockets demo_config) = ''m''" "sc_zsmtp (cf_sockets demo_config) = ''z''"
    by (simp_all add: demo_config_def)
  show ?thesis
    unfolding Let_def s_def[symmetric] w_def[symmetric] b prod.case
    using daemon_boot_restart[OF b, unfolded sum.case] q rm
    by (intro exI[of _ "\<lparr>dm_config = demo_config, dm_key = key, dm_tls = tls_config demo_os demo_config (w_files w')\<rparr>"])
       (simp add: m del: One_nat_def)
qed

end
