(* ===== verification/System.thy ===== *)
theory System
  imports Daemon
begin

text \<open>
  A running daemon: its tasks (\<^verbatim>\<open>talkd/src/main.rs\<close>, \<^verbatim>\<open>talk-protocol/src/server.rs\<close>) as a step relation on the
  shared world and the open connections. Every listener accepts connections at any time, each connection
  is a task of its own, and tasks interleave between the commands they serve: a step opens a connection
  or lets one of them serve its next command (ZSMTP and control channel), or its next read or event (IMAP),
  on the world all share. What a peer will send is arbitrary, and so is the network a command meets.
\<close>

record daemon_env =
  de_ext :: ext
  de_json :: json_ext
  de_templates :: template_ext
  de_secure :: secure_ext
  de_emulate :: emulate_json
  de_crypto :: crypto
  de_imap :: imap_ext
  de_dns :: dns_ext
  de_vars :: env

record system =
  sy_world :: world
  sy_zsmtp :: "world conn list"
  sy_control :: "world mconn list"
  sy_imap :: "(conn_mode \<times> imap_conn) list"

definition system_start :: "world \<Rightarrow> system" where
  "system_start w = \<lparr>sy_world = w, sy_zsmtp = [], sy_control = [], sy_imap = []\<rparr>"

subsection \<open>Connections\<close>

text \<open>An accepted ZSMTP stream, after the greeting; \<open>inp\<close> is all its peer will send.\<close>

definition zsmtp_session :: "daemon_env \<Rightarrow> daemon \<Rightarrow> world session" where
  "zsmtp_session V d =
     daemon_session (draw 32) (gn_domain (cf_general (dm_config d))) (dm_key d)
       (deliver (de_templates V) (daemon_sink (dm_config d))) user_exists"

definition zsmtp_open :: "daemon_env \<Rightarrow> daemon \<Rightarrow> bytes \<Rightarrow> world \<Rightarrow> world conn option" where
  "zsmtp_open V d inp w =
     (case write_line (greeting (zsmtp_session V d)) [] of
        (Inl _, _) \<Rightarrow> None
      | (Inr _, out) \<Rightarrow> Some \<lparr>cn_session = zsmtp_session V d, cn_world = w, cn_in = inp, cn_out = out\<rparr>)"

definition control_handler :: "daemon_env \<Rightarrow> daemon \<Rightarrow> network \<Rightarrow> world mailbox_handler" where
  "control_handler V d net =
     secure_handler (de_ext V) (de_json V) (de_templates V) (de_secure V) net
       (daemon_service (de_ext V) (de_dns V) (de_vars V) (dm_config d) (dm_key d))"

definition imap_server_handler :: "daemon_env \<Rightarrow> imap_handler" where
  "imap_server_handler V = imap_handle (de_ext V) (de_crypto V) (de_secure V) (de_imap V)"

text \<open>A connection whose turn ended it leaves the list.\<close>

definition after_turn :: "'r option \<Rightarrow> nat \<Rightarrow> 'c \<Rightarrow> 'c list \<Rightarrow> 'c list" where
  "after_turn r i c cs = (if r = None then cs[i := c] else take i cs @ drop (Suc i) cs)"

inductive daemon_step :: "daemon_env \<Rightarrow> daemon \<Rightarrow> system \<Rightarrow> system \<Rightarrow> bool" for V d where
  step_zsmtp_open: "zsmtp_open V d inp (sy_world y) = Some c \<Longrightarrow> daemon_step V d y (y\<lparr>sy_zsmtp := sy_zsmtp y @ [c]\<rparr>)"
| step_zsmtp: "i < length (sy_zsmtp y) \<Longrightarrow>
    run_turn (de_ext V) (de_json V) ((sy_zsmtp y ! i)\<lparr>cn_world := sy_world y\<rparr>) = (r, c) \<Longrightarrow>
    daemon_step V d y (y\<lparr>sy_world := cn_world c, sy_zsmtp := after_turn r i c (sy_zsmtp y)\<rparr>)"
| step_control_open: "daemon_step V d y (y\<lparr>sy_control := sy_control y @ [\<lparr>mc_world = sy_world y, mc_in = inp, mc_out = []\<rparr>]\<rparr>)"
| step_control: "i < length (sy_control y) \<Longrightarrow>
    serve_turn (de_emulate V) (control_handler V d net) ((sy_control y ! i)\<lparr>mc_world := sy_world y\<rparr>) = (r, c) \<Longrightarrow>
    daemon_step V d y (y\<lparr>sy_world := mc_world c, sy_control := after_turn r i c (sy_control y)\<rparr>)"
| step_imap_open: "daemon_step V d y
    (y\<lparr>sy_imap := sy_imap y @ [(ConnRunning, conn_start (daemon_imap (dm_config d)) (w_store (sy_world y)))]\<rparr>)"
| step_imap: "i < length (sy_imap y) \<Longrightarrow> sy_imap y ! i = (m, c) \<Longrightarrow>
    imap_step (imap_server_handler V) (m, c\<lparr>ic_store := w_store (sy_world y)\<rparr>) (m', c') \<Longrightarrow>
    daemon_step V d y (y\<lparr>sy_world := (sy_world y)\<lparr>w_store := ic_store c'\<rparr>, sy_imap := (sy_imap y)[i := (m', c')]\<rparr>)"

inductive daemon_reach :: "daemon_env \<Rightarrow> daemon \<Rightarrow> world \<Rightarrow> system \<Rightarrow> bool" for V d w where
  reach_start: "daemon_reach V d w (system_start w)"
| reach_step: "daemon_reach V d w y \<Longrightarrow> daemon_step V d y z \<Longrightarrow> daemon_reach V d w z"

subsection \<open>What a step may change\<close>

text \<open>
  The change of the shared data in one step: nothing is removed or rewritten except by an IMAP
  session, and there only in the mailboxes of the user it is logged in as.
\<close>

definition tables_grow :: "world \<Rightarrow> world \<Rightarrow> bool" where
  "tables_grow w w' \<longleftrightarrow>
     (store_inv (w_store w) \<longrightarrow> store_inv (w_store w')) \<and>
     (\<exists>new. users (w_store w') = users (w_store w) @ new) \<and>
     keyring_entries (w_store w') = keyring_entries (w_store w) \<and>
     shares (w_store w') = shares (w_store w) \<and> settings (w_store w') = settings (w_store w) \<and>
     w_files w' = w_files w \<and>
     (\<exists>new. map box_owner (mailboxes (w_store w')) = map box_owner (mailboxes (w_store w)) @ new)"

definition mail_grows :: "int set \<Rightarrow> world \<Rightarrow> world \<Rightarrow> bool" where
  "mail_grows B w w' \<longleftrightarrow>
     (\<exists>new. filter (\<lambda>m. m_mailbox_id m \<in> B) (messages (w_store w')) =
        filter (\<lambda>m. m_mailbox_id m \<in> B) (messages (w_store w)) @ new)"

lemma tables_grow_refl [simp]: "tables_grow w w"
  by (simp add: tables_grow_def)

lemma tables_grow_trans: "tables_grow u v \<Longrightarrow> tables_grow v w \<Longrightarrow> tables_grow u w"
  by (auto simp: tables_grow_def)

lemma tables_grow_inv: "tables_grow w w' \<Longrightarrow> store_inv (w_store w) \<Longrightarrow> store_inv (w_store w')"
  by (simp add: tables_grow_def)

lemma mail_grows_refl [simp]: "mail_grows B w w"
  by (simp add: mail_grows_def)

lemma mail_grows_trans: "mail_grows B u v \<Longrightarrow> mail_grows B v w \<Longrightarrow> mail_grows B u w"
  by (auto simp: mail_grows_def)

lemma only_delivers_grows: "only_delivers w w' \<Longrightarrow> tables_grow w w' \<and> mail_grows B w w'"
  by (auto simp: only_delivers_def tables_grow_def mail_grows_def)

lemma only_grows_grows: "only_grows w w' \<Longrightarrow> tables_grow w w' \<and> mail_grows B w w'"
  by (auto simp: only_grows_def tables_grow_def mail_grows_def)

text \<open>An IMAP command does not reach the mailboxes of others.\<close>

lemma own_mail_grows:
  assumes "own_mail_only uid (w_store w) st'" "store_inv (w_store w) \<longrightarrow> store_inv st'"
  shows "tables_grow w (w\<lparr>w_store := st'\<rparr>) \<and> (B \<inter> boxes_of uid (w_store w) = {} \<longrightarrow> mail_grows B w (w\<lparr>w_store := st'\<rparr>))"
proof -
  let ?st = "w_store w"
  have t: "st' = ?st\<lparr>messages := messages st'\<rparr>"
    and f: "filter (\<lambda>m. m_mailbox_id m \<notin> boxes_of uid ?st) (messages st') = filter (\<lambda>m. m_mailbox_id m \<notin> boxes_of uid ?st) (messages ?st)"
    using assms(1) by (simp_all add: own_mail_only_def)
  have "filter (\<lambda>m. m_mailbox_id m \<in> B) (messages st') = filter (\<lambda>m. m_mailbox_id m \<in> B) (messages ?st)"
    if "B \<inter> boxes_of uid ?st = {}"
  proof -
    have "filter (\<lambda>m. m_mailbox_id m \<in> B) ms =
        filter (\<lambda>m. m_mailbox_id m \<in> B) (filter (\<lambda>m. m_mailbox_id m \<notin> boxes_of uid ?st) ms)" for ms
      using that by (induction ms) auto
    then show ?thesis using f by metis
  qed
  moreover have "users st' = users ?st" "keyring_entries st' = keyring_entries ?st" "shares st' = shares ?st"
    "settings st' = settings ?st" "mailboxes st' = mailboxes ?st" by (subst t, simp)+
  then have "tables_grow w (w\<lparr>w_store := st'\<rparr>)" using assms(2) by (simp add: tables_grow_def)
  ultimately show ?thesis by (simp add: mail_grows_def)
qed

lemma imap_turn_grows:
  assumes "accepted_login E K S X s (w_store w) s' st'"
  shows "tables_grow w (w\<lparr>w_store := st'\<rparr>)"
    and "is_state s' \<noteq> NotAuthenticated \<longrightarrow> B \<inter> boxes_of (is_user_id s') (w_store w) = {} \<Longrightarrow> mail_grows B w (w\<lparr>w_store := st'\<rparr>)"
proof -
  have step: "session_step s (w_store w) s' st'" using assms by (simp add: accepted_login_def)
  then have g: "tables_grow w (w\<lparr>w_store := st'\<rparr>) \<and>
      (B \<inter> boxes_of (is_user_id s') (w_store w) = {} \<longrightarrow> mail_grows B w (w\<lparr>w_store := st'\<rparr>))"
    by (intro own_mail_grows) (simp_all add: session_step_def)
  then show "tables_grow w (w\<lparr>w_store := st'\<rparr>)" by simp
  show "mail_grows B w (w\<lparr>w_store := st'\<rparr>)"
    if "is_state s' \<noteq> NotAuthenticated \<longrightarrow> B \<inter> boxes_of (is_user_id s') (w_store w) = {}"
    using g that step by (cases "is_state s' = NotAuthenticated") (simp_all add: session_step_def)
qed

text \<open>The mailboxes of two users stay apart while tables only grow.\<close>

lemma boxes_apart:
  assumes "store_inv (w_store w')" "tables_grow w w'" "uid \<noteq> uid'"
  shows "boxes_of uid (w_store w) \<inter> boxes_of uid' (w_store w') = {}"
proof -
  obtain new where g: "map box_owner (mailboxes (w_store w')) = map box_owner (mailboxes (w_store w)) @ new"
    using assms(2) by (auto simp: tables_grow_def)
  have d: "distinct (map mb_id (mailboxes (w_store w')))"
    using store_inv_boxes[OF assms(1)] by (simp add: mailboxes_ok_def)
  have False if "b \<in> set (mailboxes (w_store w))" "mb_user_id b = uid" "c \<in> set (mailboxes (w_store w'))" "mb_user_id c = uid'" "mb_id c = mb_id b" for b c
  proof -
    have "box_owner b \<in> set (map box_owner (mailboxes (w_store w')))" using that(1) unfolding g by simp
    then obtain b' where b': "b' \<in> set (mailboxes (w_store w'))" "box_owner b' = box_owner b" by auto
    then have "b' = c" using that(3,5) d by (auto simp: box_owner_def intro: distinct_map_eqD)
    with b'(2) that(2,4) assms(3) show False by (simp add: box_owner_def)
  qed
  then show ?thesis unfolding boxes_of_def by (fastforce dest: sym)
qed

subsection \<open>The invariant of a running daemon\<close>

definition imap_sessions :: "system \<Rightarrow> imap_session set" where
  "imap_sessions y = (\<lambda>(m, c). ic_session c) ` set (sy_imap y)"

text \<open>A session of the configured server, and one whose credentials some state of the run accepted.\<close>

definition of_server :: "daemon \<Rightarrow> imap_session \<Rightarrow> bool" where
  "of_server d s \<longleftrightarrow> is_domain s = gn_domain (cf_general (dm_config d)) \<and> is_auth_mode s = imap_auth (cf_auth (dm_config d))"

definition admitted :: "daemon_env \<Rightarrow> daemon \<Rightarrow> world \<Rightarrow> imap_session \<Rightarrow> bool" where
  "admitted V d w s \<longleftrightarrow>
     (\<exists>y u p user. daemon_reach V d w y \<and>
        credentials_ok (de_ext V) (de_crypto V) (de_secure V) (de_imap V) (new_session (daemon_imap (dm_config d))) u p user
          (w_store (sy_world y)) \<and>
        is_user_id s = user_id user \<and> is_username s = user_name user)"

lemma new_session_of_server [simp]: "of_server d (new_session (daemon_imap (dm_config d)))"
  by (simp add: of_server_def new_session_def daemon_imap_def server_with_auth_mode_def server_with_domain_def)

lemma set_after_turn: "i < length cs \<Longrightarrow> set (after_turn r i c cs) \<subseteq> insert c (set cs)"
  by (auto simp: after_turn_def dest: in_set_takeD in_set_dropD set_update_subset_insert[THEN subsetD])

text \<open>One command or read of an IMAP connection.\<close>

lemma imap_turn:
  assumes "imap_step (imap_server_handler V) (m, c\<lparr>ic_store := w_store (sy_world y)\<rparr>) (m', c')"
  shows "accepted_login (de_ext V) (de_crypto V) (de_secure V) (de_imap V) (ic_session c) (w_store (sy_world y)) (ic_session c') (ic_store c')"
  using imap.step_R[OF assms[unfolded imap_server_handler_def]] by simp

lemma imap_turn_admitted:
  assumes "daemon_reach V d w y" "of_server d s" "is_state s \<noteq> NotAuthenticated \<longrightarrow> admitted V d w s"
    and "accepted_login (de_ext V) (de_crypto V) (de_secure V) (de_imap V) s (w_store (sy_world y)) s' st'"
  shows "of_server d s' \<and> (is_state s' \<noteq> NotAuthenticated \<longrightarrow> admitted V d w s')"
proof -
  let ?n = "new_session (daemon_imap (dm_config d))"
  have step: "session_step s (w_store (sy_world y)) s' st'" using assms(4) by (simp add: accepted_login_def)
  then have o: "of_server d s'" using assms(2) by (simp add: of_server_def session_step_def)
  have n: "is_domain s = is_domain ?n" "is_auth_mode s = is_auth_mode ?n"
    using assms(2) new_session_of_server[of d] by (simp_all only: of_server_def)
  show ?thesis
  proof (cases "is_state s = NotAuthenticated")
    case True
    with assms(1,4) o show ?thesis unfolding accepted_login_def admitted_def credentials_ok_cong[OF n] by blast
  next
    case False
    then have "admitted V d w s" "is_user_id s' = is_user_id s" "is_username s' = is_username s"
      using assms(3) step by (simp_all add: session_step_def)
    with o show ?thesis by (simp add: admitted_def)
  qed
qed

text \<open>
  The effect of one step on the world, on the ZSMTP sessions and on the sessions that are logged in; the
  set \<open>B\<close> is any set of mailboxes that no logged in session owns.
\<close>

definition zsmtp_sessions_ok :: "daemon_env \<Rightarrow> daemon \<Rightarrow> system \<Rightarrow> bool" where
  "zsmtp_sessions_ok V d y \<longleftrightarrow>
     (\<forall>c \<in> set (sy_zsmtp y). daemon.uses (gn_domain (cf_general (dm_config d))) (de_templates V) (daemon_sink (dm_config d)) (cn_session c))"

definition out_of_reach :: "int set \<Rightarrow> system \<Rightarrow> store \<Rightarrow> bool" where
  "out_of_reach B z st \<longleftrightarrow> (\<forall>s \<in> imap_sessions z. is_state s \<noteq> NotAuthenticated \<longrightarrow> B \<inter> boxes_of (is_user_id s) st = {})"

lemma daemon_step_effect:
  assumes "daemon_step V d y z" "zsmtp_sessions_ok V d y"
  shows "zsmtp_sessions_ok V d z \<and> tables_grow (sy_world y) (sy_world z) \<and>
    (out_of_reach B z (w_store (sy_world y)) \<longrightarrow> mail_grows B (sy_world y) (sy_world z))"
  using assms(1)
proof cases
  case (step_zsmtp_open inp c)
  have "cn_session c = zsmtp_session V d"
    using step_zsmtp_open by (auto simp: zsmtp_open_def split: prod.splits sum.splits)
  with assms(2) step_zsmtp_open(1) show ?thesis
    by (auto simp: zsmtp_sessions_ok_def daemon.uses_def zsmtp_session_def)
next
  case (step_zsmtp i r c)
  have "daemon.uses (gn_domain (cf_general (dm_config d))) (de_templates V) (daemon_sink (dm_config d))
      (cn_session ((sy_zsmtp y ! i)\<lparr>cn_world := sy_world y\<rparr>))"
    using assms(2) step_zsmtp(2) by (simp add: zsmtp_sessions_ok_def)
  from daemon.turn_R[OF this step_zsmtp(3)] only_delivers_grows[of "sy_world y" "cn_world c" B]
    assms(2) set_after_turn[OF step_zsmtp(2), of r c] step_zsmtp(1) show ?thesis
    by (auto simp: zsmtp_sessions_ok_def)
next
  case (step_control i net r c)
  have "only_grows (mc_world ((sy_control y ! i)\<lparr>mc_world := sy_world y\<rparr>)) (mc_world (snd (r, c)))"
    unfolding step_control(3)[symmetric] control_handler_def by (rule control.turn_R)
  with only_grows_grows[of "sy_world y" "mc_world c" B] assms(2) step_control(1) show ?thesis
    by (simp add: zsmtp_sessions_ok_def)
next
  case (step_imap i m c m' c')
  note g = imap_turn_grows[OF imap_turn[OF step_imap(4)]]
  have "(m', c') \<in> set (sy_imap z)" using step_imap(1,2) set_update_memI by fastforce
  then have "ic_session c' \<in> imap_sessions z" by (force simp: imap_sessions_def)
  with g assms(2) step_imap(1) show ?thesis by (auto simp: zsmtp_sessions_ok_def out_of_reach_def)
qed (use assms(2) in \<open>simp_all add: zsmtp_sessions_ok_def\<close>)

text \<open>Sessions stay logged in as the user they named.\<close>

lemma daemon_step_sessions:
  assumes "daemon_step V d y z" "s \<in> imap_sessions y" "is_state s \<noteq> NotAuthenticated"
  shows "\<exists>s' \<in> imap_sessions z. is_state s' \<noteq> NotAuthenticated \<and> is_user_id s' = is_user_id s"
  using assms(1)
proof cases
  case (step_imap i m c m' c')
  obtain j where j: "j < length (sy_imap y)" "s = ic_session (snd (sy_imap y ! j))"
    using assms(2) by (auto simp: imap_sessions_def in_set_conv_nth split: prod.splits)
  show ?thesis
  proof (cases "j = i")
    case True
    then have s: "s = ic_session c" using j step_imap(3) by simp
    have "is_state (ic_session c') \<noteq> NotAuthenticated \<and> is_user_id (ic_session c') = is_user_id s"
      using imap_turn[OF step_imap(4)] assms(3) by (auto simp: s accepted_login_def session_step_def)
    moreover have "(m', c') \<in> set (sy_imap z)" using step_imap(1,2) set_update_memI by fastforce
    ultimately show ?thesis by (force simp: imap_sessions_def)
  next
    case False
    then have "sy_imap y ! j = sy_imap z ! j" "j < length (sy_imap z)" using j(1) step_imap(1) by simp_all
    then have "sy_imap y ! j \<in> set (sy_imap z)" by simp
    then have "s \<in> imap_sessions z" unfolding j(2) imap_sessions_def by (force simp: case_prod_beta)
    then show ?thesis using assms(3) by blast
  qed
qed (use assms(2,3) in \<open>force simp: imap_sessions_def\<close>)+

definition running :: "daemon_env \<Rightarrow> daemon \<Rightarrow> world \<Rightarrow> system \<Rightarrow> bool" where
  "running V d w y \<longleftrightarrow> store_inv (w_store (sy_world y)) \<and> tables_grow w (sy_world y) \<and>
     zsmtp_sessions_ok V d y \<and>
     (\<forall>s \<in> imap_sessions y. of_server d s \<and> (is_state s \<noteq> NotAuthenticated \<longrightarrow> admitted V d w s))"

lemma daemon_reach_running:
  assumes "daemon_reach V d w y" "store_inv (w_store w)" shows "running V d w y"
  using assms
proof (induction rule: daemon_reach.induct)
  case reach_start
  then show ?case by (simp add: running_def zsmtp_sessions_ok_def system_start_def imap_sessions_def)
next
  case (reach_step y z)
  have IH: "running V d w y" by (rule reach_step.IH[OF reach_step.prems])
  have eff: "zsmtp_sessions_ok V d z" "tables_grow (sy_world y) (sy_world z)"
    using daemon_step_effect[OF reach_step.hyps(2)] IH by (simp_all add: running_def)
  have world: "store_inv (w_store (sy_world z))" "tables_grow w (sy_world z)"
    using IH tables_grow_trans[OF _ eff(2)] tables_grow_inv[OF eff(2)] by (simp_all add: running_def)
  have sess: "\<forall>s \<in> imap_sessions y. of_server d s \<and> (is_state s \<noteq> NotAuthenticated \<longrightarrow> admitted V d w s)"
    using IH by (simp add: running_def)
  from reach_step.hyps(2) have "\<forall>s \<in> imap_sessions z. of_server d s \<and> (is_state s \<noteq> NotAuthenticated \<longrightarrow> admitted V d w s)"
  proof cases
    case (step_imap i m c m' c')
    have "(m, c) \<in> set (sy_imap y)" using step_imap(2,3) nth_mem by metis
    then have "ic_session c \<in> imap_sessions y" by (force simp: imap_sessions_def)
    with sess have ok: "of_server d (ic_session c') \<and> (is_state (ic_session c') \<noteq> NotAuthenticated \<longrightarrow> admitted V d w (ic_session c'))"
      by (intro imap_turn_admitted[OF reach_step.hyps(1) _ _ imap_turn[OF step_imap(4)]]) auto
    have "imap_sessions z \<subseteq> insert (ic_session c') (imap_sessions y)"
      using set_update_subset_insert[of "sy_imap y" i "(m', c')"] step_imap(1) by (auto simp: imap_sessions_def)
    with ok sess show ?thesis by blast
  next
    case step_imap_open
    have "is_state (new_session (daemon_imap (dm_config d))) = NotAuthenticated" by (simp add: new_session_def)
    with sess step_imap_open show ?thesis by (auto simp: imap_sessions_def conn_start_def)
  qed (use sess in \<open>simp_all add: imap_sessions_def\<close>)
  with eff(1) world show ?case by (simp add: running_def)
qed

text \<open>The mail of a user nobody is logged in as.\<close>

lemma daemon_reach_mail:
  assumes "daemon_reach V d w y" "store_inv (w_store w)"
    and "\<forall>s \<in> imap_sessions y. is_state s \<noteq> NotAuthenticated \<longrightarrow> is_user_id s \<noteq> uid"
  shows "mail_grows (boxes_of uid (w_store w)) w (sy_world y)"
  using assms
proof (induction rule: daemon_reach.induct)
  case reach_start
  then show ?case by (simp add: system_start_def)
next
  case (reach_step y z)
  note run = daemon_reach_running[OF reach_step.hyps(1) reach_step.prems(1), unfolded running_def]
  have "\<forall>s \<in> imap_sessions y. is_state s \<noteq> NotAuthenticated \<longrightarrow> is_user_id s \<noteq> uid"
    using daemon_step_sessions[OF reach_step.hyps(2)] reach_step.prems(2) by metis
  then have y: "mail_grows (boxes_of uid (w_store w)) w (sy_world y)" by (rule reach_step.IH[OF reach_step.prems(1)])
  have "out_of_reach (boxes_of uid (w_store w)) z (w_store (sy_world y))"
    unfolding out_of_reach_def using boxes_apart[of "sy_world y" w uid] run reach_step.prems(2) by metis
  with daemon_step_effect[OF reach_step.hyps(2)] run
  have "mail_grows (boxes_of uid (w_store w)) (sy_world y) (sy_world z)" by blast
  with y show ?case by (rule mail_grows_trans)
qed

subsection \<open>A send between two daemons\<close>

lemma daemon_service_sel [simp]:
  "sv_sender_domain (daemon_service E X v cfg key) = gn_domain (cf_general cfg)"
  "sv_send_endpoint (daemon_service E X v cfg key) = send_override cfg"
  "sv_resolver (daemon_service E X v cfg key) = doh_resolving_key E X v DOH_ENDPOINT"
  "sv_endpoint_resolver (daemon_service E X v cfg key) = doh_resolve_endpoint X v DOH_ENDPOINT"
  by (simp_all add: daemon_service_def service_with_template_def service_with_sink_def service_new_def)

lemma accepted_line:
  assumes "wire_name mid" shows "line_fits (outcome_line (Accepted mid))" "ascii (outcome_line (Accepted mid))"
proof -
  show "ascii (outcome_line (Accepted mid))" using wire_name_facts(2)[OF assms] by (simp add: outcome_line_def byte_def)
  then show "line_fits (outcome_line (Accepted mid))"
    using wire_name_facts(5,7)[OF assms] by (intro line_fitsI) (simp_all add: outcome_line_def LF_def MAX_LINE_def)
qed

lemma split_recipient:
  assumes "CHR ''@'' \<notin> set user" "CHR ''@'' \<notin> set home"
  shows "split_on (CHR ''@'') (user @ ''@'' @ home) = [user, home]"
  using assms split_on_sep split_on_single by auto

text \<open>SEND over a connection that carries the flow through.\<close>

lemma secure_send_ok:
  assumes "sender \<noteq> []" "CHR ''@'' \<notin> set user" "CHR ''@'' \<notin> set home"
    and "sv_resolver s home = Inr pub" and ep: "(\<exists>ep. sv_endpoint_resolver s home = Inr ep) \<or> sv_send_endpoint s \<noteq> None"
    and w: "draw 16 w = (rnd, w1)" "tick w1 = (issued, w2)" "tick w2 = (now, w3)"
    and c: "client_connect inp (sv_sender_domain s) = Inr c" "send_invoice_over E J rnd issued now sender user pub mid p body c = (Inr (), c')"
  shows "secure_send E J T S (\<lambda>_ _. Inr inp) s sender (user @ ''@'' @ home) mid p body w =
    (SendOk (''delivered '' @ mid @ '' to '' @ user @ ''@'' @ home), record_outbound_tx T s sender (user @ ''@'' @ home) mid p body TxSent w3)"
proof -
  obtain e where e: "(case sv_endpoint_resolver s home of Inr ep \<Rightarrow> Inr ep
      | Inl e \<Rightarrow> (case sv_send_endpoint s of Some ep \<Rightarrow> Inr ep | None \<Rightarrow> Inl e)) = Inr e"
    using ep by (cases "sv_endpoint_resolver s home") auto
  show ?thesis
    unfolding secure_send_def split_recipient[OF assms(2,3)] Let_def w prod.case
    using assms(1,4) e c by (simp add: connect_tcp_tls_def bind_r_def unwrap_or_def)
qed

end
