(* ===== verification/Idle.thy ===== *)
theory Idle
  imports System
begin

text \<open>
  The event channel between deliveries and IDLE (\<^verbatim>\<open>talk-imap/src/server.rs\<close>): a broadcast channel that
  keeps the last 64 events. The world holds the list of all events sent; a receiver is a position in
  it. A receiver that is more than 64 events behind is told so once and goes on with the oldest event kept.
\<close>

definition CHANNEL_CAP :: nat where "CHANNEL_CAP = 64"

datatype recv_result = Pending | Lagged nat | Received mailbox_event

definition channel_recv :: "mailbox_event list \<Rightarrow> nat \<Rightarrow> recv_result \<times> nat" where
  "channel_recv events pos =
     (if length events \<le> pos then (Pending, pos)
      else if CHANNEL_CAP < length events - pos
      then (Lagged (length events - pos - CHANNEL_CAP), length events - CHANNEL_CAP)
      else (Received (events ! pos), Suc pos))"

text \<open>The event branch of the IDLE loop, until nothing more is pending.\<close>

function idle_drain :: "mailbox_event list \<Rightarrow> nat \<Rightarrow> imap_conn \<Rightarrow> nat \<times> imap_conn" where
  "idle_drain events pos c =
     (case channel_recv events pos of
        (Pending, pos') \<Rightarrow> (pos', c)
      | (Lagged _, pos') \<Rightarrow> idle_drain events pos' c
      | (Received ev, pos') \<Rightarrow> idle_drain events pos' (on_idle_event ev c))"
  by pat_completeness auto
termination
  by (relation "measure (\<lambda>(events, pos, c). length events - pos)") (auto simp: channel_recv_def split: if_splits)

declare idle_drain.simps [simp del]

subsection \<open>What an idle session is told\<close>

definition exists_line :: "int \<Rightarrow> imap_conn \<Rightarrow> rstr" where
  "exists_line uid c =
     untagged (show_nat (case fst (list_messages uid (ic_store c)) of Inr ms \<Rightarrow> length ms | Inl _ \<Rightarrow> 0) @ '' EXISTS'')"

definition idle_lines :: "mailbox_event list \<Rightarrow> imap_conn \<Rightarrow> rstr" where
  "idle_lines evs c =
     concat (replicate (length (filter (\<lambda>ev. ev = MessageAppended (is_user_id (ic_session c))) evs))
       (exists_line (is_user_id (ic_session c)) c))"

lemma idle_lines_Nil [simp]: "idle_lines [] c = []"
  by (simp add: idle_lines_def)

lemma on_idle_event_lines: "on_idle_event ev c = conn_write (idle_lines [ev] c) c"
  by (cases ev) (auto simp: on_idle_event_def idle_lines_def exists_line_def conn_write_def)

lemma idle_lines_Cons: "idle_lines (ev # evs) c = idle_lines [ev] c @ idle_lines evs c"
  by (simp add: idle_lines_def)

lemma idle_lines_write [simp]: "idle_lines evs (conn_write b c) = idle_lines evs c"
  by (simp add: idle_lines_def exists_line_def conn_write_def)

lemma conn_write_append: "conn_write b (conn_write a c) = conn_write (a @ b) c"
  by (simp add: conn_write_def)

lemma idle_drain_near:
  "length events - pos \<le> CHANNEL_CAP \<Longrightarrow> pos \<le> length events \<Longrightarrow>
   idle_drain events pos c = (length events, conn_write (idle_lines (drop pos events) c) c)"
proof (induction events pos c rule: idle_drain.induct)
  case (1 events pos c)
  show ?case
  proof (cases "pos = length events")
    case True
    then show ?thesis by (subst idle_drain.simps) (simp add: channel_recv_def conn_write_def)
  next
    case False
    then have p: "pos < length events" using 1(4) by simp
    then have r: "channel_recv events pos = (Received (events ! pos), Suc pos)" using 1(3) by (simp add: channel_recv_def)
    have "idle_drain events (Suc pos) (on_idle_event (events ! pos) c) =
        (length events, conn_write (idle_lines (drop (Suc pos) events) (on_idle_event (events ! pos) c)) (on_idle_event (events ! pos) c))"
      using 1(2)[OF r[symmetric] refl] 1(3) p by simp
    moreover have "drop pos events = events ! pos # drop (Suc pos) events" using p by (simp add: Cons_nth_drop_Suc)
    ultimately show ?thesis
      using idle_lines_Cons[of "events ! pos" "drop (Suc pos) events" c]
      by (simp add: idle_drain.simps[of events pos] r on_idle_event_lines conn_write_append)
  qed
qed

text \<open>The general case: only the last 64 events reach a receiver that fell behind.\<close>

lemma idle_drain_eq:
  assumes "pos \<le> length events"
  shows "idle_drain events pos c =
    (length events, conn_write (idle_lines (drop (max pos (length events - CHANNEL_CAP)) events) c) c)"
proof (cases "CHANNEL_CAP < length events - pos")
  case True
  then have "\<not> length events \<le> pos" by simp
  with True have "idle_drain events pos c = idle_drain events (length events - CHANNEL_CAP) c"
    by (subst idle_drain.simps) (simp add: channel_recv_def)
  with True idle_drain_near[of events "length events - CHANNEL_CAP" c] show ?thesis by (simp add: max_def)
next
  case False
  then have "max pos (length events - CHANNEL_CAP) = pos" by simp
  with False show ?thesis using idle_drain_near[of events pos c] assms by simp
qed



end
