(* ===== verification/Capture.thy ===== *)
theory Capture
  imports Template Attestation Framing
begin

text \<open>
  Transcripts of IMAP connections (\<^verbatim>\<open>talk-imap/src/capture.rs\<close> and \<^verbatim>\<open>serve_conn\<close> of \<^verbatim>\<open>server.rs\<close>): the wrapper of a
  stream that copies every chunk read and written into a file. The texts of clock readings and whether the
  file can be created are functions of a record; writing to an open file is taken to succeed, since the
  program ignores its errors. A reader of transcripts shows that the copy is faithful.
\<close>

record capture_ext =
  cx_compact :: "int \<Rightarrow> rstr option"
  cx_rfc3339 :: "int \<Rightarrow> rstr option"
  cx_create :: "rstr \<Rightarrow> bool"

record capture_file =
  cp_path :: rstr
  cp_text :: bytes
  cp_finished :: bool

definition now_compact :: "capture_ext \<Rightarrow> int \<Rightarrow> rstr" where
  "now_compact X now = unwrap_or ''unknown'' (cx_compact X now)"

definition now_rfc3339 :: "capture_ext \<Rightarrow> int \<Rightarrow> rstr" where
  "now_rfc3339 X now = unwrap_or ''unknown'' (cx_rfc3339 X now)"

definition capture_path :: "capture_ext \<Rightarrow> int \<Rightarrow> rstr \<Rightarrow> nat \<Rightarrow> rstr" where
  "capture_path X now dir seq =
     path_join dir (''imap-'' @ now_compact X now @ ''-'' @ replicate (5 - length (show_nat seq)) (CHR ''0'') @ show_nat seq @ ''.pcap.txt'')"

definition capture_open :: "capture_ext \<Rightarrow> int \<Rightarrow> int \<Rightarrow> rstr \<Rightarrow> nat \<Rightarrow> rstr \<Rightarrow> capture_file option" where
  "capture_open X now now' dir seq peer =
     (let path = capture_path X now dir seq in
      if cx_create X path
      then Some \<lparr>cp_path = path,
             cp_text = ''# talkd IMAP session capture'' @ [LF] @ ''# file='' @ path @ [LF] @ ''# peer='' @ peer @ [LF] @
               ''# started='' @ now_rfc3339 X now' @ [LF],
             cp_finished = False\<rparr>
      else None)"

definition record_text :: "ext \<Rightarrow> char \<Rightarrow> bytes \<Rightarrow> bytes" where
  "record_text E d buf =
     [LF, d] @ ''> '' @ show_nat (length buf) @ '' bytes'' @ [LF] @ buf @ [LF, d] @ ''> hex: '' @ hex_encode E buf @ [LF]"

definition capture_record :: "ext \<Rightarrow> char \<Rightarrow> bytes \<Rightarrow> capture_file \<Rightarrow> capture_file" where
  "capture_record E d buf f = f\<lparr>cp_text := cp_text f @ record_text E d buf\<rparr>"

definition capture_finish :: "capture_ext \<Rightarrow> int \<Rightarrow> capture_file \<Rightarrow> capture_file" where
  "capture_finish X now f =
     (if cp_finished f then f
      else f\<lparr>cp_finished := True, cp_text := cp_text f @ [LF] @ ''# ended='' @ now_rfc3339 X now @ [LF]\<rparr>)"

text \<open>What the wrapped stream answers to a poll: bytes read, the number of bytes of a buffer written, the end of a shutdown, or anything else.\<close>

datatype poll = ReadReady bytes | WriteReady bytes nat | ShutdownReady | OtherPoll

definition captured_poll :: "ext \<Rightarrow> capture_ext \<Rightarrow> int \<Rightarrow> poll \<Rightarrow> capture_file \<Rightarrow> capture_file" where
  "captured_poll E X now ev f =
     (case ev of
        ReadReady got \<Rightarrow> if got = [] then f else capture_record E (CHR ''C'') got f
      | WriteReady buf n \<Rightarrow> capture_record E (CHR ''S'') (take n buf) f
      | ShutdownReady \<Rightarrow> capture_finish X now f
      | OtherPoll \<Rightarrow> f)"

fun captured_run :: "ext \<Rightarrow> capture_ext \<Rightarrow> (int \<times> poll) list \<Rightarrow> capture_file \<Rightarrow> capture_file" where
  "captured_run E X [] f = f"
| "captured_run E X ((now, ev) # evs) f = captured_run E X evs (captured_poll E X now ev f)"

text \<open>A connection of a server with a capture directory: the transcript it leaves, if its file could be created.\<close>

definition serve_conn ::
    "ext \<Rightarrow> capture_ext \<Rightarrow> rstr option \<Rightarrow> int \<Rightarrow> int \<Rightarrow> int \<Rightarrow> nat \<Rightarrow> rstr \<Rightarrow> (int \<times> poll) list \<Rightarrow> capture_file option" where
  "serve_conn E X capture_dir t0 t1 t2 seq peer evs =
     (case capture_dir of
        None \<Rightarrow> None
      | Some dir \<Rightarrow> map_option (\<lambda>f. capture_finish X t2 (captured_run E X evs f)) (capture_open X t0 t1 dir seq peer))"

subsection \<open>Reading a transcript\<close>

text \<open>The traffic of a connection, and the reader that finds it in the text after the header.\<close>

fun traffic :: "(int \<times> poll) list \<Rightarrow> (char \<times> bytes) list" where
  "traffic [] = []"
| "traffic ((_, ReadReady got) # evs) = (if got = [] then traffic evs else (CHR ''C'', got) # traffic evs)"
| "traffic ((_, WriteReady buf n) # evs) = (CHR ''S'', take n buf) # traffic evs"
| "traffic (_ # evs) = traffic evs"

definition read_record :: "ext \<Rightarrow> bytes \<Rightarrow> ((char \<times> bytes) \<times> bytes) option" where
  "read_record E text =
     (case text of
        x # d # rest \<Rightarrow>
          (case map_option (split_once (CHR '' '')) (strip_prefix ''> '' rest) of
             Some (Some (count, rest1)) \<Rightarrow>
               (case (parse_uint (length text) count, strip_prefix (''bytes'' @ [LF]) rest1) of
                  (Some n, Some rest2) \<Rightarrow>
                    (let buf = take n rest2 in
                     map_option (\<lambda>rest3. ((d, buf), rest3)) (strip_prefix ([LF, d] @ ''> hex: '' @ hex_encode E buf @ [LF]) (drop n rest2)))
                | _ \<Rightarrow> None)
           | _ \<Rightarrow> None)
      | _ \<Rightarrow> None)"

definition skip_end :: "bytes \<Rightarrow> bytes option" where
  "skip_end text =
     (case strip_prefix (LF # ''# ended='') text of
        Some rest \<Rightarrow> map_option snd (split_once LF rest)
      | None \<Rightarrow> None)"

lemma split_once_shorter: "split_once c s = Some (a, b) \<Longrightarrow> length b < length s"
  by (drule split_once_SomeD) auto

lemma strip_prefix_shorter: "strip_prefix p s = Some r \<Longrightarrow> length r \<le> length s"
  by (simp add: strip_prefix_Some_iff)

lemma skip_end_shorter: "skip_end text = Some rest \<Longrightarrow> length rest < length text"
  by (auto simp: skip_end_def split: option.splits dest!: split_once_shorter strip_prefix_shorter)

lemma read_record_shorter: "read_record E text = Some (r, rest) \<Longrightarrow> length rest < length text"
  by (auto simp: read_record_def Let_def split: list.splits option.splits dest!: split_once_shorter strip_prefix_shorter)

function replay :: "ext \<Rightarrow> bytes \<Rightarrow> (char \<times> bytes) list option" where
  "replay E text =
     (if text = [] then Some []
      else (case skip_end text of
              Some rest \<Rightarrow> replay E rest
            | None \<Rightarrow>
                (case read_record E text of
                   None \<Rightarrow> None
                 | Some (r, rest) \<Rightarrow> map_option ((#) r) (replay E rest))))"
  by pat_completeness auto
termination
  by (relation "measure (\<lambda>(E, text). length text)") (auto dest: skip_end_shorter read_record_shorter)

declare replay.simps [simp del]

lemma read_record_text: "read_record E (record_text E d buf @ rest) = Some ((d, buf), rest)"
proof -
  have "CHR '' '' \<notin> set (show_nat (length buf))" using token_no_space[OF token_show_nat] .
  moreover have "length buf \<le> length (record_text E d buf @ rest)" by (simp add: record_text_def)
  ultimately show ?thesis
    using strip_prefix_append[of "[LF, d] @ ''> hex: '' @ hex_encode E buf @ [LF]" rest]
    unfolding read_record_def record_text_def by simp
qed

lemma replay_record:
  assumes "d \<noteq> CHR ''#''" shows "replay E (record_text E d buf @ rest) = map_option ((#) (d, buf)) (replay E rest)"
proof -
  have "skip_end (record_text E d buf @ rest) = None" using assms by (simp add: skip_end_def record_text_def)
  then show ?thesis by (subst replay.simps) (simp add: read_record_text, simp add: record_text_def)
qed

lemma replay_end:
  assumes "LF \<notin> set t" shows "replay E (LF # ''# ended='' @ t @ LF # rest) = replay E rest"
proof -
  have "skip_end (LF # ''# ended='' @ t @ LF # rest) = Some rest" using assms by (simp add: skip_end_def)
  then show ?thesis by (subst replay.simps) simp
qed

text \<open>What a run appends to the file.\<close>

lemma append_sections: "append [] = (\<lambda>ys. ys)" "append [x] = Cons x"
  by auto

lemma captured_run_text:
  assumes "\<And>t. LF \<notin> set (now_rfc3339 X t)"
  shows "\<exists>text. cp_text (captured_run E X evs f) = cp_text f @ text \<and>
    (\<forall>rest. replay E (text @ rest) = map_option (append (traffic evs)) (replay E rest))"
proof (induction evs arbitrary: f)
  case Nil
  show ?case by (intro exI[of _ "[]"]) (simp add: append_sections option.map_ident)
next
  case (Cons x evs)
  obtain now ev where x: "x = (now, ev)" by fastforce
  have step: "\<exists>a. cp_text (captured_poll E X now ev f) = cp_text f @ a \<and>
      (\<forall>rest. replay E (a @ rest) = map_option (append (traffic [x])) (replay E rest))"
  proof (cases ev)
    case (ReadReady got)
    then show ?thesis using x
      by (cases "got = []") (auto simp: captured_poll_def capture_record_def replay_record append_sections option.map_ident)
  next
    case (WriteReady buf n)
    then show ?thesis using x by (auto simp: captured_poll_def capture_record_def replay_record append_sections)
  next
    case ShutdownReady
    then show ?thesis using x replay_end[OF assms, of E now]
      by (cases "cp_finished f") (auto simp: captured_poll_def capture_finish_def append_sections option.map_ident)
  next
    case OtherPoll
    then show ?thesis using x by (auto simp: captured_poll_def append_sections option.map_ident)
  qed
  then obtain a where a: "cp_text (captured_poll E X now ev f) = cp_text f @ a"
    "\<And>rest. replay E (a @ rest) = map_option (append (traffic [x])) (replay E rest)" by blast
  obtain b where b: "cp_text (captured_run E X evs (captured_poll E X now ev f)) = cp_text (captured_poll E X now ev f) @ b"
    "\<And>rest. replay E (b @ rest) = map_option (append (traffic evs)) (replay E rest)" using Cons.IH by blast
  have "traffic (x # evs) = traffic [x] @ traffic evs" by (cases ev) (simp_all add: x)
  with a b show ?case by (intro exI[of _ "a @ b"]) (simp add: x option.map_comp comp_def)
qed

text \<open>
  The transcript of a connection replays to exactly the chunks read from and written to the peer, in
  order and byte for byte, whatever these bytes are and whatever text they imitate.
\<close>

theorem transcript_replays:
  assumes "\<And>t. LF \<notin> set (now_rfc3339 X t)" "serve_conn E X (Some dir) t0 t1 t2 seq peer evs = Some f"
  shows "\<exists>g text. capture_open X t0 t1 dir seq peer = Some g \<and> cp_text f = cp_text g @ text \<and> replay E text = Some (traffic evs)"
proof -
  obtain g where g: "capture_open X t0 t1 dir seq peer = Some g" "f = capture_finish X t2 (captured_run E X evs g)"
    using assms(2) by (auto simp: serve_conn_def)
  obtain a where a: "cp_text (captured_run E X evs g) = cp_text g @ a"
    "\<And>rest. replay E (a @ rest) = map_option (append (traffic evs)) (replay E rest)"
    using captured_run_text[of X E evs g, OF assms(1)] by blast
  have e: "replay E [] = Some []" by (simp add: replay.simps)
  then have "replay E a = Some (traffic evs)" using a(2)[of "[]"] by simp
  moreover have "replay E (a @ LF # ''# ended='' @ now_rfc3339 X t2 @ [LF]) = Some (traffic evs)"
    unfolding a(2) replay_end[OF assms(1)] e by simp
  ultimately show ?thesis using g a(1) by (auto simp: capture_finish_def)
qed

end
