(* ===== verification/Schema.thy ===== *)
theory Schema
  imports Sqlite Template "HOL-Library.Monad_Syntax"
begin

text \<open>
  Opening the mail store (\<^verbatim>\<open>open\<close> and \<^verbatim>\<open>init_schema\<close> of \<^verbatim>\<open>talk-mailstore/src/sqlite.rs\<close>): a database file as tables of columns
  and untyped cells, the statements that create missing tables and indexes, and the migration that adds the
  columns of later versions to the tables of earlier ones. The function that reads the tables as the rows of
  the record \<open>store\<close>, on which the rest of the development works, is the abstraction between the two levels.
\<close>

subsection \<open>Databases\<close>

datatype sql_value = Null | Integer int | Text rstr | Blob bytes

datatype sql_type = INTEGER | TEXT | BLOB

record column =
  co_name :: rstr
  co_type :: sql_type
  co_not_null :: bool
  co_default :: sql_value

record table =
  tb_columns :: "column list"
  tb_rows :: "sql_value list list"

record database =
  db_tables :: "rstr \<Rightarrow> table option"
  db_indexes :: "rstr list"

datatype ddl_error = NoSuchTable rstr | NoSuchColumn rstr | DuplicateColumn rstr | NullDefault rstr

datatype ddl =
    CreateTable rstr "column list"
  | CreateIndex rstr rstr "rstr list"
  | AddColumn rstr column

definition col_names :: "table \<Rightarrow> rstr list" where
  "col_names t = map co_name (tb_columns t)"

definition empty_table :: "column list \<Rightarrow> table" where
  "empty_table cs = \<lparr>tb_columns = cs, tb_rows = []\<rparr>"

text \<open>A column added to a table takes its default in every row.\<close>

definition add_column :: "column \<Rightarrow> table \<Rightarrow> table" where
  "add_column c t = \<lparr>tb_columns = tb_columns t @ [c], tb_rows = map (\<lambda>r. r @ [co_default c]) (tb_rows t)\<rparr>"

text \<open>Tables and indexes are created unless they exist; SQLite refuses a NOT NULL column without a default.\<close>

fun exec_ddl :: "ddl \<Rightarrow> database \<Rightarrow> (ddl_error, unit) result \<times> database" where
  "exec_ddl (CreateTable n cs) db =
     (Inr (), if db_tables db n = None then db\<lparr>db_tables := (db_tables db)(n \<mapsto> empty_table cs)\<rparr> else db)"
| "exec_ddl (CreateIndex i n cs) db =
     (if i \<in> set (db_indexes db) then (Inr (), db)
      else (case db_tables db n of
              None \<Rightarrow> (Inl (NoSuchTable n), db)
            | Some t \<Rightarrow>
                (case find (\<lambda>c. c \<notin> set (col_names t)) cs of
                   Some c \<Rightarrow> (Inl (NoSuchColumn c), db)
                 | None \<Rightarrow> (Inr (), db\<lparr>db_indexes := db_indexes db @ [i]\<rparr>))))"
| "exec_ddl (AddColumn n c) db =
     (case db_tables db n of
        None \<Rightarrow> (Inl (NoSuchTable n), db)
      | Some t \<Rightarrow>
          if co_name c \<in> set (col_names t) then (Inl (DuplicateColumn (co_name c)), db)
          else if co_not_null c \<and> co_default c = Null then (Inl (NullDefault (co_name c)), db)
          else (Inr (), db\<lparr>db_tables := (db_tables db)(n \<mapsto> add_column c t)\<rparr>))"

text \<open>A batch stops at its first error and keeps what was done before it.\<close>

fun execute_batch :: "ddl list \<Rightarrow> database \<Rightarrow> (ddl_error, unit) result \<times> database" where
  "execute_batch [] db = (Inr (), db)"
| "execute_batch (s # ss) db =
     (case exec_ddl s db of (Inl e, db') \<Rightarrow> (Inl e, db') | (Inr _, db') \<Rightarrow> execute_batch ss db')"

subsection \<open>The schema\<close>

text \<open>
  An \<^verbatim>\<open>INTEGER PRIMARY KEY\<close> is the row id and never null. Keys, uniqueness and references are constraints on later
  statements, stated as the invariant of the store.
\<close>

definition required :: "rstr \<Rightarrow> sql_type \<Rightarrow> column" where
  "required n ty = \<lparr>co_name = n, co_type = ty, co_not_null = True, co_default = Null\<rparr>"

definition nullable :: "rstr \<Rightarrow> sql_type \<Rightarrow> column" where
  "nullable n ty = \<lparr>co_name = n, co_type = ty, co_not_null = False, co_default = Null\<rparr>"

definition defaulted :: "rstr \<Rightarrow> sql_type \<Rightarrow> sql_value \<Rightarrow> column" where
  "defaulted n ty d = \<lparr>co_name = n, co_type = ty, co_not_null = True, co_default = d\<rparr>"

definition users_table :: "column list" where
  "users_table =
     [required ''id'' INTEGER, required ''username'' TEXT, required ''password_hash'' TEXT, required ''master_pubkey'' BLOB,
      required ''created_at'' INTEGER]"

definition keyring_table :: "column list" where
  "keyring_table =
     [required ''user_id'' INTEGER, required ''sender_mailbox'' TEXT, required ''sender_pubkey'' TEXT,
      required ''attestation'' BLOB, required ''state'' TEXT, required ''first_seen'' INTEGER]"

definition shares_table :: "column list" where
  "shares_table =
     [required ''user_id'' INTEGER, required ''share_id'' TEXT, required ''wrapped_dk'' BLOB, defaulted ''revoked'' INTEGER (Integer 0)]"

definition mailboxes_table :: "column list" where
  "mailboxes_table =
     [required ''id'' INTEGER, required ''user_id'' INTEGER, required ''name'' TEXT, required ''uidvalidity'' INTEGER,
      defaulted ''uidnext'' INTEGER (Integer 1)]"

text \<open>The columns of the first version of the messages table, and those added to it and to the users since.\<close>

definition messages_base :: "column list" where
  "messages_base =
     [required ''id'' INTEGER, required ''mailbox_id'' INTEGER, required ''message_id'' TEXT, required ''uid'' INTEGER,
      required ''internaldate'' INTEGER, defaulted ''flags'' INTEGER (Integer 0), required ''subject'' TEXT,
      required ''size'' INTEGER, required ''body_blob'' BLOB]"

definition col_ivk_commitment :: column where
  "col_ivk_commitment = nullable ''ivk_commitment'' TEXT"

definition col_registration_attestation :: column where
  "col_registration_attestation = nullable ''registration_attestation'' TEXT"

definition col_sender :: column where
  "col_sender = defaulted ''sender'' TEXT (Text [])"

definition col_trust_state :: column where
  "col_trust_state = defaulted ''trust_state'' TEXT (Text ''unverified'')"

definition messages_table :: "column list" where
  "messages_table = messages_base @ [col_sender, col_trust_state]"

definition settings_table :: "column list" where
  "settings_table = [nullable ''key'' TEXT, required ''value'' TEXT]"

definition transactions_table :: "column list" where
  "transactions_table =
     [required ''id'' INTEGER, required ''direction'' TEXT, required ''state'' TEXT, required ''sender_mailbox'' TEXT,
      required ''recipient_mailbox'' TEXT, defaulted ''amount'' TEXT (Text []), nullable ''binding'' TEXT,
      required ''message_id'' TEXT, nullable ''message_row_id'' INTEGER, nullable ''outbound_body'' BLOB,
      defaulted ''payload'' TEXT (Text ''sealed''), required ''created_at'' INTEGER, required ''updated_at'' INTEGER]"

definition schema_batch :: "ddl list" where
  "schema_batch =
     [CreateTable ''users'' users_table, CreateTable ''keyring_entries'' keyring_table, CreateTable ''shares'' shares_table,
      CreateTable ''mailboxes'' mailboxes_table, CreateTable ''messages'' messages_table,
      CreateIndex ''idx_messages_mailbox_uid'' ''messages'' [''mailbox_id'', ''uid''],
      CreateIndex ''idx_messages_mailbox_flags'' ''messages'' [''mailbox_id'', ''flags''],
      CreateTable ''settings'' settings_table, CreateTable ''transactions'' transactions_table]"

definition migrations :: "(rstr \<times> column) list" where
  "migrations =
     [(''users'', col_ivk_commitment), (''users'', col_registration_attestation), (''messages'', col_sender),
      (''messages'', col_trust_state)]"

text \<open>The number of columns of a table with a name, as \<^verbatim>\<open>pragma_table_info\<close> lists them.\<close>

definition has_column :: "rstr \<Rightarrow> rstr \<Rightarrow> database \<Rightarrow> nat" where
  "has_column n c db =
     (case db_tables db n of None \<Rightarrow> 0 | Some t \<Rightarrow> length (filter (\<lambda>x. x = c) (col_names t)))"

fun migrate :: "(rstr \<times> column) list \<Rightarrow> database \<Rightarrow> (ddl_error, unit) result \<times> database" where
  "migrate [] db = (Inr (), db)"
| "migrate ((n, c) # ms) db =
     (if has_column n (co_name c) db = 0
      then (case exec_ddl (AddColumn n c) db of (Inl e, db') \<Rightarrow> (Inl e, db') | (Inr _, db') \<Rightarrow> migrate ms db')
      else migrate ms db)"

definition init_schema :: "database \<Rightarrow> (ddl_error, unit) result \<times> database" where
  "init_schema db =
     (case execute_batch schema_batch db of (Inl e, db') \<Rightarrow> (Inl e, db') | (Inr _, db') \<Rightarrow> migrate migrations db')"

text \<open>
  The files of a disk that are databases. Creating the directory, opening the file and setting the journal
  mode and the foreign keys may fail; a file that does not exist is created empty.
\<close>

record sqlite_ext =
  sq_mkdir :: "rstr \<Rightarrow> rstr option"
  sq_connect :: "rstr \<Rightarrow> rstr option"
  sq_pragma :: "rstr \<Rightarrow> rstr \<Rightarrow> rstr option"

datatype open_error = OpenIo rstr | OpenStorage rstr | OpenSchema ddl_error

definition database_at :: "rstr \<Rightarrow> (rstr \<Rightarrow> database option) \<Rightarrow> database" where
  "database_at path disk = (case disk path of Some db \<Rightarrow> db | None \<Rightarrow> \<lparr>db_tables = Map.empty, db_indexes = []\<rparr>)"

definition sqlite_open :: "sqlite_ext \<Rightarrow> rstr \<Rightarrow> (rstr \<Rightarrow> database option) \<Rightarrow> (open_error, unit) result \<times> (rstr \<Rightarrow> database option)" where
  "sqlite_open X path disk =
     (case (case path_parent path of Some d \<Rightarrow> if d = [] then None else sq_mkdir X d | None \<Rightarrow> None) of
        Some e \<Rightarrow> (Inl (OpenIo e), disk)
      | None \<Rightarrow>
     (case sq_connect X path of
        Some e \<Rightarrow> (Inl (OpenStorage e), disk)
      | None \<Rightarrow>
     (case sq_pragma X ''journal_mode'' ''WAL'' of
        Some e \<Rightarrow> (Inl (OpenStorage e), disk(path \<mapsto> database_at path disk))
      | None \<Rightarrow>
     (case sq_pragma X ''foreign_keys'' ''ON'' of
        Some e \<Rightarrow> (Inl (OpenStorage e), disk(path \<mapsto> database_at path disk))
      | None \<Rightarrow>
     (case init_schema (database_at path disk) of
        (Inl e, db) \<Rightarrow> (Inl (OpenSchema e), disk(path \<mapsto> db))
      | (Inr _, db) \<Rightarrow> (Inr (), disk(path \<mapsto> db)))))))"

subsection \<open>Reading\<close>

fun as_int :: "sql_value \<Rightarrow> int option" where
  "as_int (Integer i) = Some i"
| "as_int _ = None"

fun as_text :: "sql_value \<Rightarrow> rstr option" where
  "as_text (Text s) = Some s"
| "as_text _ = None"

fun as_blob :: "sql_value \<Rightarrow> bytes option" where
  "as_blob (Blob b) = Some b"
| "as_blob _ = None"

definition as_u32 :: "sql_value \<Rightarrow> 32 word option" where
  "as_u32 v = (case as_int v of Some i \<Rightarrow> if 0 \<le> i \<and> i < 2 ^ 32 then Some (word_of_int i) else None | None \<Rightarrow> None)"

definition as_size :: "sql_value \<Rightarrow> nat option" where
  "as_size v = (case as_int v of Some i \<Rightarrow> if 0 \<le> i then Some (nat i) else None | None \<Rightarrow> None)"

definition as_opt :: "(sql_value \<Rightarrow> 'a option) \<Rightarrow> sql_value \<Rightarrow> 'a option option" where
  "as_opt f v = (if v = Null then Some None else map_option Some (f v))"

text \<open>A cell by the name of its column; a column that later versions added reads as its default where it is missing.\<close>

definition cell :: "column list \<Rightarrow> sql_value list \<Rightarrow> rstr \<Rightarrow> sql_value option" where
  "cell cs r n = map_of (zip (map co_name cs) r) n"

definition cell_or :: "column list \<Rightarrow> sql_value list \<Rightarrow> column \<Rightarrow> sql_value" where
  "cell_or cs r c = (case cell cs r (co_name c) of Some v \<Rightarrow> v | None \<Rightarrow> co_default c)"

definition read_user :: "column list \<Rightarrow> sql_value list \<Rightarrow> user_row option" where
  "read_user cs r =
     do { i \<leftarrow> cell cs r ''id'' \<bind> as_int; name \<leftarrow> cell cs r ''username'' \<bind> as_text;
          h \<leftarrow> cell cs r ''password_hash'' \<bind> as_text; key \<leftarrow> cell cs r ''master_pubkey'' \<bind> as_blob;
          t \<leftarrow> cell cs r ''created_at'' \<bind> as_int; ivk \<leftarrow> as_opt as_text (cell_or cs r col_ivk_commitment);
          reg \<leftarrow> as_opt as_text (cell_or cs r col_registration_attestation);
          Some \<lparr>u_id = i, u_username = name, u_password_hash = h, u_master_pubkey = key, u_created_at = t,
                u_ivk_commitment = ivk, u_registration_attestation = reg\<rparr> }"

definition read_keyring :: "column list \<Rightarrow> sql_value list \<Rightarrow> keyring_row option" where
  "read_keyring cs r =
     do { u \<leftarrow> cell cs r ''user_id'' \<bind> as_int; m \<leftarrow> cell cs r ''sender_mailbox'' \<bind> as_text;
          k \<leftarrow> cell cs r ''sender_pubkey'' \<bind> as_text; a \<leftarrow> cell cs r ''attestation'' \<bind> as_blob;
          s \<leftarrow> cell cs r ''state'' \<bind> as_text; t \<leftarrow> cell cs r ''first_seen'' \<bind> as_int;
          Some \<lparr>k_user_id = u, k_sender_mailbox = m, k_sender_pubkey = k, k_attestation = a, k_state = s, k_first_seen = t\<rparr> }"

definition read_share :: "column list \<Rightarrow> sql_value list \<Rightarrow> share_row option" where
  "read_share cs r =
     do { u \<leftarrow> cell cs r ''user_id'' \<bind> as_int; i \<leftarrow> cell cs r ''share_id'' \<bind> as_text;
          w \<leftarrow> cell cs r ''wrapped_dk'' \<bind> as_blob; v \<leftarrow> cell cs r ''revoked'' \<bind> as_int;
          Some \<lparr>sh_user_id = u, sh_share_id = i, sh_wrapped_dk = w, sh_revoked = v\<rparr> }"

definition read_mailbox :: "column list \<Rightarrow> sql_value list \<Rightarrow> mailbox_row option" where
  "read_mailbox cs r =
     do { i \<leftarrow> cell cs r ''id'' \<bind> as_int; u \<leftarrow> cell cs r ''user_id'' \<bind> as_int;
          n \<leftarrow> cell cs r ''name'' \<bind> as_text; v \<leftarrow> cell cs r ''uidvalidity'' \<bind> as_u32;
          x \<leftarrow> cell cs r ''uidnext'' \<bind> as_int;
          Some \<lparr>mb_id = i, mb_user_id = u, mb_name = n, mb_uidvalidity = v, mb_uidnext = x\<rparr> }"

definition read_message :: "column list \<Rightarrow> sql_value list \<Rightarrow> message_row option" where
  "read_message cs r =
     do { i \<leftarrow> cell cs r ''id'' \<bind> as_int; b \<leftarrow> cell cs r ''mailbox_id'' \<bind> as_int;
          m \<leftarrow> cell cs r ''message_id'' \<bind> as_text; u \<leftarrow> cell cs r ''uid'' \<bind> as_int;
          d \<leftarrow> cell cs r ''internaldate'' \<bind> as_int; f \<leftarrow> cell cs r ''flags'' \<bind> as_u32;
          s \<leftarrow> cell cs r ''subject'' \<bind> as_text; z \<leftarrow> cell cs r ''size'' \<bind> as_size;
          body \<leftarrow> cell cs r ''body_blob'' \<bind> as_blob; from \<leftarrow> as_text (cell_or cs r col_sender);
          trust \<leftarrow> as_text (cell_or cs r col_trust_state);
          Some \<lparr>m_id = i, m_mailbox_id = b, m_message_id = m, m_uid = u, m_internaldate = d, m_flags = f, m_subject = s,
                m_size = z, m_body = body, m_sender = from, m_trust_state = trust\<rparr> }"

definition read_setting :: "column list \<Rightarrow> sql_value list \<Rightarrow> (rstr \<times> rstr) option" where
  "read_setting cs r = do { k \<leftarrow> cell cs r ''key'' \<bind> as_text; v \<leftarrow> cell cs r ''value'' \<bind> as_text; Some (k, v) }"

definition read_tx :: "column list \<Rightarrow> sql_value list \<Rightarrow> tx_row option" where
  "read_tx cs r =
     do { i \<leftarrow> cell cs r ''id'' \<bind> as_int; d \<leftarrow> cell cs r ''direction'' \<bind> as_text;
          s \<leftarrow> cell cs r ''state'' \<bind> as_text; a \<leftarrow> cell cs r ''sender_mailbox'' \<bind> as_text;
          b \<leftarrow> cell cs r ''recipient_mailbox'' \<bind> as_text; m \<leftarrow> cell cs r ''amount'' \<bind> as_text;
          g \<leftarrow> cell cs r ''binding'' \<bind> as_opt as_text; mid \<leftarrow> cell cs r ''message_id'' \<bind> as_text;
          row \<leftarrow> cell cs r ''message_row_id'' \<bind> as_opt as_int; body \<leftarrow> cell cs r ''outbound_body'' \<bind> as_opt as_blob;
          p \<leftarrow> cell cs r ''payload'' \<bind> as_text; c \<leftarrow> cell cs r ''created_at'' \<bind> as_int;
          u \<leftarrow> cell cs r ''updated_at'' \<bind> as_int;
          Some \<lparr>t_id = i, t_direction = d, t_state = s, t_sender_mailbox = a, t_recipient_mailbox = b, t_amount = m,
                t_binding = g, t_message_id = mid, t_message_row_id = row, t_outbound_body = body, t_payload = p,
                t_created_at = c, t_updated_at = u\<rparr> }"

text \<open>A table that does not exist has no rows.\<close>

fun all_some :: "'a option list \<Rightarrow> 'a list option" where
  "all_some [] = Some []"
| "all_some (x # xs) = do { y \<leftarrow> x; ys \<leftarrow> all_some xs; Some (y # ys) }"

definition read_rows :: "(column list \<Rightarrow> sql_value list \<Rightarrow> 'a option) \<Rightarrow> table option \<Rightarrow> 'a list option" where
  "read_rows f t = (case t of None \<Rightarrow> Some [] | Some t \<Rightarrow> all_some (map (f (tb_columns t)) (tb_rows t)))"

definition read_store :: "database \<Rightarrow> store option" where
  "read_store db =
     do { us \<leftarrow> read_rows read_user (db_tables db ''users''); ks \<leftarrow> read_rows read_keyring (db_tables db ''keyring_entries'');
          ss \<leftarrow> read_rows read_share (db_tables db ''shares''); bs \<leftarrow> read_rows read_mailbox (db_tables db ''mailboxes'');
          ms \<leftarrow> read_rows read_message (db_tables db ''messages''); es \<leftarrow> read_rows read_setting (db_tables db ''settings'');
          ts \<leftarrow> read_rows read_tx (db_tables db ''transactions'');
          Some \<lparr>users = us, keyring_entries = ks, shares = ss, mailboxes = bs, messages = ms, settings = es,
                transactions = ts, poisoned = False\<rparr> }"

subsection \<open>Well formed databases\<close>

definition value_fits :: "column \<Rightarrow> sql_value \<Rightarrow> bool" where
  "value_fits c v =
     (case v of Null \<Rightarrow> \<not> co_not_null c | Integer _ \<Rightarrow> co_type c = INTEGER | Text _ \<Rightarrow> co_type c = TEXT | Blob _ \<Rightarrow> co_type c = BLOB)"

definition typed :: "table \<Rightarrow> bool" where
  "typed t \<longleftrightarrow> (\<forall>r \<in> set (tb_rows t). list_all2 value_fits (tb_columns t) r)"

text \<open>The tables of the first version, and those of the present one.\<close>

definition first_tables :: "(rstr \<times> column list) list" where
  "first_tables =
     [(''users'', users_table), (''keyring_entries'', keyring_table), (''shares'', shares_table),
      (''mailboxes'', mailboxes_table), (''messages'', messages_base), (''settings'', settings_table),
      (''transactions'', transactions_table)]"

definition added :: "rstr \<Rightarrow> column list" where
  "added n = map snd (filter (\<lambda>(m, c). m = n) migrations)"

text \<open>
  A database that some version of the store has written: each table is missing, or has the columns
  of its first version, any of the later columns only as declared, and cells of the types of their columns.
\<close>

definition upgradable :: "database \<Rightarrow> bool" where
  "upgradable db \<longleftrightarrow>
     (\<forall>(n, cs) \<in> set first_tables. case db_tables db n of None \<Rightarrow> True | Some t \<Rightarrow>
        set cs \<subseteq> set (tb_columns t) \<and> typed t \<and>
        (\<forall>c \<in> set (tb_columns t). \<forall>a \<in> set (added n). co_name a = co_name c \<longrightarrow> a = c))"

subsection \<open>Creating and adding\<close>

text \<open>What the statements come to: missing tables are created empty, missing columns are added.\<close>

definition add_missing :: "column \<Rightarrow> table \<Rightarrow> table" where
  "add_missing c t = (if co_name c \<in> set (col_names t) then t else add_column c t)"

definition created :: "(rstr \<times> column list) list \<Rightarrow> database \<Rightarrow> rstr \<Rightarrow> table option" where
  "created ts db n = (case db_tables db n of Some t \<Rightarrow> Some t | None \<Rightarrow> map_option empty_table (map_of ts n))"

lemma execute_batch_append:
  "execute_batch (ss @ ss') db =
     (case execute_batch ss db of (Inl e, db') \<Rightarrow> (Inl e, db') | (Inr _, db') \<Rightarrow> execute_batch ss' db')"
  by (induction ss arbitrary: db) (auto split: prod.splits sum.splits)

lemma create_tables:
  "execute_batch (map (\<lambda>(n, cs). CreateTable n cs) ts) db = (Inr (), db\<lparr>db_tables := created ts db\<rparr>)"
proof (induction ts arbitrary: db)
  case Nil
  have "created [] db = db_tables db" by (rule ext) (simp add: created_def split: option.split)
  then show ?case by simp
next
  case (Cons nc ts)
  obtain n cs where nc: "nc = (n, cs)" by force
  have "created ts (db\<lparr>db_tables := (db_tables db)(n \<mapsto> empty_table cs)\<rparr>) = created (nc # ts) db" if "db_tables db n = None"
    using that by (auto simp: created_def nc fun_eq_iff split: option.split)
  moreover have "created ts db = created (nc # ts) db" if "db_tables db n \<noteq> None"
    using that by (auto simp: created_def nc fun_eq_iff split: option.split)
  ultimately show ?case by (simp add: nc Cons.IH)
qed

lemma create_index:
  assumes "db_tables db n = Some t" "set cs \<subseteq> set (col_names t)"
  shows "exec_ddl (CreateIndex i n cs) db =
    (Inr (), db\<lparr>db_indexes := (if i \<in> set (db_indexes db) then db_indexes db else db_indexes db @ [i])\<rparr>)"
proof -
  have "find (\<lambda>c. c \<notin> set (col_names t)) cs = None" using assms(2) by (auto simp: find_None_iff)
  then show ?thesis using assms(1) by simp
qed

lemma migrate_all:
  assumes "\<forall>(n, c) \<in> set ms. db_tables db n \<noteq> None \<and> (co_not_null c \<longrightarrow> co_default c \<noteq> Null)"
  shows "migrate ms db = (Inr (), db\<lparr>db_tables := (\<lambda>n. map_option (fold add_missing (map snd (filter (\<lambda>(m, c). m = n) ms))) (db_tables db n))\<rparr>)"
  using assms
proof (induction ms arbitrary: db)
  case Nil
  have "(\<lambda>n. map_option (\<lambda>t. t) (db_tables db n)) = db_tables db" by (simp add: option.map_ident)
  then show ?case by (simp add: id_def)
next
  case (Cons nc ms)
  obtain n c where nc: "nc = (n, c)" by force
  obtain t where t: "db_tables db n = Some t" using Cons.prems by (auto simp: nc)
  define db1 where "db1 = db\<lparr>db_tables := (db_tables db)(n \<mapsto> add_missing c t)\<rparr>"
  have has: "has_column n (co_name c) db = 0 \<longleftrightarrow> co_name c \<notin> set (col_names t)"
    by (auto simp: has_column_def t filter_empty_conv)
  have "db1 = db" if "co_name c \<in> set (col_names t)"
    using that t by (simp add: db1_def add_missing_def fun_upd_idem)
  then have step: "migrate (nc # ms) db = migrate ms db1"
    using Cons.prems t has by (auto simp: nc db1_def add_missing_def)
  have "\<forall>(n, c) \<in> set ms. db_tables db1 n \<noteq> None \<and> (co_not_null c \<longrightarrow> co_default c \<noteq> Null)"
    using Cons.prems by (auto simp: db1_def)
  from Cons.IH[OF this] show ?case unfolding step
    by (auto simp: db1_def nc t fun_eq_iff)
qed

text \<open>The database after opening.\<close>

definition created_tables :: "(rstr \<times> column list) list" where
  "created_tables =
     [(''users'', users_table), (''keyring_entries'', keyring_table), (''shares'', shares_table),
      (''mailboxes'', mailboxes_table), (''messages'', messages_table), (''settings'', settings_table),
      (''transactions'', transactions_table)]"

definition indexed :: "rstr \<Rightarrow> rstr list \<Rightarrow> rstr list" where
  "indexed i is' = (if i \<in> set is' then is' else is' @ [i])"

definition upgraded :: "database \<Rightarrow> database" where
  "upgraded db =
     \<lparr>db_tables = (\<lambda>n. map_option (fold add_missing (added n)) (created created_tables db n)),
      db_indexes = indexed ''idx_messages_mailbox_flags'' (indexed ''idx_messages_mailbox_uid'' (db_indexes db))\<rparr>"

definition indexable :: "database \<Rightarrow> bool" where
  "indexable db \<longleftrightarrow>
     (case db_tables db ''messages'' of None \<Rightarrow> True | Some t \<Rightarrow> {''mailbox_id'', ''uid'', ''flags''} \<subseteq> set (col_names t))"

lemmas column_defs = required_def nullable_def defaulted_def col_ivk_commitment_def col_registration_attestation_def
  col_sender_def col_trust_state_def

lemma added_simps [simp]:
  "added ''users'' = [col_ivk_commitment, col_registration_attestation]" "added ''messages'' = [col_sender, col_trust_state]"
  "added ''keyring_entries'' = []" "added ''shares'' = []" "added ''mailboxes'' = []" "added ''settings'' = []"
  "added ''transactions'' = []"
  by (simp_all add: added_def migrations_def)

lemma created_distinct: "created ts' (db\<lparr>db_tables := created ts db, db_indexes := is'\<rparr>) = created (ts @ ts') db"
  by (auto simp: created_def fun_eq_iff map_add_def split: option.split)

lemma schema_created:
  assumes "indexable db"
  shows "execute_batch schema_batch db = (Inr (), db\<lparr>db_tables := created created_tables db,
    db_indexes := indexed ''idx_messages_mailbox_flags'' (indexed ''idx_messages_mailbox_uid'' (db_indexes db))\<rparr>)"
proof -
  let ?c = "map (\<lambda>(n, cs). CreateTable n cs)"
  let ?i1 = "CreateIndex ''idx_messages_mailbox_uid'' ''messages'' [''mailbox_id'', ''uid'']"
  let ?i2 = "CreateIndex ''idx_messages_mailbox_flags'' ''messages'' [''mailbox_id'', ''flags'']"
  let ?ts = "take 5 created_tables" let ?us = "drop 5 created_tables"
  have batch: "schema_batch = ?c ?ts @ [?i1, ?i2] @ ?c ?us"
    by (simp add: schema_batch_def created_tables_def)
  obtain t where t: "created ?ts db ''messages'' = Some t" "{''mailbox_id'', ''uid'', ''flags''} \<subseteq> set (col_names t)"
    using assms unfolding indexable_def
    by (cases "db_tables db ''messages''")
      (auto simp: created_def created_tables_def empty_table_def col_names_def messages_table_def messages_base_def column_defs)
  have "execute_batch [?i1, ?i2] (db\<lparr>db_tables := created ?ts db\<rparr>) = (Inr (), db\<lparr>db_tables := created ?ts db,
      db_indexes := indexed ''idx_messages_mailbox_flags'' (indexed ''idx_messages_mailbox_uid'' (db_indexes db))\<rparr>)"
    using t by (simp add: create_index indexed_def del: exec_ddl.simps)
  then show ?thesis
    unfolding batch execute_batch_append create_tables prod.case sum.case created_distinct
    by (simp add: created_distinct)
qed

lemma init_schema_upgraded:
  assumes "indexable db" shows "init_schema db = (Inr (), upgraded db)"
proof -
  have "\<forall>(n, c) \<in> set migrations. created created_tables db n \<noteq> None \<and> (co_not_null c \<longrightarrow> co_default c \<noteq> Null)"
    by (auto simp: migrations_def created_def created_tables_def column_defs split: option.split)
  then show ?thesis
    unfolding init_schema_def schema_created[OF assms] upgraded_def prod.case sum.case
    by (subst migrate_all) (simp_all add: added_def)
qed

subsection \<open>What adding columns keeps\<close>

lemma col_names_add [simp]: "set (col_names (add_missing c t)) = insert (co_name c) (set (col_names t))"
  by (auto simp: add_missing_def add_column_def col_names_def)

lemma col_names_fold [simp]: "set (col_names (fold add_missing cs t)) = co_name ` set cs \<union> set (col_names t)"
  by (induction cs arbitrary: t) auto

lemma fold_add_present: "co_name ` set cs \<subseteq> set (col_names t) \<Longrightarrow> fold add_missing cs t = t"
  by (induction cs arbitrary: t) (auto simp: add_missing_def)

lemma columns_add: "set (tb_columns t) \<subseteq> set (tb_columns (fold add_missing cs t))"
proof (induction cs arbitrary: t)
  case (Cons c cs)
  have "set (tb_columns t) \<subseteq> set (tb_columns (add_missing c t))" by (auto simp: add_missing_def add_column_def)
  with Cons[of "add_missing c t"] show ?case by simp
qed simp

lemma typed_fold:
  assumes "typed t" "\<forall>c \<in> set cs. value_fits c (co_default c)" shows "typed (fold add_missing cs t)"
  using assms
proof (induction cs arbitrary: t)
  case (Cons c cs)
  have "typed (add_missing c t)"
    using Cons.prems by (auto simp: typed_def add_missing_def add_column_def intro: list_all2_appendI)
  with Cons show ?case by simp
qed simp

text \<open>Columns added under their declared names are the declared ones.\<close>

lemma fold_add_declared:
  assumes "\<forall>c \<in> set (tb_columns t). \<forall>a \<in> A. co_name a = co_name c \<longrightarrow> a = c" "set cs \<subseteq> A" "inj_on co_name A"
  shows "set cs \<subseteq> set (tb_columns (fold add_missing cs t))"
  using assms(1,2)
proof (induction cs arbitrary: t)
  case (Cons c cs)
  have c: "c \<in> set (tb_columns (add_missing c t))"
    using Cons.prems by (auto simp: add_missing_def add_column_def col_names_def)
  have "\<forall>d \<in> set (tb_columns (add_missing c t)). \<forall>a \<in> A. co_name a = co_name d \<longrightarrow> a = d"
    using Cons.prems assms(3) by (auto simp: add_missing_def add_column_def dest: inj_onD)
  with Cons.IH[of "add_missing c t"] Cons.prems(2) c columns_add[of "add_missing c t" cs] show ?case by auto
qed simp

subsection \<open>Reading after adding\<close>

lemma cell_None: "length r = length cs \<Longrightarrow> cell cs r n = None \<longleftrightarrow> n \<notin> co_name ` set cs"
  by (simp add: cell_def map_of_zip_is_None)

lemma cell_snoc:
  "length r = length cs \<Longrightarrow>
   cell (cs @ [c]) (r @ [v]) n = (case cell cs r n of Some x \<Rightarrow> Some x | None \<Rightarrow> if n = co_name c then Some v else None)"
  by (induction r cs rule: list_induct2) (auto simp: cell_def)

lemma cell_append: "length r = length cs \<Longrightarrow> n \<noteq> co_name c \<Longrightarrow> cell (cs @ [c]) (r @ [v]) n = cell cs r n"
  by (simp add: cell_snoc split: option.split)

lemma cell_or_append:
  assumes "length r = length cs" "co_name c \<notin> co_name ` set cs"
  shows "cell_or (cs @ [c]) (r @ [co_default c]) d = (if co_name d = co_name c then co_default c else cell_or cs r d)"
    and "cell_or cs r c = co_default c"
proof -
  have none: "cell cs r (co_name c) = None" using assms by (simp add: cell_None)
  then show "cell_or cs r c = co_default c" by (simp add: cell_or_def)
  show "cell_or (cs @ [c]) (r @ [co_default c]) d = (if co_name d = co_name c then co_default c else cell_or cs r d)"
    using none by (simp add: cell_or_def cell_snoc[OF assms(1)] split: option.split)
qed

definition reads_default :: "(column list \<Rightarrow> sql_value list \<Rightarrow> 'a option) \<Rightarrow> column \<Rightarrow> bool" where
  "reads_default f c \<longleftrightarrow>
     (\<forall>cs r. length r = length cs \<longrightarrow> co_name c \<notin> co_name ` set cs \<longrightarrow> f (cs @ [c]) (r @ [co_default c]) = f cs r)"

lemma readers_default [simp]:
  "reads_default read_user col_ivk_commitment" "reads_default read_user col_registration_attestation"
  "reads_default read_message col_sender" "reads_default read_message col_trust_state"
  unfolding reads_default_def
proof -
  note names = col_ivk_commitment_def col_registration_attestation_def col_sender_def col_trust_state_def nullable_def defaulted_def
  have n: "co_name col_ivk_commitment = ''ivk_commitment''" "co_name col_registration_attestation = ''registration_attestation''"
    "co_name col_sender = ''sender''" "co_name col_trust_state = ''trust_state''" by (simp_all add: names)
  note simps = read_user_def read_message_def cell_append cell_or_append n
  show "\<forall>cs r. length r = length cs \<longrightarrow> co_name col_ivk_commitment \<notin> co_name ` set cs \<longrightarrow>
      read_user (cs @ [col_ivk_commitment]) (r @ [co_default col_ivk_commitment]) = read_user cs r" by (simp add: simps)
  show "\<forall>cs r. length r = length cs \<longrightarrow> co_name col_registration_attestation \<notin> co_name ` set cs \<longrightarrow>
      read_user (cs @ [col_registration_attestation]) (r @ [co_default col_registration_attestation]) = read_user cs r" by (simp add: simps)
  show "\<forall>cs r. length r = length cs \<longrightarrow> co_name col_sender \<notin> co_name ` set cs \<longrightarrow>
      read_message (cs @ [col_sender]) (r @ [co_default col_sender]) = read_message cs r" by (simp add: simps)
  show "\<forall>cs r. length r = length cs \<longrightarrow> co_name col_trust_state \<notin> co_name ` set cs \<longrightarrow>
      read_message (cs @ [col_trust_state]) (r @ [co_default col_trust_state]) = read_message cs r" by (simp add: simps)
qed

lemma read_rows_fold:
  assumes "typed t" "\<forall>c \<in> set cs. reads_default f c \<and> value_fits c (co_default c)"
  shows "read_rows f (Some (fold add_missing cs t)) = read_rows f (Some t)"
  using assms
proof (induction cs arbitrary: t)
  case (Cons c cs)
  have "typed (add_missing c t)" using typed_fold[of t "[c]"] Cons.prems by simp
  moreover have "read_rows f (Some (add_missing c t)) = read_rows f (Some t)"
  proof (cases "co_name c \<in> set (col_names t)")
    case False
    have "f (tb_columns t @ [c]) (r @ [co_default c]) = f (tb_columns t) r" if "r \<in> set (tb_rows t)" for r
      using Cons.prems that False by (auto simp: reads_default_def typed_def col_names_def dest!: list_all2_lengthD)
    then have eq: "map (f (tb_columns t @ [c]) \<circ> (\<lambda>r. r @ [co_default c])) (tb_rows t) = map (f (tb_columns t)) (tb_rows t)" by simp
    show ?thesis using False unfolding read_rows_def option.case add_missing_def
      by (simp only: if_False add_column_def table.select_convs map_map eq)
  qed (simp add: add_missing_def)
  ultimately show ?case using Cons by simp
qed simp

subsection \<open>Opening a store\<close>

lemma declared_fits: "n \<in> fst ` set first_tables \<Longrightarrow> \<forall>c \<in> set (added n). value_fits c (co_default c)"
  by (auto simp: first_tables_def value_fits_def column_defs)

lemma declared_inj: "n \<in> fst ` set first_tables \<Longrightarrow> inj_on co_name (set (added n))"
  by (auto simp: first_tables_def inj_on_def column_defs)

text \<open>The tables that \<^verbatim>\<open>CREATE\<close> makes are of the kind some version wrote.\<close>

lemma created_upgradable:
  assumes "upgradable db" "(n, cs) \<in> set first_tables"
  obtains t where "created created_tables db n = Some t" "set cs \<subseteq> set (tb_columns t)" "typed t"
    "\<forall>c \<in> set (tb_columns t). \<forall>a \<in> set (added n). co_name a = co_name c \<longrightarrow> a = c"
proof (cases "db_tables db n")
  case (Some t)
  with assms that[of t] show ?thesis by (force simp: upgradable_def created_def)
next
  case None
  obtain ds where ds: "map_of created_tables n = Some ds" "set cs \<subseteq> set ds"
      "\<forall>c \<in> set ds. \<forall>a \<in> set (added n). co_name a = co_name c \<longrightarrow> a = c"
    using assms(2) unfolding first_tables_def
    by (auto simp: created_tables_def messages_table_def users_table_def messages_base_def column_defs)
  with None that[of "empty_table ds"] show ?thesis by (simp add: created_def empty_table_def typed_def)
qed

lemma upgradable_indexable: "upgradable db \<Longrightarrow> indexable db"
proof -
  assume u: "upgradable db"
  have m: "(''messages'', messages_base) \<in> set first_tables" by (simp add: first_tables_def)
  have "{''mailbox_id'', ''uid'', ''flags''} \<subseteq> co_name ` set messages_base" by (simp add: messages_base_def column_defs)
  moreover have "set messages_base \<subseteq> set (tb_columns t)" if "db_tables db ''messages'' = Some t" for t
    using u m that by (force simp: upgradable_def)
  ultimately show ?thesis by (force simp: indexable_def col_names_def split: option.split)
qed

lemma upgraded_again: "upgraded (upgraded db) = upgraded db"
proof -
  have "fold add_missing (added n) (fold add_missing (added n) t) = fold add_missing (added n) t" for n t
    by (rule fold_add_present) simp
  moreover have "created created_tables (upgraded db) n = db_tables (upgraded db) n" for n
    by (auto simp: created_def upgraded_def split: option.split)
  ultimately have "db_tables (upgraded (upgraded db)) n = db_tables (upgraded db) n" for n
    unfolding upgraded_def by (simp add: option.map_comp comp_def)
  then show ?thesis by (simp add: upgraded_def indexed_def fun_eq_iff)
qed

lemma indexable_upgraded: "indexable db \<Longrightarrow> indexable (upgraded db)"
proof -
  assume i: "indexable db"
  let ?names = "{''mailbox_id'', ''uid'', ''flags''}"
  have "?names \<subseteq> set (col_names (empty_table messages_table))"
    by (simp add: col_names_def empty_table_def messages_table_def messages_base_def column_defs)
  moreover have "map_of created_tables ''messages'' = Some messages_table" by (simp add: created_tables_def)
  ultimately obtain t where "created created_tables db ''messages'' = Some t" "?names \<subseteq> set (col_names t)"
    using i unfolding indexable_def by (cases "db_tables db ''messages''") (simp_all add: created_def)
  then show ?thesis by (auto simp: indexable_def upgraded_def simp del: added_simps fold_simps)
qed

text \<open>Reading sees the same rows before and after.\<close>

lemma read_rows_upgraded:
  assumes "upgradable db" "(n, cs) \<in> set first_tables" "\<forall>c \<in> set (added n). reads_default f c"
  shows "read_rows f (db_tables (upgraded db) n) = read_rows f (db_tables db n)"
proof -
  obtain t where t: "created created_tables db n = Some t" "typed t" by (rule created_upgradable[OF assms(1,2)])
  have "n \<in> fst ` set first_tables" using assms(2) by force
  with assms(3) have "\<forall>c \<in> set (added n). reads_default f c \<and> value_fits c (co_default c)" using declared_fits by blast
  from read_rows_fold[OF t(2) this] have "read_rows f (db_tables (upgraded db) n) = read_rows f (Some t)"
    using t(1) by (simp add: upgraded_def)
  also have "\<dots> = read_rows f (db_tables db n)"
    using t(1) by (auto simp: created_def read_rows_def empty_table_def split: option.splits)
  finally show ?thesis .
qed

lemma read_store_upgraded:
  assumes "upgradable db" shows "read_store (upgraded db) = read_store db"
proof -
  note r = read_rows_upgraded[OF assms]
  show ?thesis unfolding read_store_def
    by (simp add: r[of "''users''" users_table] r[of "''keyring_entries''" keyring_table] r[of "''shares''" shares_table]
        r[of "''mailboxes''" mailboxes_table] r[of "''messages''" messages_base] r[of "''settings''" settings_table]
        r[of "''transactions''" transactions_table] first_tables_def)
qed

lemma upgraded_complete:
  assumes "upgradable db" "(n, cs) \<in> set first_tables"
  shows "\<exists>t. db_tables (upgraded db) n = Some t \<and> set (cs @ added n) \<subseteq> set (tb_columns t) \<and> typed t"
proof -
  obtain t where t: "created created_tables db n = Some t" "set cs \<subseteq> set (tb_columns t)" "typed t"
      "\<forall>c \<in> set (tb_columns t). \<forall>a \<in> set (added n). co_name a = co_name c \<longrightarrow> a = c"
    by (rule created_upgradable[OF assms])
  have n: "n \<in> fst ` set first_tables" using assms(2) by force
  show ?thesis
    using t(1,2) columns_add[of t "added n"] fold_add_declared[OF t(4) subset_refl declared_inj[OF n]] typed_fold[OF t(3) declared_fits[OF n]]
    by (auto simp: upgraded_def)
qed

text \<open>An opening whose system calls succeed, and one whose system calls fail.\<close>

definition opens :: "sqlite_ext \<Rightarrow> rstr \<Rightarrow> bool" where
  "opens X path \<longleftrightarrow>
     (case path_parent path of Some d \<Rightarrow> d = [] \<or> sq_mkdir X d = None | None \<Rightarrow> True) \<and> sq_connect X path = None \<and>
     sq_pragma X ''journal_mode'' ''WAL'' = None \<and> sq_pragma X ''foreign_keys'' ''ON'' = None"

lemma sqlite_open_upgraded:
  assumes "upgradable (database_at path disk)" "opens X path"
  shows "sqlite_open X path disk = (Inr (), disk(path \<mapsto> upgraded (database_at path disk)))"
  using assms(2) init_schema_upgraded[OF upgradable_indexable[OF assms(1)]]
  by (auto simp: sqlite_open_def opens_def split: option.splits)

lemma sqlite_open_fails:
  assumes "\<not> opens X path"
  shows "\<exists>e. fst (sqlite_open X path disk) = Inl e \<and> snd (sqlite_open X path disk) \<in> {disk, disk(path \<mapsto> database_at path disk)}"
  using assms by (auto simp: sqlite_open_def opens_def split: option.splits)


text \<open>A database of the first version with one user and nothing else.\<close>

definition first_db :: database where
  "first_db =
     \<lparr>db_tables = [''users'' \<mapsto> \<lparr>tb_columns = users_table,
        tb_rows = [[Integer 1, Text ''bob'', Text ''h'', Blob ''k'', Integer 7]]\<rparr>], db_indexes = []\<rparr>"


end
