(* ===== verification/Login.thy ===== *)
theory Login
  imports Imap_Claims
begin

text \<open>
  Accounts across components: REGISTER on the control channel (\<^verbatim>\<open>talkd/src/secure.rs\<close>) stores the hash that LOGIN on an
  IMAP connection (\<^verbatim>\<open>talk-imap/src/session.rs\<close>) compares with, both through \<^verbatim>\<open>talk-mailstore/src/password.rs\<close>.
\<close>

text \<open>The row of a user decides a login in the database mode.\<close>

lemma imap_login_user:
  assumes "strip_suffix '':app'' name = None" "local_username name (is_domain s) = Some loc" "is_auth_mode s = Database"
    and "\<not> poisoned st" "find (\<lambda>r. u_username r = loc) (users st) = Some row"
    and "verify_password (sx_argon2 S) pw (u_password_hash row) = Inr ok"
  shows "imap_login E K S X tag name pw s st =
    (if ok then (tagged tag ImapOk ''LOGIN completed'',
       s\<lparr>is_user_id := u_id row, is_username := u_username row, is_state := ImapAuthenticated\<rparr>)
     else (tagged tag ImapNo ''Authentication failed'', s))"
  using assms by (simp add: imap_login_def password_ok_def login_text_def get_user_def password_hash_def query_def locked_def user_of_row_def)

text \<open>A login depends on the row of its user and on the shares only.\<close>

lemma imap_login_cong:
  assumes "poisoned st' = poisoned st" "shares st' = shares st"
    and "\<And>loc. local_username (unwrap_or name (strip_suffix '':app'' name)) (is_domain s) = Some loc \<Longrightarrow>
      find (\<lambda>r. u_username r = loc) (users st') = find (\<lambda>r. u_username r = loc) (users st)"
  shows "imap_login E K S X tag name pw s st' = imap_login E K S X tag name pw s st"
  using assms
  by (cases "strip_suffix '':app'' name")
     (auto simp: imap_login_def password_ok_def app_password_ok_def get_user_def password_hash_def get_shares_def
       query_def locked_def unwrap_or_def Let_def split: option.split auth_mode.split)

text \<open>What REGISTER leaves in the store.\<close>

lemma secure_register_ok:
  assumes "secure_register E J S srv name pw pubkey ivk w = (RegisterOk, w')"
    and "store_inv (w_store w)" "\<not> poisoned (w_store w)"
  obtains salt h now mpk reg where "hash_password (sx_argon2 S) salt pw = Inr h"
    "name \<notin> u_username ` set (users (w_store w))"
    "users (w_store w') = users (w_store w) @ [new_user_row now name h mpk ivk reg (w_store w)]"
    "poisoned (w_store w') = poisoned (w_store w)" "shares (w_store w') = shares (w_store w)"
proof -
  obtain salt w1 now w2 now' w3 where
    s: "draw 16 w = (salt, w1)" "tick w1 = (now, w2)" "tick w2 = (now', w3)" by fastforce
  have w3: "w_store w3 = w_store w" using s by (auto simp: draw_def tick_def)
  obtain mpk h where k: "decode_hex_32 E pubkey = Some mpk" "hash_password (sx_argon2 S) salt pw = Inr h"
    using assms(1) s by (auto simp: secure_register_def split: option.splits if_splits sum.splits)
  define reg where "reg = build_registration_attestation E J srv name mpk ivk now"
  have "\<exists>u w4. on_store (create_user_full now' name h mpk ivk (Some reg)) w3 = (Inr u, w4) \<and> w' = w4"
    using assms(1) s k
    by (auto simp: secure_register_def Let_def reg_def split: if_splits sum.splits prod.splits)
  then obtain u where u: "create_user_full now' name h mpk ivk (Some reg) (w_store w) = (Inr u, w_store w')"
    by (auto simp: on_store_def w3 split: prod.splits)
  note e = create_user_full_eq[OF store_inv_boxes[OF assms(2)] assms(3), of now' name h mpk ivk "Some reg"]
  have new: "name \<notin> u_username ` set (users (w_store w))" using u unfolding e by (auto split: if_splits)
  with u have "w_store w' = (w_store w)\<lparr>users := users (w_store w) @ [new_user_row now' name h mpk ivk (Some reg) (w_store w)],
      mailboxes := mailboxes (w_store w) @ new_mailbox_rows now' (w_store w)\<rparr>"
    unfolding e by simp
  then show ?thesis using that[OF k(2) new, of now' mpk "Some reg"] by simp
qed

lemma set_password_rows:
  assumes "set_password name h st = (Inr (), st')" "find (\<lambda>r. u_username r = name) (users st) = Some row"
  shows "find (\<lambda>r. u_username r = name) (users st') = Some (row\<lparr>u_password_hash := h\<rparr>)" "poisoned st' = poisoned st"
proof -
  have st': "st' = st\<lparr>users := update_where (\<lambda>r. u_username r = name) (\<lambda>r. r\<lparr>u_password_hash := h\<rparr>) (users st)\<rparr>" 
    using assms(1) by (auto simp: set_password_def locked_def require_rows_def split: if_splits)
  then show "poisoned st' = poisoned st" by simp
  have "find (\<lambda>r. u_username r = name) (update_where (\<lambda>r. u_username r = name) (\<lambda>r. r\<lparr>u_password_hash := h\<rparr>) us) =
      map_option (\<lambda>r. r\<lparr>u_password_hash := h\<rparr>) (find (\<lambda>r. u_username r = name) us)" for us :: "user_row list"
    by (induction us) (auto simp: update_where_def)
  then show "find (\<lambda>r. u_username r = name) (users st') = Some (row\<lparr>u_password_hash := h\<rparr>)" using assms(2) st' by simp
qed



end
