(* ===== verification/Operations.thy ===== *)
theory Operations
  imports System Imap_Claims
begin

text \<open>
  What the tasks of a running daemon do to the store, operation by operation: every turn of a connection is a
  sequence of the operations of \<^verbatim>\<open>SqliteMailStore\<close>, and which operations it may issue depends on the kind of
  connection. The contracts of the theories \<^verbatim>\<open>Session\<close>, \<^verbatim>\<open>Mailbox_Proto\<close> and \<^verbatim>\<open>Imap_Server\<close> carry this from single
  handlers to whole connections.
\<close>

subsection \<open>Sequences of operations\<close>

definition by_ops :: "(store_cmd \<Rightarrow> bool) \<Rightarrow> store \<Rightarrow> store \<Rightarrow> bool" where
  "by_ops P st st' \<longleftrightarrow> (\<exists>cs. list_all P cs \<and> st' = fold exec_cmd cs st)"

lemma by_ops_refl [simp]: "by_ops P st st"
  unfolding by_ops_def by (rule exI[of _ "[]"]) simp

lemma by_ops_trans: "by_ops P st st' \<Longrightarrow> by_ops P st' st'' \<Longrightarrow> by_ops P st st''"
  unfolding by_ops_def by (elim exE conjE, rule_tac x = "cs @ csa" in exI) simp

lemma by_ops_one: "P c \<Longrightarrow> by_ops P st (exec_cmd c st)"
  unfolding by_ops_def by (rule exI[of _ "[c]"]) simp

lemma by_ops_mono: "by_ops P st st' \<Longrightarrow> (\<And>c. P c \<Longrightarrow> Q c) \<Longrightarrow> by_ops Q st st'"
  unfolding by_ops_def using list.pred_mono_strong by metis

lemma by_ops_reach: "by_ops P st st' \<Longrightarrow> store_reach st \<Longrightarrow> store_reach st'"
proof -
  have "store_reach (fold exec_cmd cs st)" if "store_reach st" for cs st
    using that by (induction cs arbitrary: st) (auto intro: store_reach.executed)
  then show "by_ops P st st' \<Longrightarrow> store_reach st \<Longrightarrow> store_reach st'" by (auto simp: by_ops_def)
qed

lemma by_ops_later: "by_ops P st st' \<Longrightarrow> \<not> P (DeleteUser owner) \<Longrightarrow> later owner st st'"
proof -
  assume "by_ops P st st'" and no: "\<not> P (DeleteUser owner)"
  then obtain cs where cs: "list_all P cs" "st' = fold exec_cmd cs st" by (auto simp: by_ops_def)
  have "later owner st (fold exec_cmd cs st1)" if "later owner st st1" for st1
    using that cs(1)
  proof (induction cs arbitrary: st1)
    case (Cons c cs)
    have "c \<noteq> DeleteUser owner" using Cons.prems(2) no by auto
    then show ?case using Cons.IH[OF later.then_cmd[OF Cons.prems(1)]] Cons.prems(2) by simp
  qed simp
  then show ?thesis using cs(2) later.now by blast
qed

subsection \<open>Who may issue what\<close>

fun delivery_op :: "store_cmd \<Rightarrow> bool" where
  "delivery_op (AppendTo _ _ n _) = (n = INBOX)"
| "delivery_op (TxCreate _ t) = (nt_direction t = TxIn)"
| "delivery_op (TxLink _ _ _) = True"
| "delivery_op _ = False"

fun control_op :: "store_cmd \<Rightarrow> bool" where
  "control_op (AppendTo _ _ n _) = (n = INBOX \<or> n = SENT)"
| "control_op (CreateUser _ _ _ _ _ _) = True"
| "control_op (TxCreate _ _) = True"
| "control_op (TxLink _ _ _) = True"
| "control_op (TxTransition _ _ _) = True"
| "control_op _ = False"

fun imap_op :: "int \<Rightarrow> store_cmd \<Rightarrow> bool" where
  "imap_op uid (SetFlags u _ _ _ _) = (u = uid)"
| "imap_op uid (Expunge u _) = (u = uid)"
| "imap_op uid _ = False"

lemma delivery_control: "delivery_op c \<Longrightarrow> control_op c"
  by (cases c) simp_all

definition world_ops :: "(store_cmd \<Rightarrow> bool) \<Rightarrow> world \<Rightarrow> world \<Rightarrow> bool" where
  "world_ops P w w' \<longleftrightarrow> by_ops P (w_store w) (w_store w')"

lemma world_ops_refl [simp]: "world_ops P w w"
  by (simp add: world_ops_def)

lemma world_ops_trans: "world_ops P u v \<Longrightarrow> world_ops P v w \<Longrightarrow> world_ops P u w"
  unfolding world_ops_def by (rule by_ops_trans)

lemma world_ops_pure: "w_store w' = w_store w \<Longrightarrow> world_ops P w w'"
  by (simp add: world_ops_def)

lemma world_ops_tick: "tick w = (t, w') \<Longrightarrow> world_ops P w w'"
  by (rule world_ops_pure) (auto simp: tick_def)

lemma world_ops_draw: "draw n w = (r, w') \<Longrightarrow> world_ops P w w'"
  by (rule world_ops_pure) (auto simp: draw_def)

lemma world_ops_store:
  assumes "on_store f w = (r, w')" "snd (f (w_store w)) = exec_cmd c (w_store w)" "P c"
  shows "world_ops P w w'"
proof -
  have "w_store w' = exec_cmd c (w_store w)" using assms(1,2) by (auto simp: on_store_def split: prod.splits)
  then show ?thesis using by_ops_one[of P c, OF assms(3)] by (simp add: world_ops_def)
qed

subsection \<open>Deliveries\<close>

lemma ops_append_inbox: "on_store (append_message now uid msg) w = (r, w') \<Longrightarrow> world_ops delivery_op w w'"
  by (rule world_ops_store[where c = "AppendTo now uid INBOX msg"]) (simp_all add: append_message_def)

lemma ops_tx_in: "on_store (tx_create now (inbound_tx s r a m)) w = (x, w') \<Longrightarrow> world_ops delivery_op w w'"
  by (rule world_ops_store[where c = "TxCreate now (inbound_tx s r a m)"]) (simp_all add: inbound_tx_def)

lemma ops_tx_link: "on_store (tx_link_message now i m) w = (x, w') \<Longrightarrow> world_ops delivery_op w w'"
  by (rule world_ops_store[where c = "TxLink now i m"]) simp_all

lemma ops_append_and_broadcast: "append_and_broadcast k uid msg mid w = (r, w') \<Longrightarrow> world_ops delivery_op w w'"
proof -
  assume a: "append_and_broadcast k uid msg mid w = (r, w')"
  obtain now w1 where t: "tick w = (now, w1)" by fastforce
  obtain x w2 where s: "on_store (append_message now uid msg) w1 = (x, w2)" by fastforce
  have "w_store w' = w_store w2"
    using a t s by (auto simp: append_and_broadcast_def split: sum.splits store_error.splits if_splits)
  with world_ops_trans[OF world_ops_tick[OF t] ops_append_inbox[OF s]] show ?thesis by (simp add: world_ops_def)
qed

lemma ops_record_inbound: "world_ops delivery_op w (record_inbound_tx s r a m i w)"
proof -
  obtain now w1 where t: "tick w = (now, w1)" by fastforce
  obtain x w2 where c: "on_store (tx_create now (inbound_tx s r a m)) w1 = (x, w2)" by fastforce
  note g = world_ops_trans[OF world_ops_tick[OF t] ops_tx_in[OF c]]
  obtain now' w3 where t': "tick w2 = (now', w3)" by fastforce
  have "world_ops delivery_op w3 (snd (on_store (tx_link_message now' j i) w3))" for j by (metis ops_tx_link prod.collapse)
  from world_ops_trans[OF world_ops_trans[OF g world_ops_tick[OF t']] this] g t c t' show ?thesis
    by (cases x) (auto simp: record_inbound_tx_def)
qed

lemma ops_store_delivery: "world_ops delivery_op w (snd (store_delivery k user sender recipient amount mid subject body w))"
proof -
  let ?msg = "\<lparr>nm_message_id = mid, nm_subject = subject, nm_body = body, nm_flags = flags_default,
    nm_sender = sender, nm_trust_state = trust_str (keyring_state (user_id user) sender w)\<rparr>"
  obtain x w1 where a: "append_and_broadcast k (user_id user) ?msg mid w = (x, w1)" by fastforce
  from world_ops_trans[OF ops_append_and_broadcast[OF a] ops_record_inbound] ops_append_and_broadcast[OF a] a show ?thesis
    by (cases x) (simp_all add: store_delivery_def Let_def)
qed

lemma ops_deliver: "world_ops delivery_op w (snd (deliver T k sender mid recipient p body w))"
proof (cases "recipient_user recipient w")
  case (Inr user)
  obtain s b w1 where r: "render_delivery T k sender p body w = ((s, b), w1)" by (metis prod.collapse)
  have "world_ops delivery_op w w1" using render_delivery_store(1)[of T k sender p body w] r by (intro world_ops_pure) simp
  from world_ops_trans[OF this ops_store_delivery] Inr r show ?thesis by (simp add: deliver_def)
qed (simp add: deliver_def)

lemma ops_mint: "world_ops P w (snd (placeholder_mint (draw 32) m w))"
  by (rule world_ops_pure) (simp add: placeholder_mint_def Let_def case_prod_beta draw_def)

interpretation daemon_ops: delivery_world home "deliver T k" "placeholder_mint (draw 32)" "world_ops delivery_op"
  for home T k
  by unfold_locales (blast intro: world_ops_refl world_ops_trans ops_deliver ops_mint)+

subsection \<open>The control channel\<close>

lemma delivery_ops_control: "world_ops delivery_op w w' \<Longrightarrow> world_ops control_op w w'"
  unfolding world_ops_def by (erule by_ops_mono) (rule delivery_control)

lemma ops_append_sent: "on_store (append_message_to now uid SENT msg) w = (r, w') \<Longrightarrow> world_ops control_op w w'"
  by (rule world_ops_store[where c = "AppendTo now uid SENT msg"]) simp_all

lemma ops_tx_create: "on_store (tx_create now t) w = (r, w') \<Longrightarrow> world_ops control_op w w'"
  by (rule world_ops_store[where c = "TxCreate now t"]) simp_all

lemma ops_tx_transition: "on_store (tx_transition now i x) w = (r, w') \<Longrightarrow> world_ops control_op w w'"
  by (rule world_ops_store[where c = "TxTransition now i x"]) simp_all

lemma ops_create_user: "on_store (create_user_full now u h k i r) w = (x, w') \<Longrightarrow> world_ops control_op w w'"
  by (rule world_ops_store[where c = "CreateUser now u h k i r"]) simp_all

lemma render_sent_store: "render_sent T s sender body w = (x, w') \<Longrightarrow> w_store w' = w_store w"
  by (auto simp: render_sent_def Let_def tick_def split: sum.splits prod.splits)

lemma ops_sent_copy: "world_ops control_op w (sent_copy T s tid sender recipient mid body w)"
proof (cases "fst (get_user sender (w_store w))")
  case (Inr r)
  then show ?thesis
  proof (cases r)
    case (Some user)
    obtain sb b w1 where r: "render_sent T s sender body w = ((sb, b), w1)" by (metis prod.collapse)
    let ?msg = "\<lparr>nm_message_id = mid, nm_subject = sb, nm_body = b, nm_flags = flags_default, nm_sender = recipient,
      nm_trust_state = ''unverified''\<rparr>"
    obtain now w2 where t: "tick w1 = (now, w2)" by fastforce
    obtain x w3 where a: "on_store (append_message_to now (user_id user) SENT ?msg) w2 = (x, w3)" by fastforce
    obtain now' w4 where t': "tick w3 = (now', w4)" by fastforce
    have "world_ops control_op w w1" by (rule world_ops_pure[OF render_sent_store[OF r]])
    from world_ops_trans[OF this world_ops_trans[OF world_ops_tick[OF t] ops_append_sent[OF a]]]
    have g: "world_ops control_op w w3" .
    have "world_ops control_op w4 (snd (on_store (tx_link_message now' tid m) w4))" for m
      by (rule delivery_ops_control) (metis ops_tx_link prod.collapse)
    from world_ops_trans[OF world_ops_trans[OF g world_ops_tick[OF t']] this] g show ?thesis
      using Inr Some r t a t' by (cases x) (auto simp: sent_copy_def Let_def)
  qed (simp add: sent_copy_def)
qed (simp add: sent_copy_def)

lemma ops_record_outbound: "world_ops control_op w (record_outbound_tx T s sender recipient mid p body st w)"
proof -
  obtain now w1 where t: "tick w = (now, w1)" by fastforce
  obtain x w2 where c: "on_store (tx_create now (outbound_tx s sender recipient mid p body st)) w1 = (x, w2)" by fastforce
  have g: "world_ops control_op w w2" by (rule world_ops_trans[OF world_ops_tick[OF t] ops_tx_create[OF c]])
  have tr: "world_ops control_op w (snd (on_store (tx_transition now i st) w1))" for i
    by (rule world_ops_trans[OF world_ops_tick[OF t]]) (metis ops_tx_transition prod.collapse)
  have create: "world_ops control_op w (case x of Inr t \<Rightarrow> sent_copy T s (tx_id t) sender recipient mid body w2 | Inl _ \<Rightarrow> w2)"
    using g world_ops_trans[OF g ops_sent_copy] by (cases x) simp_all
  then show ?thesis using world_ops_trans[OF tr ops_sent_copy] t c
    by (cases x) (auto simp: record_outbound_tx_def split: sum.splits option.splits)
qed

lemma ops_send: "world_ops control_op w (snd (secure_send E J T S net s sender recipient mid p body w))"
proof -
  obtain rnd w1 where d: "draw 16 w = (rnd, w1)" by fastforce
  obtain i w2 where t: "tick w1 = (i, w2)" by fastforce
  obtain n w3 where t': "tick w2 = (n, w3)" by fastforce
  have "world_ops control_op w w3"
    by (rule world_ops_trans[OF world_ops_draw[OF d] world_ops_trans[OF world_ops_tick[OF t] world_ops_tick[OF t']]])
  from world_ops_trans[OF this ops_record_outbound] ops_record_outbound[of w] show ?thesis
    by (auto simp: secure_send_def Let_def d t t' split: option.splits sum.splits)
qed

lemma ops_attest: "world_ops control_op w (snd (secure_attest E J s user mode w))"
  by (rule world_ops_pure) (auto simp: secure_attest_def Let_def draw_def split: prod.splits)

lemma ops_register: "world_ops control_op w (snd (secure_register E J S s username password pubkey ivk w))"
proof -
  obtain salt w1 where d: "draw 16 w = (salt, w1)" by fastforce
  obtain i w2 where t: "tick w1 = (i, w2)" by fastforce
  obtain n w3 where t': "tick w2 = (n, w3)" by fastforce
  have g1: "world_ops control_op w w1" by (rule world_ops_draw[OF d])
  have g3: "world_ops control_op w w3" by (rule world_ops_trans[OF g1 world_ops_trans[OF world_ops_tick[OF t] world_ops_tick[OF t']]])
  have g4: "world_ops control_op w w4" if "on_store (create_user_full n u h k i r) w3 = (x, w4)" for u h k i r x w4
    by (rule world_ops_trans[OF g3 ops_create_user[OF that]])
  show ?thesis
    by (auto simp: secure_register_def Let_def d t t' g1 g4 split: option.splits sum.splits prod.splits)
qed

lemma ops_emulate: "world_ops control_op w (snd (secure_emulate E T S s user p w))"
proof -
  obtain now w1 where t: "tick w = (now, w1)" by fastforce
  obtain rnd w2 where d: "draw 8 w1 = (rnd, w2)" by fastforce
  have g: "world_ops control_op w w2" by (rule world_ops_trans[OF world_ops_tick[OF t] world_ops_draw[OF d]])
  have "world_ops control_op w2 (snd (deliver_emulated k u l a m sb b w2))" for k u l a m sb b
    by (rule delivery_ops_control) (auto simp: deliver_emulated_def ops_store_delivery split: sum.split)
  from world_ops_trans[OF g this] have g3: "world_ops control_op w w3" if "deliver_emulated k u l a m sb b w2 = (x, w3)" for k u l a m sb b x w3
    using that by (metis snd_conv)
  show ?thesis
    by (auto simp: secure_emulate_def Let_def t d world_ops_tick[OF t] g3 split: sum.splits prod.splits delivery_outcome.splits)
qed

interpretation control_ops: mailbox_contract "secure_handler E J T S net s" "world_ops control_op"
  for E J T S net s
  by unfold_locales
     (simp_all add: secure_handler_def ops_send ops_attest ops_register ops_emulate, blast intro: world_ops_trans)

subsection \<open>IMAP\<close>

text \<open>A command that is served before a login, or is one, does nothing; after it only the mail of the user is worked on.\<close>

definition session_ops :: "imap_session \<Rightarrow> store \<Rightarrow> imap_session \<Rightarrow> store \<Rightarrow> bool" where
  "session_ops s st s' st' \<longleftrightarrow>
     (if is_state s' = NotAuthenticated then st' = st \<and> is_state s = NotAuthenticated
      else by_ops (imap_op (is_user_id s')) st st' \<and> (is_state s \<noteq> NotAuthenticated \<longrightarrow> is_user_id s' = is_user_id s))"

lemma ops_set_flags: "set_flags_in uid box i msk v st = (r, st') \<Longrightarrow> by_ops (imap_op uid) st st'"
  using by_ops_one[of "imap_op uid" "SetFlags uid box i msk v" st] by simp

lemma ops_expunge: "expunge_in uid box st = (r, st') \<Longrightarrow> by_ops (imap_op uid) st st'"
  using by_ops_one[of "imap_op uid" "Expunge uid box" st] by simp

lemma ops_store_loop: "store_loop uid box msk v ms st = (r, st') \<Longrightarrow> by_ops (imap_op uid) st st'"
proof (induction ms arbitrary: st st' r)
  case (Cons m ms)
  obtain x st1 where f: "set_flags_in uid box (mm_id m) msk v st = (x, st1)" by fastforce
  obtain y st2 where l: "store_loop uid box msk v ms st1 = (y, st2)" by fastforce
  from ops_set_flags[OF f] by_ops_trans[OF ops_set_flags[OF f] Cons.IH[OF l]] Cons.prems f l show ?case
    by (cases x; cases y) auto
qed simp

lemma ops_cmd_store: "cmd_store S tag cmd s st = (out, st') \<Longrightarrow> st' = st \<or> is_state s = Selected \<and> by_ops (imap_op (is_user_id s)) st st'"
  by (auto simp: cmd_store_def Let_def split: if_splits sum.splits prod.splits dest: ops_store_loop)

lemma ops_cmd_uid: "cmd_uid S X tag cmd s st = (out, st') \<Longrightarrow> st' = st \<or> is_state s = Selected \<and> by_ops (imap_op (is_user_id s)) st st'"
  by (auto simp: cmd_uid_def Let_def split: if_splits list.splits dest: ops_cmd_store)

lemma ops_cmd_expunge: "cmd_expunge S tag s st = (out, st') \<Longrightarrow> st' = st \<or> is_state s = Selected \<and> by_ops (imap_op (is_user_id s)) st st'"
  by (auto simp: cmd_expunge_def split: if_splits sum.splits prod.splits dest: ops_expunge)

lemma ops_cmd_close: "cmd_close S tag s st = (out, s', st') \<Longrightarrow>
   st' = st \<or> is_state s = Selected \<and> is_state s' \<noteq> NotAuthenticated \<and> by_ops (imap_op (is_user_id s)) st st'"
  by (auto simp: cmd_close_def expunge_def split: if_splits sum.splits prod.splits dest: ops_expunge)

lemma ops_imap_handle:
  assumes "imap_handle E K S X cmd s st = (out, s', st')" shows "session_ops s st s' st'"
proof -
  have step: "session_step s st s' st'" by (rule imap_handle_step[OF assms])
  have "st' = st \<or> is_state s = Selected \<and> by_ops (imap_op (is_user_id s)) st st'"
    using assms unfolding imap_handle_def Let_def
    by (auto split: if_splits prod.splits dest: ops_cmd_uid ops_cmd_store ops_cmd_expunge ops_cmd_close)
  with step show ?thesis by (auto simp: session_ops_def session_step_def)
qed

interpretation imap_ops: command_contract "imap_handle E K S X" session_ops for E K S X
proof unfold_locales
  show "session_ops s st s st" for s st by (simp add: session_ops_def)
  show "session_ops s st s'' st''" if "session_ops s st s' st'" "session_ops s' st' s'' st''" for s st s' st' s'' st''
    using that by (auto simp: session_ops_def split: if_splits intro: by_ops_trans)
qed (rule ops_imap_handle)

subsection \<open>The running daemon\<close>

text \<open>The users as whom somebody can have logged in during a run, and what its tasks may issue.\<close>

definition login_ids :: "daemon_env \<Rightarrow> daemon \<Rightarrow> world \<Rightarrow> int set" where
  "login_ids V d w = {user_id user | y u p user. daemon_reach V d w y \<and>
     credentials_ok (de_ext V) (de_crypto V) (de_secure V) (de_imap V) (new_session (daemon_imap (dm_config d))) u p user
       (w_store (sy_world y))}"

definition task_op :: "int set \<Rightarrow> store_cmd \<Rightarrow> bool" where
  "task_op U c \<longleftrightarrow> control_op c \<or> (\<exists>uid \<in> U. imap_op uid c)"

lemma control_task: "world_ops control_op w w' \<Longrightarrow> world_ops (task_op U) w w'"
  unfolding world_ops_def by (erule by_ops_mono) (simp add: task_op_def)

lemma daemon_step_ops:
  assumes "daemon_step V d y z" "running V d w y" "running V d w z"
  shows "world_ops (task_op (login_ids V d w)) (sy_world y) (sy_world z)"
  using assms(1)
proof cases
  case (step_zsmtp i r c)
  have "daemon_ops.uses (gn_domain (cf_general (dm_config d))) (de_templates V) (daemon_sink (dm_config d))
      (cn_session ((sy_zsmtp y ! i)\<lparr>cn_world := sy_world y\<rparr>))"
    using assms(2) step_zsmtp(2) by (simp add: running_def zsmtp_sessions_ok_def)
  from daemon_ops.turn_R[OF this step_zsmtp(3)] show ?thesis
    using step_zsmtp(1) by (simp add: control_task delivery_ops_control)
next
  case (step_control i net r c)
  have "world_ops control_op (mc_world ((sy_control y ! i)\<lparr>mc_world := sy_world y\<rparr>)) (mc_world (snd (r, c)))"
    unfolding step_control(3)[symmetric] control_handler_def by (rule control_ops.turn_R)
  then show ?thesis using step_control(1) by (simp add: control_task)
next
  case (step_imap i m c m' c')
  have "session_ops (ic_session c) (w_store (sy_world y)) (ic_session c') (ic_store c')"
    using imap_ops.step_R[OF step_imap(4)[unfolded imap_server_handler_def]] by simp
  moreover have "(m', c') \<in> set (sy_imap z)" using step_imap(1,2) set_update_memI by fastforce
  then have "is_state (ic_session c') \<noteq> NotAuthenticated \<longrightarrow> is_user_id (ic_session c') \<in> login_ids V d w"
    using assms(3) by (force simp: running_def imap_sessions_def admitted_def login_ids_def)
  ultimately have "by_ops (task_op (login_ids V d w)) (w_store (sy_world y)) (ic_store c')"
    by (auto simp: session_ops_def task_op_def split: if_splits elim!: by_ops_mono)
  then show ?thesis using step_imap(1) by (simp add: world_ops_def)
qed simp_all

lemma daemon_reach_ops:
  assumes "daemon_reach V d w y" "store_inv (w_store w)"
  shows "by_ops (task_op (login_ids V d w)) (w_store w) (w_store (sy_world y))"
  using assms
proof (induction rule: daemon_reach.induct)
  case reach_start
  then show ?case by (simp add: system_start_def)
next
  case (reach_step y z)
  note run = daemon_reach_running[OF _ reach_step.prems]
  have "world_ops (task_op (login_ids V d w)) (sy_world y) (sy_world z)"
    using reach_step.hyps by (intro daemon_step_ops run) (auto intro: daemon_reach.reach_step)
  with reach_step.IH[OF reach_step.prems] show ?case unfolding world_ops_def by (rule by_ops_trans)
qed

text \<open>Nobody deletes a user while the daemon runs, so mailboxes keep their identity and their counters.\<close>

lemma task_ops_keep_boxes:
  assumes "by_ops (task_op U) st st'" "store_inv st" "b \<in> set (mailboxes st)"
  shows "box_kept b st'"
proof -
  have "mb_user_id b \<in> u_id ` set (users st)"
    using store_inv_boxes[OF assms(2)] assms(3) by (auto simp: mailboxes_ok_def)
  then obtain u where u: "u \<in> set (users st)" "u_id u = mb_user_id b" by auto
  have "\<not> task_op U (DeleteUser (u_username u))" by (simp add: task_op_def)
  from later_keeps[OF by_ops_later[OF assms(1) this] assms(2) _ assms(3)] owner_okI[OF u(1)] u(2) show ?thesis by simp
qed


definition demo_serving :: daemon_env where
  "demo_serving = \<lparr>de_ext = demo_ext, de_json = demo_json, de_templates = demo_templates, de_secure = demo_secure,
     de_emulate = demo_emu, de_crypto = demo_crypto, de_imap = demo_imap, de_dns = demo_dns, de_vars = Map.empty\<rparr>"


end
