(* ===== verification/Wallet_Client.thy ===== *)
theory Wallet_Client
  imports Rust_Str "HOL-Library.Word"
begin

text \<open>
  The lightwalletd client (\<^verbatim>\<open>talk-wallet/src/client.rs\<close>) and the task of the daemon that connects to the indexer
  (\<^verbatim>\<open>talkd/src/main.rs\<close>). The generated stubs are functions of a record: the answer to a call, and for a
  streaming call what each poll of the stream yields. A server may go on streaming for ever, so the loop over a stream is
  a partial function.
\<close>

datatype lwd_error =
    InvalidEndpoint rstr
  | Transport rstr
  | Rpc rstr
  | BroadcastRejected rstr

record block_id =
  bi_height :: "64 word"
  bi_hash :: bytes

record block_range =
  br_start :: "block_id option"
  br_end :: "block_id option"
  br_pool_types :: "nat list"

record raw_transaction =
  rt_data :: bytes
  rt_height :: "64 word"

record send_response =
  sr_error_code :: "32 word"
  sr_error_message :: rstr

text \<open>A poll of a stream: a message, its end, or an error.\<close>

type_synonym 'b stream_poll = "(rstr, 'b option) result"

text \<open>A connected channel, with \<open>'b\<close> the generated type of compact blocks, and what connecting may give.\<close>

record 'b streamer =
  st_latest_block :: "(rstr, block_id) result"
  st_block_range :: "block_range \<Rightarrow> (rstr, nat \<Rightarrow> 'b stream_poll) result"
  st_send_transaction :: "raw_transaction \<Rightarrow> (rstr, send_response) result"

record 'b grpc_ext =
  gx_from_shared :: "rstr \<Rightarrow> (rstr, rstr) result"
  gx_connect :: "rstr \<Rightarrow> (rstr, 'b streamer) result"

definition lwd_connect :: "'b grpc_ext \<Rightarrow> rstr \<Rightarrow> (lwd_error, 'b streamer) result" where
  "lwd_connect G endpoint =
     (case gx_from_shared G endpoint of
        Inl e \<Rightarrow> Inl (InvalidEndpoint e)
      | Inr channel \<Rightarrow> (case gx_connect G channel of Inl e \<Rightarrow> Inl (Transport e) | Inr c \<Rightarrow> Inr c))"

definition latest_height :: "'b streamer \<Rightarrow> (lwd_error, 64 word) result" where
  "latest_height c = (case st_latest_block c of Inl e \<Rightarrow> Inl (Rpc e) | Inr b \<Rightarrow> Inr (bi_height b))"

partial_function (option) collect_stream :: "(nat \<Rightarrow> 'b stream_poll) \<Rightarrow> nat \<Rightarrow> 'b list \<Rightarrow> (lwd_error, 'b list) result option" where
  "collect_stream s i blocks =
     (case s i of
        Inl e \<Rightarrow> Some (Inl (Rpc e))
      | Inr None \<Rightarrow> Some (Inr blocks)
      | Inr (Some b) \<Rightarrow> collect_stream s (Suc i) (blocks @ [b]))"

definition height_id :: "64 word \<Rightarrow> block_id" where
  "height_id h = \<lparr>bi_height = h, bi_hash = []\<rparr>"

definition lwd_block_range :: "'b streamer \<Rightarrow> 64 word \<Rightarrow> 64 word \<Rightarrow> (lwd_error, 'b list) result option" where
  "lwd_block_range c lo hi =
     (case st_block_range c \<lparr>br_start = Some (height_id lo), br_end = Some (height_id hi), br_pool_types = []\<rparr> of
        Inl e \<Rightarrow> Some (Inl (Rpc e))
      | Inr s \<Rightarrow> collect_stream s 0 [])"

definition send_transaction :: "'b streamer \<Rightarrow> bytes \<Rightarrow> (lwd_error, unit) result" where
  "send_transaction c data =
     (case st_send_transaction c \<lparr>rt_data = data, rt_height = 0\<rparr> of
        Inl e \<Rightarrow> Inl (Rpc e)
      | Inr resp \<Rightarrow> if sr_error_code resp \<noteq> 0 then Inl (BroadcastRejected (sr_error_message resp)) else Inr ())"

text \<open>What the daemon logs of its indexer; it starts and runs whatever this is.\<close>

datatype indexer_log = IndexerConnected rstr "64 word" | HeightFailed lwd_error | ConnectFailed lwd_error

definition indexer_task :: "'b grpc_ext \<Rightarrow> rstr \<Rightarrow> indexer_log" where
  "indexer_task G url =
     (case lwd_connect G url of
        Inr c \<Rightarrow> (case latest_height c of Inr h \<Rightarrow> IndexerConnected url h | Inl e \<Rightarrow> HeightFailed e)
      | Inl e \<Rightarrow> ConnectFailed e)"

subsection \<open>The loop over a stream\<close>

text \<open>The loop ends where the stream does: with the blocks before its end, or with the error alone.\<close>

lemma collect_stream_blocks:
  assumes "\<And>j. j < n \<Longrightarrow> s (i + j) = Inr (Some (b j))"
  shows "collect_stream s i blocks = collect_stream s (i + n) (blocks @ map b [0..<n])"
  using assms
proof (induction n)
  case (Suc n)
  have n: "s (i + n) = Inr (Some (b n))" using Suc.prems by simp
  have "collect_stream s i blocks = collect_stream s (i + n) (blocks @ map b [0..<n])" using Suc by simp
  also have "\<dots> = collect_stream s (i + Suc n) (blocks @ map b [0..<Suc n])"
    by (subst collect_stream.simps) (simp add: n)
  finally show ?case .
qed simp

definition stream_end :: "(nat \<Rightarrow> 'b stream_poll) \<Rightarrow> nat \<Rightarrow> bool" where
  "stream_end s n \<longleftrightarrow> (\<nexists>b. s n = Inr (Some b)) \<and> (\<forall>j < n. \<exists>b. s j = Inr (Some b))"

lemma collect_stream_end:
  assumes "stream_end s n"
  shows "collect_stream s 0 [] =
    Some (case s n of Inl e \<Rightarrow> Inl (Rpc e) | Inr _ \<Rightarrow> Inr (map (\<lambda>j. the (projr (s j))) [0..<n]))"
proof -
  have "s (0 + j) = Inr (Some (the (projr (s j))))" if "j < n" for j
    using assms that by (auto simp: stream_end_def)
  from collect_stream_blocks[of n s 0, OF this] have "collect_stream s 0 [] = collect_stream s n (map (\<lambda>j. the (projr (s j))) [0..<n])"
    by simp
  also have "\<dots> = Some (case s n of Inl e \<Rightarrow> Inl (Rpc e) | Inr _ \<Rightarrow> Inr (map (\<lambda>j. the (projr (s j))) [0..<n]))"
    using assms by (subst collect_stream.simps) (auto simp: stream_end_def split: sum.splits option.splits)
  finally show ?thesis .
qed

lemma collect_stream_returns:
  assumes "collect_stream s i blocks = Some r" shows "\<exists>n \<ge> i. \<nexists>b. s n = Inr (Some b)"
proof (rule collect_stream.raw_induct[OF _ assms])
  fix f s i blocks r
  assume ih: "\<And>s i blocks r. f s i blocks = Some r \<Longrightarrow> \<exists>n \<ge> i. \<nexists>b. s n = Inr (Some b)"
    and body: "(case s i of Inl e \<Rightarrow> Some (Inl (Rpc e)) | Inr None \<Rightarrow> Some (Inr blocks)
      | Inr (Some b) \<Rightarrow> f s (Suc i) (blocks @ [b])) = Some r"
  show "\<exists>n \<ge> i. \<nexists>b. s n = Inr (Some b)"
  proof (cases "\<exists>b. s i = Inr (Some b)")
    case True
    with body obtain b where "f s (Suc i) (blocks @ [b]) = Some r" by auto
    from ih[OF this] show ?thesis using Suc_leD by blast
  qed blast
qed

text \<open>A range is returned exactly when the stream ends, and then it is what the server sent, in its order.\<close>

lemma block_range_returns_iff:
  assumes "st_block_range c \<lparr>br_start = Some (height_id lo), br_end = Some (height_id hi), br_pool_types = []\<rparr> = Inr s"
  shows "(\<exists>r. lwd_block_range c lo hi = Some r) \<longleftrightarrow> (\<exists>n. stream_end s n)"
proof
  assume "\<exists>r. lwd_block_range c lo hi = Some r"
  then obtain r where "collect_stream s 0 [] = Some r" using assms by (auto simp: lwd_block_range_def)
  then have "\<exists>n. \<nexists>b. s n = Inr (Some b)" using collect_stream_returns by blast
  then have "\<nexists>b. s (LEAST n. \<nexists>b. s n = Inr (Some b)) = Inr (Some b)" by (rule LeastI_ex)
  moreover have "\<exists>b. s j = Inr (Some b)" if "j < (LEAST n. \<nexists>b. s n = Inr (Some b))" for j
    using not_less_Least[OF that] by blast
  ultimately show "\<exists>n. stream_end s n" unfolding stream_end_def by blast
next
  assume "\<exists>n. stream_end s n"
  then show "\<exists>r. lwd_block_range c lo hi = Some r" using assms collect_stream_end by (auto simp: lwd_block_range_def)
qed

text \<open>A transaction is accepted only with the error code zero.\<close>

lemma send_transaction_ok:
  "send_transaction c data = Inr () \<longleftrightarrow>
     (\<exists>resp. st_send_transaction c \<lparr>rt_data = data, rt_height = 0\<rparr> = Inr resp \<and> sr_error_code resp = 0)"
  by (auto simp: send_transaction_def split: sum.splits if_splits)

end
