(* ===== verification/Listeners.thy ===== *)
theory Listeners
  imports Operations Idle Capture Wallet_Client
begin

text \<open>
  The listeners of the daemon (\<^verbatim>\<open>serve\<close> and \<^verbatim>\<open>serve_tcp\<close> of \<^verbatim>\<open>talk-protocol/src/server.rs\<close>, \<^verbatim>\<open>listen\<close> of
  \<^verbatim>\<open>talk-imap/src/server.rs\<close>, the control socket) and the life of the process (\<^verbatim>\<open>main\<close> of \<^verbatim>\<open>talkd/src/main.rs\<close>). What a
  call of \<^verbatim>\<open>accept\<close> gives is an error or a stream; a stream on a port with a certificate becomes a
  connection when its handshake succeeds. The running daemon of the theory \<^verbatim>\<open>System\<close> is what the listeners
  and the tasks they spawn refine.
\<close>

subsection \<open>The IMAP servers\<close>

definition with_capture :: "rstr option \<Rightarrow> imap_server \<Rightarrow> imap_server" where
  "with_capture capture v = (case capture of Some dir \<Rightarrow> server_with_capture_dir dir v | None \<Rightarrow> v)"

definition imap_server_of :: "daemon \<Rightarrow> rstr option \<Rightarrow> imap_server" where
  "imap_server_of d capture =
     (let v = with_capture capture (daemon_imap (dm_config d)) in
      case dm_tls d of Some c \<Rightarrow> server_with_tls c v | None \<Rightarrow> v)"

definition plain_server_of :: "daemon \<Rightarrow> rstr option \<Rightarrow> imap_server" where
  "plain_server_of d capture =
     with_capture capture
       (server_with_domain (gn_domain (cf_general (dm_config d)))
         (server_with_auth_mode (imap_auth (cf_auth (dm_config d))) (imap_server_new ''talkd'')))"

subsection \<open>Accepting\<close>

text \<open>An accepted stream, as its bytes or as what they carry when the handshake with a certificate succeeds.\<close>

record 's tls_accept =
  ta_plain :: "'s \<Rightarrow> bytes"
  ta_handshake :: "server_config \<Rightarrow> 's \<Rightarrow> (rstr, bytes) result"

definition stream_in :: "'s tls_accept \<Rightarrow> server_config option \<Rightarrow> 's \<Rightarrow> bytes option" where
  "stream_in A tls raw =
     (case tls of
        None \<Rightarrow> Some (ta_plain A raw)
      | Some c \<Rightarrow> (case ta_handshake A c raw of Inr inp \<Rightarrow> Some inp | Inl _ \<Rightarrow> None))"

record listener =
  ln_up :: bool
  ln_seq :: "64 word"

definition imap_listen :: "os_ext \<Rightarrow> imap_server \<Rightarrow> rstr \<Rightarrow> (rstr, listener) result" where
  "imap_listen OS v addr =
     (case os_tcp OS addr of
        Some e \<Rightarrow> Inl e
      | None \<Rightarrow>
          (case sr_capture_dir v of
             Some dir \<Rightarrow> if os_mkdir OS dir then Inr \<lparr>ln_up = True, ln_seq = 0\<rparr> else Inl dir
           | None \<Rightarrow> Inr \<lparr>ln_up = True, ln_seq = 0\<rparr>))"

text \<open>An error of \<^verbatim>\<open>accept\<close> ends the loop; otherwise a task is spawned, whose number is used up even if its handshake fails.\<close>

definition imap_accept :: "'s tls_accept \<Rightarrow> imap_server \<Rightarrow> (rstr, 's) result \<Rightarrow> listener \<Rightarrow> (64 word \<times> bytes) option \<times> listener" where
  "imap_accept A v r l =
     (case r of
        Inl _ \<Rightarrow> (None, l\<lparr>ln_up := False\<rparr>)
      | Inr raw \<Rightarrow> (map_option (Pair (ln_seq l)) (stream_in A (sr_tls v) raw), l\<lparr>ln_seq := ln_seq l + 1\<rparr>))"

record listening =
  lg_system :: system
  lg_imap :: listener
  lg_plain :: listener

datatype 's accept =
    OnUnix "(rstr, 's) result"
  | OnTcp "(rstr, 's) result"
  | OnControl "(rstr, 's) result"
  | OnImap "(rstr, 's) result"
  | OnPlain "(rstr, 's) result"

definition spawn_zsmtp :: "daemon_env \<Rightarrow> daemon \<Rightarrow> bytes option \<Rightarrow> system \<Rightarrow> system" where
  "spawn_zsmtp V d inp y =
     (case inp of
        None \<Rightarrow> y
      | Some i \<Rightarrow> (case zsmtp_open V d i (sy_world y) of None \<Rightarrow> y | Some c \<Rightarrow> y\<lparr>sy_zsmtp := sy_zsmtp y @ [c]\<rparr>))"

definition spawn_control :: "bytes \<Rightarrow> system \<Rightarrow> system" where
  "spawn_control inp y = y\<lparr>sy_control := sy_control y @ [\<lparr>mc_world = sy_world y, mc_in = inp, mc_out = []\<rparr>]\<rparr>"

definition spawn_imap :: "imap_server \<Rightarrow> (64 word \<times> bytes) option \<Rightarrow> system \<Rightarrow> system" where
  "spawn_imap v c y =
     (if c = None then y else y\<lparr>sy_imap := sy_imap y @ [(ConnRunning, conn_start v (w_store (sy_world y)))]\<rparr>)"

text \<open>One turn of an accept loop. Those of ZSMTP and of the control socket go on after an error.\<close>

definition serve_accept :: "daemon_env \<Rightarrow> 's tls_accept \<Rightarrow> daemon \<Rightarrow> (rstr, 's) result \<Rightarrow> system \<Rightarrow> system" where
  "serve_accept V A d r y = (case r of Inl _ \<Rightarrow> y | Inr raw \<Rightarrow> spawn_zsmtp V d (Some (ta_plain A raw)) y)"

definition serve_tcp_accept :: "daemon_env \<Rightarrow> 's tls_accept \<Rightarrow> daemon \<Rightarrow> (rstr, 's) result \<Rightarrow> system \<Rightarrow> system" where
  "serve_tcp_accept V A d r y = (case r of Inl _ \<Rightarrow> y | Inr raw \<Rightarrow> spawn_zsmtp V d (stream_in A (dm_tls d) raw) y)"

definition control_accept :: "'s tls_accept \<Rightarrow> (rstr, 's) result \<Rightarrow> system \<Rightarrow> system" where
  "control_accept A r y = (case r of Inl _ \<Rightarrow> y | Inr raw \<Rightarrow> spawn_control (ta_plain A raw) y)"

fun accept_step :: "daemon_env \<Rightarrow> 's tls_accept \<Rightarrow> daemon \<Rightarrow> rstr option \<Rightarrow> 's accept \<Rightarrow> listening \<Rightarrow> listening" where
  "accept_step V A d cap (OnUnix r) g = g\<lparr>lg_system := serve_accept V A d r (lg_system g)\<rparr>"
| "accept_step V A d cap (OnTcp r) g = g\<lparr>lg_system := serve_tcp_accept V A d r (lg_system g)\<rparr>"
| "accept_step V A d cap (OnControl r) g = g\<lparr>lg_system := control_accept A r (lg_system g)\<rparr>"
| "accept_step V A d cap (OnImap r) g =
     (if ln_up (lg_imap g)
      then (case imap_accept A (imap_server_of d cap) r (lg_imap g) of (c, l) \<Rightarrow>
              g\<lparr>lg_system := spawn_imap (imap_server_of d cap) c (lg_system g), lg_imap := l\<rparr>)
      else g)"
| "accept_step V A d cap (OnPlain r) g =
     (if ln_up (lg_plain g)
      then (case imap_accept A (plain_server_of d cap) r (lg_plain g) of (c, l) \<Rightarrow>
              g\<lparr>lg_system := spawn_imap (plain_server_of d cap) c (lg_system g), lg_plain := l\<rparr>)
      else g)"

text \<open>The listeners after the start: a port that cannot be bound is logged and the daemon goes on without it.\<close>

definition listener_of :: "(rstr, listener) result \<Rightarrow> listener" where
  "listener_of r = (case r of Inr l \<Rightarrow> l | Inl _ \<Rightarrow> \<lparr>ln_up = False, ln_seq = 0\<rparr>)"

definition listening_start :: "os_ext \<Rightarrow> env \<Rightarrow> daemon \<Rightarrow> rstr option \<Rightarrow> world \<Rightarrow> listening" where
  "listening_start OS v d cap w =
     \<lparr>lg_system = system_start w,
      lg_imap = listener_of (imap_listen OS (imap_server_of d cap) (sc_imap_listen (cf_sockets (dm_config d)))),
      lg_plain = (case unsafe_imap_addr v of
                    None \<Rightarrow> \<lparr>ln_up = False, ln_seq = 0\<rparr>
                  | Some addr \<Rightarrow> listener_of (imap_listen OS (plain_server_of d cap) addr))\<rparr>"

text \<open>A run: accepts on any listener, between steps of the connections that are open.\<close>

definition opens_none :: "system \<Rightarrow> system \<Rightarrow> bool" where
  "opens_none y z \<longleftrightarrow> length (sy_zsmtp z) \<le> length (sy_zsmtp y) \<and> length (sy_control z) \<le> length (sy_control y) \<and>
     length (sy_imap z) \<le> length (sy_imap y)"

inductive listen_run ::
    "daemon_env \<Rightarrow> 's tls_accept \<Rightarrow> daemon \<Rightarrow> rstr option \<Rightarrow> listening \<Rightarrow> 's accept list \<Rightarrow> listening \<Rightarrow> bool" for V A d cap g where
  run_start: "listen_run V A d cap g [] g"
| run_accept: "listen_run V A d cap g es h \<Longrightarrow> listen_run V A d cap g (es @ [e]) (accept_step V A d cap e h)"
| run_serve: "listen_run V A d cap g es h \<Longrightarrow> daemon_step V d (lg_system h) y \<Longrightarrow> opens_none (lg_system h) y \<Longrightarrow>
    listen_run V A d cap g es (h\<lparr>lg_system := y\<rparr>)"

subsection \<open>The process\<close>

datatype talkd_end = Exited nat | Killed

inductive talkd ::
    "daemon_env \<Rightarrow> toml_ext \<Rightarrow> os_ext \<Rightarrow> 's tls_accept \<Rightarrow> nat \<Rightarrow> rstr \<Rightarrow> rstr option \<Rightarrow> socks \<Rightarrow> world \<Rightarrow> talkd_end \<Rightarrow>
     socks \<times> world \<Rightarrow> bool" for V X OS A pid path cap s w where
  talkd_config: "config_load X (w_files w) path = Inl e \<Longrightarrow> talkd V X OS A pid path cap s w (Exited 1) (s, w)"
| talkd_boot: "config_load X (w_files w) path = Inr cfg \<Longrightarrow> daemon_boot OS pid cfg (s, w) = (Inl e, s', w') \<Longrightarrow>
    talkd V X OS A pid path cap s w (Exited 1) (s', w')"
| talkd_shutdown: "config_load X (w_files w) path = Inr cfg \<Longrightarrow> daemon_boot OS pid cfg (s, w) = (Inr d, s', w') \<Longrightarrow>
    listen_run V A d cap (listening_start OS (de_vars V) d cap w') es g \<Longrightarrow>
    talkd V X OS A pid path cap s w (Exited 0) (daemon_shutdown d s', sy_world (lg_system g))"
| talkd_killed: "config_load X (w_files w) path = Inr cfg \<Longrightarrow> daemon_boot OS pid cfg (s, w) = (Inr d, s', w') \<Longrightarrow>
    listen_run V A d cap (listening_start OS (de_vars V) d cap w') es g \<Longrightarrow>
    talkd V X OS A pid path cap s w Killed (crash pid s', sy_world (lg_system g))"

subsection \<open>The listeners refine the running daemon\<close>

text \<open>Neither a certificate nor a transcript changes how a connection begins.\<close>

lemma conn_start_server [simp]:
  "conn_start (imap_server_of d cap) st = conn_start (daemon_imap (dm_config d)) st"
  "conn_start (plain_server_of d cap) st = conn_start (daemon_imap (dm_config d)) st"
  by (auto simp: imap_server_of_def plain_server_of_def with_capture_def server_with_capture_dir_def server_with_tls_def
      server_with_domain_def server_with_auth_mode_def daemon_imap_def conn_start_def new_session_def Let_def split: option.split)

definition steps_or_stays :: "daemon_env \<Rightarrow> daemon \<Rightarrow> system \<Rightarrow> system \<Rightarrow> bool" where
  "steps_or_stays V d y z \<longleftrightarrow> z = y \<or> daemon_step V d y z"

lemma spawn_zsmtp_step: "steps_or_stays V d y (spawn_zsmtp V d inp y)"
  by (auto simp: steps_or_stays_def spawn_zsmtp_def intro: step_zsmtp_open split: option.split)

lemma spawn_imap_step:
  "steps_or_stays V d y (spawn_imap (imap_server_of d cap) c y)" "steps_or_stays V d y (spawn_imap (plain_server_of d cap) c y)"
  using step_imap_open[of V d y] by (auto simp: steps_or_stays_def spawn_imap_def)

lemma accept_step_refines: "steps_or_stays V d (lg_system g) (lg_system (accept_step V A d cap e g))"
proof -
  have stay: "steps_or_stays V d y y" for y by (simp add: steps_or_stays_def)
  have control: "steps_or_stays V d y (spawn_control inp y)" for inp y
    using step_control_open[of V d y inp] by (simp add: steps_or_stays_def spawn_control_def)
  show ?thesis
    by (cases e) (auto simp: serve_accept_def serve_tcp_accept_def control_accept_def
        intro: stay control spawn_zsmtp_step spawn_imap_step split: sum.split prod.split)
qed

lemma listen_run_reach:
  assumes "listen_run V A d cap g es h" "lg_system g = system_start w"
  shows "daemon_reach V d w (lg_system h)"
  using assms
proof (induction rule: listen_run.induct)
  case run_start
  then show ?case by (simp add: reach_start)
next
  case (run_accept es h e)
  then show ?case using accept_step_refines[of V d h A cap e] by (auto simp: steps_or_stays_def intro: reach_step)
next
  case (run_serve es h y)
  then show ?case by (auto intro: reach_step)
qed

subsection \<open>Which streams become IMAP sessions\<close>

fun imap_results :: "'s accept list \<Rightarrow> (rstr, 's) result list" where
  "imap_results [] = []"
| "imap_results (OnImap r # es) = r # imap_results es"
| "imap_results (_ # es) = imap_results es"

fun plain_results :: "'s accept list \<Rightarrow> (rstr, 's) result list" where
  "plain_results [] = []"
| "plain_results (OnPlain r # es) = r # plain_results es"
| "plain_results (_ # es) = plain_results es"

text \<open>The streams a listener serves: those before the first error whose handshake succeeds.\<close>

definition served :: "'s tls_accept \<Rightarrow> imap_server \<Rightarrow> (rstr, 's) result list \<Rightarrow> 's list" where
  "served A v rs = filter (\<lambda>raw. stream_in A (sr_tls v) raw \<noteq> None) (map projr (takeWhile is_ok rs))"

lemma results_append [simp]:
  "imap_results (es @ fs) = imap_results es @ imap_results fs" "plain_results (es @ fs) = plain_results es @ plain_results fs"
  by (induction es rule: imap_results.induct) simp_all

lemma takeWhile_snoc: "takeWhile P (xs @ [x]) = takeWhile P xs @ (if list_all P xs \<and> P x then [x] else [])"
  by (induction xs) auto

lemma takeWhile_full: "list_all P xs \<Longrightarrow> takeWhile P xs = xs"
  by (induction xs) auto

lemma served_snoc:
  "served A v (rs @ [r]) =
     served A v rs @ (if list_all is_ok rs \<and> is_ok r \<and> stream_in A (sr_tls v) (projr r) \<noteq> None then [projr r] else [])"
  by (auto simp: served_def takeWhile_snoc)

text \<open>What a listener has done after a run, from its results alone.\<close>

definition listener_after :: "bool \<Rightarrow> (rstr, 's) result list \<Rightarrow> listener" where
  "listener_after up rs = \<lparr>ln_up = up \<and> list_all is_ok rs, ln_seq = (if up then of_nat (length (takeWhile is_ok rs)) else 0)\<rparr>"

definition sessions_after :: "'s tls_accept \<Rightarrow> imap_server \<Rightarrow> bool \<Rightarrow> (rstr, 's) result list \<Rightarrow> nat" where
  "sessions_after A v up rs = (if up then length (served A v rs) else 0)"

lemma listener_step:
  assumes "l = listener_after up rs"
  shows "ln_up l \<Longrightarrow> snd (imap_accept A v r l) = listener_after up (rs @ [r])" "\<not> ln_up l \<Longrightarrow> l = listener_after up (rs @ [r])"
    "ln_up l \<Longrightarrow> sessions_after A v up (rs @ [r]) = sessions_after A v up rs + (if fst (imap_accept A v r l) = None then 0 else 1)"
    "\<not> ln_up l \<Longrightarrow> sessions_after A v up (rs @ [r]) = sessions_after A v up rs"
proof -
  note defs = assms listener_after_def sessions_after_def imap_accept_def served_snoc takeWhile_snoc is_ok_def
  show "ln_up l \<Longrightarrow> snd (imap_accept A v r l) = listener_after up (rs @ [r])" by (cases r) (simp_all add: defs)
  show "\<not> ln_up l \<Longrightarrow> l = listener_after up (rs @ [r])" by (simp add: defs)
  show "ln_up l \<Longrightarrow> sessions_after A v up (rs @ [r]) = sessions_after A v up rs + (if fst (imap_accept A v r l) = None then 0 else 1)"
    by (cases r) (simp_all add: defs)
  show "\<not> ln_up l \<Longrightarrow> sessions_after A v up (rs @ [r]) = sessions_after A v up rs" by (simp add: defs)
qed

lemma imap_step_length:
  assumes "daemon_step V d y z" "opens_none y z" shows "length (sy_imap z) = length (sy_imap y)"
  using assms by (cases rule: daemon_step.cases) (auto simp: opens_none_def)

lemma spawn_imap_length: "length (sy_imap (spawn_imap v c y)) = length (sy_imap y) + (if c = None then 0 else 1)"
  by (simp add: spawn_imap_def)

lemma other_accepts_length [simp]:
  "length (sy_imap (serve_accept V A d r y)) = length (sy_imap y)" "length (sy_imap (serve_tcp_accept V A d r y)) = length (sy_imap y)"
  "length (sy_imap (control_accept A r y)) = length (sy_imap y)"
  by (auto simp: serve_accept_def serve_tcp_accept_def control_accept_def spawn_zsmtp_def spawn_control_def split: sum.split option.split)

lemma listen_run_sessions:
  assumes "listen_run V A d cap g es h" "lg_imap g = \<lparr>ln_up = up, ln_seq = 0\<rparr>" "lg_plain g = \<lparr>ln_up = up', ln_seq = 0\<rparr>" "sy_imap (lg_system g) = []"
  shows "lg_imap h = listener_after up (imap_results es) \<and> lg_plain h = listener_after up' (plain_results es) \<and>
    length (sy_imap (lg_system h)) =
      sessions_after A (imap_server_of d cap) up (imap_results es) + sessions_after A (plain_server_of d cap) up' (plain_results es)"
  using assms
proof (induction rule: listen_run.induct)
  case run_start
  then show ?case by (simp add: sessions_after_def served_def listener_after_def)
next
  case (run_accept es h e)
  then have ih: "lg_imap h = listener_after up (imap_results es)" "lg_plain h = listener_after up' (plain_results es)"
    "length (sy_imap (lg_system h)) =
      sessions_after A (imap_server_of d cap) up (imap_results es) + sessions_after A (plain_server_of d cap) up' (plain_results es)" by simp_all
  note i = listener_step[OF ih(1)] and p = listener_step[OF ih(2)]
  show ?case
  proof (cases e)
    case (OnImap r)
    show ?thesis
    proof (cases "ln_up (lg_imap h)")
      case True
      with OnImap i(1,3)[where A = A and v = "imap_server_of d cap" and r = r] ih show ?thesis
        by (cases "imap_accept A (imap_server_of d cap) r (lg_imap h)") (simp add: spawn_imap_length)
    next
      case False
      with OnImap i(2)[where r = r] i(4)[where A = A and v = "imap_server_of d cap" and r = r] ih show ?thesis by simp
    qed
  next
    case (OnPlain r)
    show ?thesis
    proof (cases "ln_up (lg_plain h)")
      case True
      with OnPlain p(1,3)[where A = A and v = "plain_server_of d cap" and r = r] ih show ?thesis
        by (cases "imap_accept A (plain_server_of d cap) r (lg_plain h)") (simp add: spawn_imap_length)
    next
      case False
      with OnPlain p(2)[where r = r] p(4)[where A = A and v = "plain_server_of d cap" and r = r] ih show ?thesis by simp
    qed
  qed (use ih in simp_all)
next
  case (run_serve es h y)
  then show ?case using imap_step_length[OF run_serve.hyps(2,3)] by simp
qed

text \<open>
  C15. The listeners. Whatever the calls of \<^verbatim>\<open>accept\<close> give, on whichever listener and in whatever order, interleaved in any
  way with the connections that are open, the daemon behaves as the running daemon of \<^verbatim>\<open>System\<close>, so that what is shown of
  that holds of it. Exactly the streams that an IMAP listener accepts before its first error, and whose handshake
  succeeds where there is a certificate, become IMAP sessions: one failing \<^verbatim>\<open>accept\<close> ends the listener for good, while the
  ZSMTP and control listeners go on after an error.
\<close>

theorem listening_refines_daemon:
  assumes "listen_run V A d cap (listening_start OS v d cap w) es h"
  defines "imap \<equiv> imap_listen OS (imap_server_of d cap) (sc_imap_listen (cf_sockets (dm_config d)))"
    and "plain \<equiv> (case unsafe_imap_addr v of None \<Rightarrow> Inl [] | Some addr \<Rightarrow> imap_listen OS (plain_server_of d cap) addr)"
  shows "daemon_reach V d w (lg_system h) \<and>
    length (sy_imap (lg_system h)) =
      (if is_ok imap then length (served A (imap_server_of d cap) (imap_results es)) else 0) +
      (if is_ok plain then length (served A (plain_server_of d cap) (plain_results es)) else 0) \<and>
    (ln_up (lg_imap h) \<longleftrightarrow> is_ok imap \<and> list_all is_ok (imap_results es)) \<and>
    (\<forall>c raw. dm_tls d = Some c \<longrightarrow> raw \<in> set (served A (imap_server_of d cap) (imap_results es)) \<longrightarrow> is_ok (ta_handshake A c raw)) \<and>
    (\<forall>e. accept_step V A d cap (OnUnix (Inl e)) h = h \<and> accept_step V A d cap (OnTcp (Inl e)) h = h \<and>
       accept_step V A d cap (OnControl (Inl e)) h = h)"
proof -
  have up: "listener_of (imap_listen OS v' a) = \<lparr>ln_up = is_ok (imap_listen OS v' a), ln_seq = 0\<rparr>" for v' a
    by (auto simp: listener_of_def imap_listen_def is_ok_def split: option.splits if_splits)
  have start: "lg_imap (listening_start OS v d cap w) = \<lparr>ln_up = is_ok imap, ln_seq = 0\<rparr>"
    "lg_plain (listening_start OS v d cap w) = \<lparr>ln_up = is_ok plain, ln_seq = 0\<rparr>"
    "lg_system (listening_start OS v d cap w) = system_start w" "sy_imap (system_start w) = []"
    by (simp_all add: listening_start_def imap_def plain_def up system_start_def split: option.split) (simp add: is_ok_def)
  note run = listen_run_sessions[OF assms(1) start(1,2), unfolded start(3), OF start(4)]
  have tls: "is_ok (ta_handshake A c raw)" if "dm_tls d = Some c" "raw \<in> set (served A (imap_server_of d cap) (imap_results es))" for c raw
    using that by (auto simp: served_def stream_in_def imap_server_of_def server_with_tls_def Let_def is_ok_def split: sum.splits)
  have errors: "accept_step V A d cap (OnUnix (Inl e)) h = h" "accept_step V A d cap (OnTcp (Inl e)) h = h"
    "accept_step V A d cap (OnControl (Inl e)) h = h" for e
    by (simp_all add: serve_accept_def serve_tcp_accept_def control_accept_def)
  show ?thesis
    using listen_run_reach[OF assms(1) start(3)] run tls errors by (simp add: sessions_after_def listener_after_def)
qed

definition plain_streams :: "bytes tls_accept" where
  "plain_streams = \<lparr>ta_plain = id, ta_handshake = (\<lambda>_ _. Inl ''no TLS'')\<rparr>"

text \<open>An IMAP connection is accepted, then \<^verbatim>\<open>accept\<close> fails once, and the connection after that is not served.\<close>

theorem listening_refines_daemon_witness:
  "let d = \<lparr>dm_config = demo_config, dm_key = demo_key 32, dm_tls = None\<rparr>;
       es = [OnImap (Inr []), OnImap (Inl ''too many open files''), OnImap (Inr [])];
       g = listening_start demo_os Map.empty d None (demo_world bob_store) in
   \<exists>h. listen_run demo_serving plain_streams d None g es h \<and> daemon_reach demo_serving d (demo_world bob_store) (lg_system h) \<and>
     length (sy_imap (lg_system h)) = 1 \<and> \<not> ln_up (lg_imap h)"
proof -
  define d where "d = \<lparr>dm_config = demo_config, dm_key = demo_key 32, dm_tls = None\<rparr>"
  define g where "g = listening_start demo_os Map.empty d None (demo_world bob_store)"
  let ?s = "accept_step demo_serving plain_streams d None"
  let ?es = "[OnImap (Inr []), OnImap (Inl ''too many open files''), OnImap (Inr [])]"
  define h where "h = ?s (OnImap (Inr [])) (?s (OnImap (Inl ''too many open files'')) (?s (OnImap (Inr [])) g))"
  have run: "listen_run demo_serving plain_streams d None g ?es h"
    unfolding h_def using run_accept[OF run_accept[OF run_accept[OF run_start]], of demo_serving plain_streams d None g
        "OnImap (Inr [])" "OnImap (Inl ''too many open files'')" "OnImap (Inr [])"] by simp
  have up: "is_ok (imap_listen demo_os (imap_server_of d None) a)" for a
    by (simp add: imap_listen_def demo_os_def imap_server_of_def with_capture_def d_def daemon_imap_def server_with_auth_mode_def
        server_with_domain_def imap_server_new_def is_ok_def)
  have served: "served plain_streams (imap_server_of d None) (imap_results ?es) = [[]]"
    by (simp add: served_def is_ok_def stream_in_def imap_server_of_def with_capture_def d_def daemon_imap_def server_with_auth_mode_def
        server_with_domain_def imap_server_new_def)
  have off: "unsafe_imap_addr Map.empty = None" by (simp add: unsafe_imap_addr_def)
  have "daemon_reach demo_serving d (demo_world bob_store) (lg_system h) \<and> length (sy_imap (lg_system h)) = 1 \<and> \<not> ln_up (lg_imap h)"
    using listening_refines_daemon[OF run[unfolded g_def], unfolded off served if_P[OF up]] by (simp add: is_ok_def)
  with run show ?thesis unfolding Let_def d_def[symmetric] g_def[symmetric] by blast
qed

text \<open>
  A certificate that is configured but cannot be loaded is treated as none: the daemon starts, and the IMAP and ZSMTP ports serve every
  stream they accept in plain text.
\<close>

lemma broken_certificate_plaintext:
  assumes "daemon_boot OS pid cfg (s, w) = (Inr d, s', w')"
    and "load_server_config (os_tls OS) (w_files w') (tl_cert (cf_tls cfg)) (tl_key (cf_tls cfg)) = Inl e"
  shows "dm_tls d = None" "served A (imap_server_of d cap) rs = map projr (takeWhile is_ok rs)"
    "serve_tcp_accept V A d (Inr raw) y = spawn_zsmtp V d (Some (ta_plain A raw)) y"
proof -
  show tls: "dm_tls d = None" using daemon_boot_ok(11)[OF assms(1)] assms(2) by (metis daemon.select_convs(3) sum.simps(5) tls_config_def)
  have "sr_tls (imap_server_of d cap) = None"
    by (simp add: imap_server_of_def tls with_capture_def server_with_capture_dir_def daemon_imap_def server_with_auth_mode_def
        server_with_domain_def imap_server_new_def split: option.split)
  then show "served A (imap_server_of d cap) rs = map projr (takeWhile is_ok rs)" by (simp add: served_def stream_in_def)
  show "serve_tcp_accept V A d (Inr raw) y = spawn_zsmtp V d (Some (ta_plain A raw)) y"
    by (simp add: serve_tcp_accept_def stream_in_def tls)
qed

text \<open>
  Both IMAP servers count their transcripts from zero and write into one directory: connections accepted in the
  same millisecond by one and the other may get the same file.
\<close>

lemma transcripts_collide:
  assumes "imap_listen OS (imap_server_of d (Some dir)) a = Inr l" "imap_listen OS (plain_server_of d (Some dir)) b = Inr l'"
  shows "capture_path X now dir (unat (ln_seq l)) = capture_path X now dir (unat (ln_seq l'))"
  using assms by (auto simp: imap_listen_def split: option.splits if_splits)

subsection \<open>The life of the process\<close>

text \<open>What a run of the daemon keeps, from the start of its listeners on.\<close>

lemma listen_run_keeps:
  assumes "listen_run V A d cap (listening_start OS v d cap w) es g" "store_inv (w_store w)"
  shows "store_inv (w_store (sy_world (lg_system g)))" "tables_grow w (sy_world (lg_system g))"
    "store_reach (w_store w) \<Longrightarrow> store_reach (w_store (sy_world (lg_system g)))"
proof -
  have reach: "daemon_reach V d w (lg_system g)"
    by (rule listen_run_reach[OF assms(1)]) (simp add: listening_start_def)
  from daemon_reach_running[OF this assms(2)] show "store_inv (w_store (sy_world (lg_system g)))" "tables_grow w (sy_world (lg_system g))"
    by (simp_all add: running_def)
  show "store_reach (w_store w) \<Longrightarrow> store_reach (w_store (sy_world (lg_system g)))"
    by (rule by_ops_reach[OF daemon_reach_ops[OF reach assms(2)]])
qed

text \<open>The ways a process ends that had started, with the sockets it leaves and the world it worked on.\<close>

lemma talkd_cases:
  assumes "talkd V X OS A pid path cap s w out (s', w')"
  obtains (failed) "out = Exited 1" "cleaned s s'" "w_store w' = w_store w"
  | (ran) cfg d s1 w1 es g where "out = Exited 0 \<or> out = Killed" "config_load X (w_files w) path = Inr cfg"
      "daemon_boot OS pid cfg (s, w) = (Inr d, s1, w1)" "listen_run V A d cap (listening_start OS (de_vars V) d cap w1) es g"
      "s' = (if out = Killed then crash pid s1 else daemon_shutdown d s1)" "w' = sy_world (lg_system g)"
  using assms
proof cases
  case (talkd_boot cfg e)
  then show ?thesis using failed daemon_boot_failed daemon_boot_store by blast
qed (use failed ran in auto)

lemma cleaned_live: "cleaned s s' \<Longrightarrow> s p = Some (Live q) \<Longrightarrow> s' p = Some (Live q)"
  by (auto simp: cleaned_def dest: spec[of _ p])



end
