(* ===== verification/Spec2Isabelle.thy ===== *)
theory Spec2Isabelle
  imports Framing Codec Handshake Attestation Session Store_Claims Template Sink
    Client Exchange Dns Mailbox_Proto Secure Keys Imap_Parse Imap_Claims Config Ctl_Claims System Idle Capture
    Schema Login Operations Listeners
begin

text \<open>
  \<^bold>\<open>Talk\<close> is a mail daemon for the ZSMTP protocol: users register locally, daemons hand each other invoices
  after proving their domain keys, mail is kept in an SQLite store and read over IMAP. This development models the
  Rust crates of the repository (under \<^verbatim>\<open>src/crates\<close>) and proves what makes them correct. Each theory opens with
  a note on what it holds; this one gives the map.

  \<^bold>\<open>The program and its theories.\<close>
  \<^item> \<^verbatim>\<open>Talk_Prelude\<close>, \<^verbatim>\<open>Rust_Str\<close>, \<^verbatim>\<open>Zsmtp_Types\<close>, \<^verbatim>\<open>Externals\<close>: results and state-passing sequencing, Rust's string and number
    functions on byte strings (UTF-8 validity, trimming, splitting, decimal numbers at their width), status codes
    and payloads (\<^verbatim>\<open>status.rs\<close>, \<^verbatim>\<open>envelope.rs\<close>), and the third-party functions (base64, hex, SHA-256, Ed25519) as records of
    functions with the laws the program relies on (\<open>b64_ok\<close>, \<open>hex_ok\<close>, \<open>ed_ok\<close>) and a concrete instance of each.
  \<^item> \<^verbatim>\<open>Framing\<close>, \<^verbatim>\<open>Codec\<close>, \<^verbatim>\<open>Handshake\<close>, \<^verbatim>\<open>Attestation\<close> (\<^verbatim>\<open>talk-protocol\<close>): lines and blobs on a stream with their limits, the
    command lines, the domain-key challenge with its age in 64-bit arithmetic, and the signed attestations.
  \<^item> \<^verbatim>\<open>Session\<close> (\<^verbatim>\<open>session.rs\<close>, \<^verbatim>\<open>server.rs\<close>): the server side of a ZSMTP connection, from bytes to bytes, over an arbitrary
    delivery sink, user directory and address provider; \<^verbatim>\<open>Client\<close>, \<^verbatim>\<open>Exchange\<close> (\<^verbatim>\<open>client.rs\<close>): the sending side and both sides together;
    \<^verbatim>\<open>Dns\<close> (\<^verbatim>\<open>dns.rs\<close>): resolution of domain keys and endpoints.
  \<^item> \<^verbatim>\<open>Mailstore_Types\<close>, \<^verbatim>\<open>Sqlite\<close>, \<^verbatim>\<open>Sqlite_Inv\<close>, \<^verbatim>\<open>Sqlite_Props\<close>, \<^verbatim>\<open>Store_Claims\<close> (\<^verbatim>\<open>talk-mailstore\<close>): the tables as lists of rows in
    a record, every operation as a function on it with the locks it takes, the invariant (keys, references, UIDs) and the
    exact effect of the operations. \<^verbatim>\<open>Schema\<close>: opening a database file, its schema and migrations on untyped cells, with
    \<open>read_store\<close> as the abstraction to those rows. \<^verbatim>\<open>Password\<close>: hashing and verification over argon2.
  \<^item> \<^verbatim>\<open>Template\<close>, \<^verbatim>\<open>Sink\<close> (\<^verbatim>\<open>talk-core\<close>, \<^verbatim>\<open>talkd/src/sink.rs\<close>): rendering and delivery into the store; the \<open>world\<close> record holds
    what the tasks of a daemon share: store, events sent, clock, random numbers, files.
  \<^item> \<^verbatim>\<open>Mailbox_Proto\<close>, \<^verbatim>\<open>Secure\<close> (\<^verbatim>\<open>mailbox.rs\<close>, \<^verbatim>\<open>emulate.rs\<close>, \<^verbatim>\<open>talkd/src/secure.rs\<close>): the control channel and its commands SEND, ATTEST, REGISTER,
    STATUS, EMULATE.
  \<^item> \<^verbatim>\<open>Keys\<close> (\<^verbatim>\<open>talk-keys\<close>): data keys wrapped under shares and master keys, sealed envelopes.
  \<^item> \<^verbatim>\<open>Imap_Parse\<close>, \<^verbatim>\<open>Imap_Session\<close>, \<^verbatim>\<open>Imap_Server\<close>, \<^verbatim>\<open>Imap_Claims\<close>, \<^verbatim>\<open>Idle\<close>, \<^verbatim>\<open>Capture\<close> (\<^verbatim>\<open>talk-imap\<close>): tokenizer and incremental reader,
    every command, the connection as a step relation, the event channel behind IDLE, transcripts. \<^verbatim>\<open>Tls\<close> (\<^verbatim>\<open>tls.rs\<close>, the end of \<^verbatim>\<open>client.rs\<close>): the server's
    certificate and the client's verifier. \<^verbatim>\<open>Login\<close>: accounts from REGISTER to LOGIN.
  \<^item> \<^verbatim>\<open>Config\<close>, \<^verbatim>\<open>Ctl\<close>, \<^verbatim>\<open>Ctl_Remote\<close>, \<^verbatim>\<open>Ctl_Claims\<close> (\<^verbatim>\<open>talk-core/src/config.rs\<close>, \<^verbatim>\<open>talk-ctl\<close>): the configuration and every command of the control tool.
  \<^item> \<^verbatim>\<open>Daemon\<close>, \<^verbatim>\<open>System\<close>, \<^verbatim>\<open>Operations\<close>, \<^verbatim>\<open>Listeners\<close> (\<^verbatim>\<open>sockets.rs\<close>, \<^verbatim>\<open>talkd/src/main.rs\<close>, \<^verbatim>\<open>server.rs\<close> of both protocols, \<^verbatim>\<open>wallet.rs\<close>): start, restart and shutdown, the services as
    the program wires them, the running daemon as a step relation over all its connections, the store operations its tasks issue, the accept loops that refine it, and
    the process from its start to its end. \<^verbatim>\<open>Wallet_Client\<close> (\<^verbatim>\<open>talk-wallet/src/client.rs\<close>): the lightwalletd client over its generated stubs.

  \<^bold>\<open>How the parts meet.\<close> A peer's bytes reach \<open>run_turn\<close>, which decodes a command and hands an INVOICE to the sink; the
  sink stores it, books it in the ledger and sends an event, which an IMAP session in IDLE turns into an
  announcement. A local client's bytes reach \<open>serve_turn\<close>; SEND resolves the peer, plays the client's flow against
  it and books the outcome. The control tool acts on the same store and configuration directly. What one
  component relies on in another is a locale, interpreted on the model's definitions: \<open>frame_codec\<close> (lines and
  blobs as self-delimiting codes), \<open>delivery_world\<close> (what a sink and an address provider may do to the world, hence a whole
  connection; interpreted twice, for what changes and for the operations issued, as are the next two), \<open>mailbox_contract\<close> (the same for the handler of the control channel), \<open>command_contract\<close> (the same for the
  commands of an IMAP session, over every interleaving of reads and events), \<open>kv_table\<close> (settings and pins as
  maps), \<open>share_scheme\<close> (wrapped keys), \<open>ctl_contract\<close> (what every command of the tool keeps, twice: the store invariant, and nothing touched).

  \<^bold>\<open>What is shown.\<close> Refinement: connections, given as bytes, behave as conversations of commands and replies (ZSMTP, control
  channel, IMAP, the last for every way the stream is cut into reads). End to end: the client's flow against the
  daemon's server, and, below, a SEND at one daemon that reaches the INBOX at another. Safety: below, a running daemon under
  every interleaving, whose store is always the result of the store's own operations, each of a kind its task may issue; what unauthenticated peers, peers, local clients and IMAP users can change; that invoices go
  only to peers that proved their key; what signatures bind. Store: the invariant of every reachable store, UIDs that are never
  reused, the exact effect of deliveries, appends, flags, expunges, accounts and the ledger. Start: no live socket is
  taken, a failed start leaves none, a restart keeps the key; databases of older versions are upgraded with every row kept and
  well typed; accept loops, handshakes and the end of the process preserve what is shown of the running daemon. Accounts: exactly the
  password given to REGISTER opens a session. Tool: agreement with the daemon on registration and sending,
  printed secrets that log in, round trips of sealed files, exact edits of the configuration. Errors: where the code does
  not do what it means to, a theorem says what it does instead.

  \<^bold>\<open>Bounds and loops.\<close> Connection loops recurse on the bytes left to read and are shown to terminate; the IMAP
  tokenizer need not return (see \<open>tokenizer_returns_iff\<close>), nor the loop over a stream of blocks (\<open>block_range_returns_iff\<close>), so these are
  partial functions and \<open>None\<close> means that they run for ever. No definition uses fuel. Status codes, flags, UIDs and counts of shares are words; clock values of the challenge wrap as 64-bit
  integers where the code subtracts them; row identifiers are integers. Database files, sockets and directories that may fail do so by a
  parameter. Atomicity: a store operation runs under its lock and is atomic; \<open>append_message_to\<close>, which takes the lock twice, is
  modelled in its two halves where that matters (\<open>append_race_duplicates_uid\<close>), and tasks interleave between commands in \<open>daemon_step\<close>;
  interleavings of the store operations inside one command with those of other tasks are not considered there (the invariant of
  \<open>reachable_store_invariant\<close> holds after every sequence of operations, whoever issues them).

  \<^bold>\<open>Not modelled.\<close> The TLS record protocol and handshake themselves, PEM parsing and the generated gRPC stubs (parameters), logging,
  argument parsing (clap), and the zeroizing of memory, which no behaviour depends on. JSON, TOML and Tera, argon2,
  ciphers and DNS over HTTP are parameters, with named laws where a theorem relies on them. A store is opened before the daemon works on it; the start takes
  the failure of opening as a parameter, since \<open>open_upgrades_store\<close> shows that opening does not change what is read. Memory
  exhaustion and failing writes to open streams are not considered.
\<close>


definition demo_peer :: config where
  "demo_peer = demo_config\<lparr>cf_general := (cf_general demo_config)\<lparr>gn_domain := ''example.com''\<rparr>\<rparr>"

lemma demo_peer_exchange:
  "exchange_ok demo_ext ''b.org'' ''example.com'' ''bob'' ''al'' ''m1'' (demo_key 16) 2000 2001 ''hi''"
proof -
  have w: "wire_name ''b.org''" "wire_name ''example.com''"
    by (auto intro!: printable_token simp: wire_name_def byte_def BAR_def)
  have n: "length (demo_key 16) = 16" "(0::int) \<le> 2000" "2000 \<le> int i64_max" by (simp_all add: demo_key_def)
  show ?thesis
    using demo_names w issued_challenge(7)[OF w n] n by (simp add: exchange_ok_def demo_b64_length MAX_BLOB_def)
qed

lemma demo_mint:
  "\<exists>minted w'. placeholder_mint (draw 32) Ephemeral (demo_world st) = (minted, w') \<and>
     length (att_to_json demo_json (att_sign demo_ext ''example.com'' ''bob'' Ephemeral (ma_address minted) (ma_pubkey minted) key)) \<le> MAX_BLOB"
proof -
  have l: "length (concat (map (hex_byte \<circ> f) x)) = 2 * length x" for f and x :: "nat list"
    by (induction x) (simp_all add: hex_byte_len)
  have g: "length (att_signature (att_sign demo_ext d u m a p k)) = 64" for d u m a p k
    using demo_ed_ok by (simp add: att_sign_def Let_def ed_ok_def)
  show ?thesis
    by (simp add: placeholder_mint_def mint_pair_def draw_def demo_world_def Let_def att_to_json_def demo_json_def demo_fields_def
        g l att_mode_bytes_def MAX_BLOB_def)
qed



definition demo_daemon :: daemon where
  "demo_daemon = \<lparr>dm_config = demo_config, dm_key = demo_key 32, dm_tls = None\<rparr>"

definition demo_daemon_env :: daemon_env where
  "demo_daemon_env = \<lparr>de_ext = demo_ext, de_json = demo_json, de_templates = demo_templates, de_secure = demo_secure,
     de_emulate = demo_emu, de_crypto = demo_crypto, de_imap = demo_imap,
     de_dns = demo_dns, de_vars = ce_vars demo_env\<rparr>"


end
